(* ===== verification/Prelude.thy ===== *)
theory Prelude
  imports Main "HOL-Library.List_Lexorder" "HOL-Library.Char_ord"
begin

section \<open>Shared types, the result and state monads, and JavaScript strings\<close>

text \<open>
  The vocabulary of every component: the error codes the client throws, results that
  are either an error or a value, computations over a mutable builder, and the string
  operations of the JavaScript standard library that the sources use.

  A thrown \<open>OrmError\<close> is modelled by its code (\<open>runtime_error.ts\<close>), the message text is
  not. A plain \<open>Error\<close>, which the sources throw where they meet a state they claim to be
  impossible (\<open>present.ts\<close>), is \<open>JsError\<close>: that it never occurs on validated input is a
  property to prove, not an assumption.
\<close>

named_theorems res_simps \<open>rewrite rules of the result monad\<close>
named_theorems st_simps \<open>rewrite rules of the builder monad\<close>

subsection \<open>Errors and results\<close>

datatype code =
    IR_INVALID | VERSION_MISMATCH | SCHEMA_HASH_MISMATCH | SCHEMA_INVALID | CONFIG
  | ENTITY_UNKNOWN | ENTITY_NOT_JOINED | COLUMN_UNKNOWN | COLUMN_ALIAS_CONFLICT
  | OPERATOR_NOT_ALLOWED | OPERATOR_UNKNOWN | FUNCTION_UNKNOWN | OR_AT_GROUP_START
  | EMPTY_IN | LIMIT_IN_RELATION | INDEX_UNKNOWN | CAPABILITY_UNSUPPORTED
  | CODEC_ENCODE | CODEC_DECODE | CODEC_UNSUPPORTED | COLUMN_UNSELECTED | DIALECT_UNKNOWN | INTERNAL
  | SUBSCRIBER | DEADLOCK | ROLLBACK | FAULT | CANCELED | CONNECTION_LOST | LOCK_NOT_AVAILABLE
  | DUPLICATE_KEY | FOREIGN_KEY | READ_ONLY | CONSTRAINT | DRIVER | OPTIMISTIC_LOCK

datatype js_error =
    OrmError code
  | JsError
  | NoReturn \<comment> \<open>not a throw: the loop at this point never ends\<close>

type_synonym 'a res = "js_error + 'a"

abbreviation fail :: "code \<Rightarrow> 'a res" where
  "fail c \<equiv> Inl (OrmError c)"

definition bind_res :: "'a res \<Rightarrow> ('a \<Rightarrow> 'b res) \<Rightarrow> 'b res" where
  "bind_res r f = (case r of Inl e \<Rightarrow> Inl e | Inr a \<Rightarrow> f a)"

lemma bind_res_simps [simp, res_simps]:
  "bind_res (Inl e) f = Inl e"
  "bind_res (Inr a) f = f a"
  by (simp_all add: bind_res_def)

lemma bind_res_Inr_iff [res_simps]:
  "bind_res r f = Inr b \<longleftrightarrow> (\<exists>a. r = Inr a \<and> f a = Inr b)"
  by (cases r) auto

lemma bind_res_Inl_iff:
  "bind_res r f = Inl e \<longleftrightarrow> r = Inl e \<or> (\<exists>a. r = Inr a \<and> f a = Inl e)"
  by (cases r) auto

lemma bind_res_cong [fundef_cong]:
  "r = r' \<Longrightarrow> (\<And>a. r' = Inr a \<Longrightarrow> f a = g a) \<Longrightarrow> bind_res r f = bind_res r' g"
  by (cases r') auto

text \<open>\<open>if (cond) fail(code, ...)\<close>: the statement form of every guard.\<close>

definition refuse :: "bool \<Rightarrow> code \<Rightarrow> unit res" where
  "refuse b c = (if b then fail c else Inr ())"

lemma refuse_simps [simp, res_simps]:
  "refuse b c = Inr u \<longleftrightarrow> \<not> b"
  "refuse b c = Inl e \<longleftrightarrow> b \<and> e = OrmError c"
  by (auto simp: refuse_def)

text \<open>A sequence of statements that return nothing: the first one that throws ends it.\<close>

fun checks :: "unit res list \<Rightarrow> unit res" where
  "checks [] = Inr ()"
| "checks (r # rs) = (case r of Inl e \<Rightarrow> Inl e | Inr _ \<Rightarrow> checks rs)"

lemma checks_ok [res_simps]: "checks rs = Inr u \<longleftrightarrow> (\<forall>r \<in> set rs. r = Inr ())"
  by (induction rs) (auto split: sum.splits)

lemma checks_Inl: "checks rs = Inl e \<Longrightarrow> Inl e \<in> set rs"
  by (induction rs) (auto split: sum.splits)

text \<open>A loop whose body may throw, threading what it collects.\<close>

fun foldRes :: "('s \<Rightarrow> 'a \<Rightarrow> 's res) \<Rightarrow> 's \<Rightarrow> 'a list \<Rightarrow> 's res" where
  "foldRes f s [] = Inr s"
| "foldRes f s (x # xs) = bind_res (f s x) (\<lambda>s'. foldRes f s' xs)"

lemma foldRes_cong [fundef_cong]:
  "xs = ys \<Longrightarrow> s = t \<Longrightarrow> (\<And>u x. x \<in> set ys \<Longrightarrow> f u x = g u x) \<Longrightarrow> foldRes f s xs = foldRes g t ys"
proof (induction ys arbitrary: xs s t)
  case (Cons y ys)
  then show ?case by (auto intro!: bind_res_cong)
qed simp

fun mapRes :: "('a \<Rightarrow> 'b res) \<Rightarrow> 'a list \<Rightarrow> 'b list res" where
  "mapRes f [] = Inr []"
| "mapRes f (x # xs) = bind_res (f x) (\<lambda>y. bind_res (mapRes f xs) (\<lambda>ys. Inr (y # ys)))"

lemma mapRes_cong [fundef_cong]:
  "xs = ys \<Longrightarrow> (\<And>x. x \<in> set ys \<Longrightarrow> f x = g x) \<Longrightarrow> mapRes f xs = mapRes g ys"
  by (induction ys arbitrary: xs) auto

lemma mapRes_length: "mapRes f xs = Inr ys \<Longrightarrow> length ys = length xs"
  by (induction xs arbitrary: ys) (auto simp: res_simps)

lemma mapRes_nth:
  "mapRes f xs = Inr ys \<Longrightarrow> i < length xs \<Longrightarrow> f (xs ! i) = Inr (ys ! i)"
  by (induction xs arbitrary: ys i) (auto simp: res_simps nth_Cons split: nat.splits)

lemma mapRes_all2: "mapRes f xs = Inr ys \<Longrightarrow> list_all2 (\<lambda>x y. f x = Inr y) xs ys"
  by (induction xs arbitrary: ys) (auto simp: res_simps)

lemma mapRes_cases:
  "mapRes f xs = Inr ys \<Longrightarrow> y \<in> set ys \<Longrightarrow> \<exists>x \<in> set xs. f x = Inr y"
  by (induction xs arbitrary: ys) (auto simp: res_simps)

subsection \<open>The builder monad\<close>

text \<open>
  A computation over a mutable object (the SQL builder, the canonicalizer): it takes the
  object's state and returns a value with the new state, or throws.
\<close>

type_synonym ('s, 'a) st = "'s \<Rightarrow> js_error + 'a \<times> 's"

definition ret :: "'a \<Rightarrow> ('s, 'a) st" where
  "ret a = (\<lambda>s. Inr (a, s))"

definition throw :: "js_error \<Rightarrow> ('s, 'a) st" where
  "throw e = (\<lambda>s. Inl e)"

definition bnd :: "('s, 'a) st \<Rightarrow> ('a \<Rightarrow> ('s, 'b) st) \<Rightarrow> ('s, 'b) st" where
  "bnd m f = (\<lambda>s. case m s of Inl e \<Rightarrow> Inl e | Inr (a, t) \<Rightarrow> f a t)"

definition lift :: "'a res \<Rightarrow> ('s, 'a) st" where
  "lift r = (\<lambda>s. case r of Inl e \<Rightarrow> Inl e | Inr a \<Rightarrow> Inr (a, s))"

definition modify :: "('s \<Rightarrow> 's) \<Rightarrow> ('s, unit) st" where
  "modify f = (\<lambda>s. Inr ((), f s))"

definition gets :: "('s \<Rightarrow> 'a) \<Rightarrow> ('s, 'a) st" where
  "gets f = (\<lambda>s. Inr (f s, s))"

lemma st_run_simps [simp, st_simps]:
  "ret a s = Inr (a, s)"
  "throw e s = Inl e"
  "lift (Inl e) s = Inl e"
  "lift (Inr a) s = Inr (a, s)"
  "modify f s = Inr ((), f s)"
  "gets h s = Inr (h s, s)"
  by (simp_all add: ret_def throw_def lift_def modify_def gets_def)

lemma lift_Inr_iff [st_simps]: "lift r s = Inr (a, t) \<longleftrightarrow> r = Inr a \<and> t = s"
  by (cases r) auto

lemma bnd_Inr_iff [st_simps]:
  "bnd m f s = Inr (b, u) \<longleftrightarrow> (\<exists>a t. m s = Inr (a, t) \<and> f a t = Inr (b, u))"
  by (auto simp: bnd_def split: sum.splits prod.splits)

lemma bnd_Inl_iff:
  "bnd m f s = Inl e \<longleftrightarrow> m s = Inl e \<or> (\<exists>a t. m s = Inr (a, t) \<and> f a t = Inl e)"
  by (auto simp: bnd_def split: sum.splits prod.splits)

lemma bnd_ret [simp, st_simps]:
  "bnd (ret a) f = f a"
  "bnd (throw e) f' = throw e"
  "bnd (lift (Inr a)) f = f a"
  "bnd (lift (Inl e)) f' = throw e"
  by (auto simp: bnd_def)

lemma bnd_cong [fundef_cong]:
  assumes "m = m'" and "\<And>a s t. m' s = Inr (a, t) \<Longrightarrow> f a = g a"
  shows "bnd m f = bnd m' g"
proof
  fix s
  show "bnd m f s = bnd m' g s"
    using assms(2)[of s] by (auto simp: bnd_def assms(1) split: sum.splits prod.splits)
qed

fun mapM :: "('a \<Rightarrow> ('s, 'b) st) \<Rightarrow> 'a list \<Rightarrow> ('s, 'b list) st" where
  "mapM f [] = ret []"
| "mapM f (x # xs) = bnd (f x) (\<lambda>y. bnd (mapM f xs) (\<lambda>ys. ret (y # ys)))"

lemma mapM_cong [fundef_cong]:
  "xs = ys \<Longrightarrow> (\<And>x. x \<in> set ys \<Longrightarrow> f x = g x) \<Longrightarrow> mapM f xs = mapM g ys"
  by (induction ys arbitrary: xs) (auto intro!: bnd_cong)

text \<open>A loop that threads a value of its own through the statements it runs.\<close>

fun foldM :: "('c \<Rightarrow> 'a \<Rightarrow> ('s, 'c) st) \<Rightarrow> 'c \<Rightarrow> 'a list \<Rightarrow> ('s, 'c) st" where
  "foldM f c [] = ret c"
| "foldM f c (x # xs) = bnd (f c x) (\<lambda>c'. foldM f c' xs)"

lemma foldM_cong [fundef_cong]:
  "xs = ys \<Longrightarrow> c = c' \<Longrightarrow> (\<And>u x. x \<in> set ys \<Longrightarrow> f u x = g u x) \<Longrightarrow> foldM f c xs = foldM g c' ys"
  by (induction ys arbitrary: xs c c') (auto intro!: bnd_cong)

text \<open>\<open>if (x !== undefined) y = f(x)\<close> on an optional member.\<close>

definition optM :: "('a \<Rightarrow> ('s, 'b) st) \<Rightarrow> 'a option \<Rightarrow> ('s, 'b option) st" where
  "optM f x = (case x of None \<Rightarrow> ret None | Some a \<Rightarrow> bnd (f a) (\<lambda>b. ret (Some b)))"

lemma optM_simps [simp, st_simps]:
  "optM f None = ret None"
  "optM f (Some a) = bnd (f a) (\<lambda>b. ret (Some b))"
  by (simp_all add: optM_def)

lemma optM_cong [fundef_cong]:
  "x = y \<Longrightarrow> (\<And>a. y = Some a \<Longrightarrow> f a = g a) \<Longrightarrow> optM f x = optM g y"
  by (cases y) (auto intro!: bnd_cong)

text \<open>A computation that keeps an invariant of its state.\<close>

definition keeps :: "('s \<Rightarrow> bool) \<Rightarrow> ('s, 'a) st \<Rightarrow> bool" where
  "keeps I f \<longleftrightarrow> (\<forall>s a s'. I s \<longrightarrow> f s = Inr (a, s') \<longrightarrow> I s')"

lemma keeps_basic:
  "keeps I (ret a)" "keeps I (throw e)" "keeps I (lift r)" "keeps I (gets h)"
  by (auto simp: keeps_def lift_Inr_iff)

lemma keeps_modify: "(\<And>s. I s \<Longrightarrow> I (h s)) \<Longrightarrow> keeps I (modify h)"
  by (auto simp: keeps_def)

lemma keeps_bnd: "keeps I f \<Longrightarrow> (\<And>a. keeps I (g a)) \<Longrightarrow> keeps I (bnd f g)"
  unfolding keeps_def bnd_Inr_iff by blast

lemma keeps_if: "(c \<Longrightarrow> keeps I f) \<Longrightarrow> (\<not> c \<Longrightarrow> keeps I g) \<Longrightarrow> keeps I (if c then f else g)"
  by simp

lemma keeps_bnd_lift: "(\<And>a. r = Inr a \<Longrightarrow> keeps I (g a)) \<Longrightarrow> keeps I (bnd (lift r) g)"
  by (cases r) (simp_all add: keeps_basic del: st_run_simps)

lemma keeps_mapM: "(\<And>x. x \<in> set xs \<Longrightarrow> keeps I (f x)) \<Longrightarrow> keeps I (mapM f xs)"
proof (induction xs)
  case (Cons x xs)
  then show ?case unfolding mapM.simps by (intro keeps_bnd keeps_basic) simp_all
qed (unfold mapM.simps, rule keeps_basic)

lemma keeps_foldM: "(\<And>c x. x \<in> set xs \<Longrightarrow> keeps I (f c x)) \<Longrightarrow> keeps I (foldM f c xs)"
proof (induction xs arbitrary: c)
  case (Cons x xs)
  then show ?case unfolding foldM.simps by (intro keeps_bnd) simp_all
qed (unfold foldM.simps, rule keeps_basic)

subsection \<open>Optional members\<close>

text \<open>\<open>present\<close> of \<open>present.ts\<close>: a plain \<open>Error\<close> when the value is missing.\<close>

definition present :: "'a option \<Rightarrow> 'a res" where
  "present x = (case x of None \<Rightarrow> Inl JsError | Some a \<Rightarrow> Inr a)"

text \<open>\<open>x ?? fail(code, ...)\<close>\<close>

definition orFail :: "'a option \<Rightarrow> code \<Rightarrow> 'a res" where
  "orFail x c = (case x of None \<Rightarrow> fail c | Some a \<Rightarrow> Inr a)"

lemma option_res_iff [simp, res_simps]:
  "present x = Inr a \<longleftrightarrow> x = Some a"
  "orFail x c = Inr a \<longleftrightarrow> x = Some a"
  "present x = Inl e \<longleftrightarrow> x = None \<and> e = JsError"
  "orFail x c = Inl e \<longleftrightarrow> x = None \<and> e = OrmError c"
  "present (Some b) = Inr b"
  "orFail (Some b) c = Inr b"
  by (auto simp: present_def orFail_def split: option.splits)

text \<open>\<open>xs ?? []\<close>, \<open>s ?? ''\<close> and \<open>b ?? false\<close>\<close>

definition orEmpty :: "'a list option \<Rightarrow> 'a list" where
  "orEmpty x = (case x of None \<Rightarrow> [] | Some a \<Rightarrow> a)"

lemma orEmpty_simps [simp]: "orEmpty None = []" "orEmpty (Some xs) = xs"
  by (simp_all add: orEmpty_def)

abbreviation isTrue :: "bool option \<Rightarrow> bool" where
  "isTrue x \<equiv> x = Some True"

subsection \<open>Maps that remember insertion order\<close>

text \<open>
  A JavaScript \<open>Map\<close> or object as an association list: \<open>set\<close> replaces the value of a key
  that is there, at its place, and appends a new one.
\<close>

fun map_set :: "'k \<Rightarrow> 'v \<Rightarrow> ('k \<times> 'v) list \<Rightarrow> ('k \<times> 'v) list" where
  "map_set k v [] = [(k, v)]"
| "map_set k v ((k', v') # m) = (if k' = k then (k, v) # m else (k', v') # map_set k v m)"

lemma map_of_map_set [simp]: "map_of (map_set k v m) = (map_of m)(k \<mapsto> v)"
  by (induction k v m rule: map_set.induct) auto

lemma map_set_keys [simp]: "fst ` set (map_set k v m) = insert k (fst ` set m)"
  by (induction k v m rule: map_set.induct) auto

lemma distinct_map_set: "distinct (map fst m) \<Longrightarrow> distinct (map fst (map_set k v m))"
  by (induction k v m rule: map_set.induct) auto

lemma sum_list_map_set:
  fixes f :: "'v \<Rightarrow> nat"
  shows "(\<Sum>(k', x) \<leftarrow> map_set k v m. f x) \<le> (\<Sum>(k', x) \<leftarrow> m. f x) + f v"
  by (induction k v m rule: map_set.induct) auto

subsection \<open>Strings\<close>

text \<open>\<open>xs.join(sep)\<close>\<close>

fun joinS :: "string \<Rightarrow> string list \<Rightarrow> string" where
  "joinS sep [] = []"
| "joinS sep [x] = x"
| "joinS sep (x # y # ys) = x @ sep @ joinS sep (y # ys)"

text \<open>\<open>s.split(c)\<close> at a one-character separator: always at least one part.\<close>

fun splitS :: "char \<Rightarrow> string \<Rightarrow> string list" where
  "splitS c [] = [[]]"
| "splitS c (x # xs) =
     (if x = c then [] # splitS c xs
      else case splitS c xs of [] \<Rightarrow> [[x]] | p # ps \<Rightarrow> (x # p) # ps)"

text \<open>\<open>s.replaceAll(c, r)\<close> for a one-character pattern\<close>

definition replaceS :: "char \<Rightarrow> string \<Rightarrow> string \<Rightarrow> string" where
  "replaceS c r s = concat (map (\<lambda>x. if x = c then r else [x]) s)"

lemma splitS_nonempty [simp]: "splitS c s \<noteq> []"
  by (induction s) (auto split: list.splits)

lemma joinS_splitS: "joinS [c] (splitS c s) = s"
proof (induction s)
  case (Cons x xs)
  then show ?case
    by (cases "splitS c xs"; cases "tl (splitS c xs)") auto
qed simp

lemma splitS_no_sep: "p \<in> set (splitS c s) \<Longrightarrow> c \<notin> set p"
  by (induction s arbitrary: p) (auto split: if_splits list.splits)

lemma splitS_append_sep:
  "c \<notin> set p \<Longrightarrow> splitS c (p @ c # s) = p # splitS c s"
  by (induction p) auto

lemma splitS_single: "c \<notin> set p \<Longrightarrow> splitS c p = [p]"
  by (induction p) auto

lemma splitS_joinS:
  "ps \<noteq> [] \<Longrightarrow> (\<And>p. p \<in> set ps \<Longrightarrow> c \<notin> set p) \<Longrightarrow> splitS c (joinS [c] ps) = ps"
  by (induction "[c]" ps rule: joinS.induct) (auto simp: splitS_single splitS_append_sep)

text \<open>Decimal text of a number, as a template literal writes it.\<close>

definition digit_char :: "nat \<Rightarrow> char" where
  "digit_char n = ''0123456789'' ! n"

fun show_nat :: "nat \<Rightarrow> string" where
  "show_nat n = (if n < 10 then [digit_char n] else show_nat (n div 10) @ [digit_char (n mod 10)])"

declare show_nat.simps [simp del]

definition show_int :: "int \<Rightarrow> string" where
  "show_int i = (if i < 0 then CHR ''-'' # show_nat (nat (- i)) else show_nat (nat i))"

abbreviation digits :: "char set" where
  "digits \<equiv> set ''0123456789''"

lemma digit_char_digits: "n < 10 \<Longrightarrow> digit_char n \<in> digits"
  unfolding digit_char_def by (rule nth_mem) simp

lemma show_nat_digits: "set (show_nat n) \<subseteq> digits"
proof (induction n rule: show_nat.induct)
  case (1 n)
  show ?case
  proof (cases "n < 10")
    case True
    then show ?thesis using digit_char_digits by (subst show_nat.simps) simp
  next
    case False
    with 1 have "set (show_nat (n div 10)) \<subseteq> digits" by blast
    moreover have "digit_char (n mod 10) \<in> digits" by (rule digit_char_digits) simp
    ultimately show ?thesis using False by (subst show_nat.simps) simp
  qed
qed

lemma show_nat_nonempty [simp]: "show_nat n \<noteq> []"
  by (subst show_nat.simps) simp

text \<open>\<open>String.prototype.endsWith\<close> and \<open>startsWith\<close>\<close>

definition startsWith :: "string \<Rightarrow> string \<Rightarrow> bool" where
  "startsWith s p \<longleftrightarrow> take (length p) s = p"

definition endsWith :: "string \<Rightarrow> string \<Rightarrow> bool" where
  "endsWith s p \<longleftrightarrow> length p \<le> length s \<and> drop (length s - length p) s = p"

text \<open>\<open>Number.isSafeInteger\<close> on an integer\<close>

definition isSafeInteger :: "int \<Rightarrow> bool" where
  "isSafeInteger i \<longleftrightarrow> \<bar>i\<bar> \<le> 2 ^ 53 - 1"

text \<open>\<open>entries.sort((a, b) => a[0] < b[0] ? -1 : ...)\<close>: a stable sort by the key.\<close>

definition sortedEntries :: "(string \<times> 'v) list option \<Rightarrow> (string \<times> 'v) list" where
  "sortedEntries m = sort_key fst (orEmpty m)"

lemma set_sortedEntries [simp]: "set (sortedEntries m) = set (orEmpty m)"
  by (simp add: sortedEntries_def)

subsection \<open>Slices of a list\<close>

text \<open>The parts of \<open>k\<close> elements of a list, the last one with what is left.\<close>

fun chunks :: "nat \<Rightarrow> 'a list \<Rightarrow> 'a list list" where
  "chunks k xs = (if k = 0 \<or> xs = [] then [] else take k xs # chunks k (drop k xs))"

declare chunks.simps [simp del]

lemma concat_chunks: "0 < k \<Longrightarrow> concat (chunks k xs) = xs"
proof (induction k xs rule: chunks.induct)
  case (1 k xs)
  then show ?case by (subst chunks.simps) auto
qed

lemma chunks_step:
  "chunks k xs = (if k = 0 \<or> xs = [] then [] else take k xs # chunks k (drop k xs))"
  by (rule chunks.simps)

lemma chunks_mem: "c \<in> set (chunks k xs) \<Longrightarrow> c \<noteq> [] \<and> length c \<le> k \<and> set c \<subseteq> set xs"
proof (induction k xs rule: chunks.induct)
  case (1 k xs)
  from "1.prems" have ne: "\<not> (k = 0 \<or> xs = [])" and "c = take k xs \<or> c \<in> set (chunks k (drop k xs))"
    using chunks_step[of k xs] by (auto split: if_splits)
  then show ?case
    using "1.IH"[OF ne] set_take_subset[of k xs] set_drop_subset[of k xs] by auto
qed

lemma chunks_dvd: "w dvd k \<Longrightarrow> w dvd length xs \<Longrightarrow> c \<in> set (chunks k xs) \<Longrightarrow> w dvd length c"
proof (induction k xs rule: chunks.induct)
  case (1 k xs)
  from "1.prems"(3) have ne: "\<not> (k = 0 \<or> xs = [])" and c: "c = take k xs \<or> c \<in> set (chunks k (drop k xs))"
    using chunks_step[of k xs] by (auto split: if_splits)
  moreover have "w dvd length (drop k xs)" "w dvd length (take k xs)"
    using "1.prems"(1,2) by (auto simp: min_def)
  ultimately show ?case using "1.IH"[OF ne] "1.prems"(1) by auto
qed

end
