(* ===== verification/IR.thy ===== *)
theory IR
  imports Prelude
begin

section \<open>Requests and plans (\<open>ir.ts\<close>)\<close>

text \<open>
  The value-free request and the plan it compiles to, with the members of the TypeScript
  interfaces: an optional member is an \<open>option\<close>, a number is an \<open>int\<close>, an object used as a
  dictionary is an association list. \<open>RequestQuery\<close>, \<open>Projection\<close>, \<open>Subquery\<close>, \<open>Group\<close>,
  \<open>Item\<close>, \<open>Predicate\<close>, \<open>Join\<close> and \<open>Relation\<close> are mutually recursive. The size lemmas at the
  end (collection \<open>ir_size\<close>) are what the termination proofs of the walks over a request use.
\<close>

named_theorems ir_size \<open>a part of a request is smaller than the request\<close>

subsection \<open>Requests\<close>

record ormfunction =
  fn_name :: string
  fn_ps :: "int list option"

record columnfunction =
  cf_column :: string
  cf_fn :: ormfunction

record columnref =
  ref_path :: "string option"
  ref_column :: string

record joinedref =
  jr_conn :: "string option"
  jr_join :: string

record order =
  o_column :: "string option"
  o_desc :: "bool option"
  o_random :: "bool option"
  o_fn :: "ormfunction option"

text \<open>\<open>Limit\<close>: either the two literals or the two parameter indexes; the run-time object may hold any of them.\<close>

record limit =
  l_offset :: "int option"
  l_count :: "int option"
  l_offset_p :: "int option"
  l_count_p :: "int option"

record ifparent =
  ip_column :: string
  ip_p :: int

record assignment =
  a_column :: string
  a_p :: "int option"
  a_null :: "bool option"
  a_plus_p :: "int option"
  a_minus_p :: "int option"

record optimistic =
  op_column :: string
  op_p :: int

record keypair =
  k_left :: string
  k_right :: string

datatype query = Query
    (q_entity: string) (q_columns: "projection option") (q_on: "group option")
    (q_where: "group option") (q_joins: "join list option") (q_relations: "relation list option")
    (q_order: "order list option") (q_group_by: "string list option") (q_limit: "limit option")
    (q_force_index: "string option") (q_lock: "string option") (q_key_by: "string option")
    (q_flatten: "bool option") (q_limit_per_parent: "int option")
    (q_if_parent: "ifparent option") (q_no_cascade_delete: "bool option")
and projection = Projection
    (c_mode: "string option") (c_add: "string list option") (c_remove: "string list option")
    (c_fn: "(string \<times> columnfunction) list option") (c_sub: "(string \<times> subquery) list option")
and subquery = Subquery (s_query: query) (s_column: "string option") (s_agg: "string option")
and group = Group (g_conn: "string option") (g_not: "bool option") (g_items: "item list")
and item = Item (i_pred: "pred option") (i_group: "group option") (i_joined: "joinedref option")
and pred = Pred
    (p_conn: "string option") (p_column: "string option") (p_op: "string option")
    (p_p: "int option") (p_ps: "int list option") (p_ref: "columnref option")
    (p_fn: "ormfunction option") (p_value: "ormfunction option")
    (p_cols: "string list option") (p_sub: "subquery option")
and join = Join
    (j_rel: string) (j_kind: string) (j_query: query)
    (j_left: "string option") (j_right: "string option")
and relation = Relation
    (r_rel: string) (r_query: query) (r_kind: "string option") (r_keys: "keypair list option")

text \<open>\<open>Request extends RequestQuery\<close>: the query is the member \<open>rq_query\<close>.\<close>

record request =
  rq_query :: query
  rq_ir_version :: int
  rq_manifest_hash :: string
  rq_kind :: string
  rq_load :: "bool option"
  rq_set :: "assignment list option"
  rq_on_duplicate :: "assignment list option"
  rq_rows :: "int list list option"
  rq_optimistic :: "optimistic option"
  rq_agg :: "string option"
  rq_n_params :: int

subsection \<open>Plans\<close>

record keyref =
  kr_column :: string
  kr_index :: nat

record outputcolumn =
  oc_index :: nat
  oc_name :: string
  oc_column :: string
  oc_type :: string
  oc_styles :: "string list"
  oc_hidden :: bool

datatype assemble = Assemble
    (as_entity: string) (as_alias: string) (as_columns: "outputcolumn list")
    (as_children: "child list") (as_key: "keyref list") (as_aes_version: "nat option")
and child = Child
    (ch_rel: string) (ch_kind: string) (ch_step: nat) (ch_parent_keys: "keyref list")
    (ch_child_keys: "keyref list") (ch_key: "keyref list") (ch_flatten: bool) (ch_cascade: bool)
    (ch_assemble: "assemble option")

record bindslot =
  bs_from :: string
  bs_param :: int
  bs_transform :: string
  bs_name :: string
  bs_step :: nat
  bs_column :: string
  bs_host_styles :: "string list"
  bs_col_type :: string
  bs_key_types :: "string list option"
  bs_precision :: "nat option"
  bs_scale :: "nat option"
  bs_length :: "nat option"
  bs_not_null :: "bool option"

record planifparent =
  pi_column :: string
  pi_index :: nat
  pi_param :: int

record parentref =
  pr_step :: nat
  pr_keys :: "keyref list"
  pr_if_parent :: "planifparent option"

record planstep =
  ps_id :: nat
  ps_role :: string
  ps_sql :: string
  ps_tables :: "string list"
  ps_lock :: "string option"
  ps_bind_slots :: "bindslot list"
  ps_assemble :: "assemble option"
  ps_parent :: "parentref option"

record plan =
  pl_manifest_hash :: string
  pl_kind :: string
  pl_steps :: "planstep list"

subsection \<open>Sizes\<close>

lemma size_list_mem: "x \<in> set xs \<Longrightarrow> f x < Suc (size_list f xs)"
  by (induction xs) auto

lemma size_query_on [ir_size]: "q_on q = Some g \<Longrightarrow> size g < size q"
  by (cases q) auto

lemma size_query_where [ir_size]: "q_where q = Some g \<Longrightarrow> size g < size q"
  by (cases q) auto

lemma size_query_joins [ir_size]: "j \<in> set (orEmpty (q_joins q)) \<Longrightarrow> size (j_query j) < size q"
  using size_list_mem[of j "orEmpty (q_joins q)" size]
  by (cases q; cases j) (auto simp: orEmpty_def split: option.splits)

lemma size_query_relations [ir_size]:
  "r \<in> set (orEmpty (q_relations q)) \<Longrightarrow> size (r_query r) < size q"
  using size_list_mem[of r "orEmpty (q_relations q)" size]
  by (cases q; cases r) (auto simp: orEmpty_def split: option.splits)

lemma size_columns_sub [ir_size]:
  assumes "q_columns q = Some c" and "(k, s) \<in> set (orEmpty (c_sub c))"
  shows "size s < size q"
proof -
  have "size s < Suc (size_list (size_prod (\<lambda>_. 0) size) (orEmpty (c_sub c)))"
    using size_list_mem[OF assms(2), of "size_prod (\<lambda>_. 0) size"] by simp
  then show ?thesis using assms(1)
    by (cases q; cases c) (auto simp: orEmpty_def split: option.splits)
qed

lemma size_group_items [ir_size]: "it \<in> set (g_items g) \<Longrightarrow> size it < size g"
  using size_list_mem[of it "g_items g" size] by (cases g) auto

lemma size_item_pred [ir_size]: "i_pred it = Some p \<Longrightarrow> size p < size it"
  by (cases it) auto

lemma size_item_group [ir_size]: "i_group it = Some g \<Longrightarrow> size g < size it"
  by (cases it) auto

lemma size_group_pred [ir_size]:
  "it \<in> set (g_items g) \<Longrightarrow> i_pred it = Some p \<Longrightarrow> size p < size g"
  using size_group_items size_item_pred less_trans by blast

lemma size_group_group [ir_size]:
  "it \<in> set (g_items g) \<Longrightarrow> i_group it = Some g' \<Longrightarrow> size g' < size g"
  using size_group_items size_item_group less_trans by blast

lemma size_pred_sub [ir_size]: "p_sub p = Some s \<Longrightarrow> size s < size p"
  by (cases p) auto

lemma size_sub_query [ir_size]: "size (s_query s) < size s"
  by (cases s) auto

end
