(* ===== verification/Model.thy ===== *)
theory Model
  imports IR
begin

section \<open>The runtime model (\<open>engine/model.ts\<close>)\<close>

text \<open>
  Entities and fields of the runtime model, the lookup of a field, the split of a manifest
  text into documents, and the construction of an entity from a parsed dbspec table
  (\<open>dbspec/model.ts\<close>). The lemmas show that the entity of a well-formed table is
  well-formed, which is what the planner's guarantees rest on, and that the entities of a
  document set have distinct names.
\<close>

subsection \<open>Fields and entities\<close>

record field =
  f_name :: string
  f_type :: string
  f_nullable :: bool
  f_identity :: bool
  f_hasDefault :: bool
  f_defaultNow :: bool
  f_precision :: nat
  f_scale :: nat
  f_length :: nat
  f_stages :: "string list"
  f_selected :: bool
  f_primary :: bool
  f_foreign :: bool
  f_blindIndex :: string

record entity =
  e_name :: string
  e_table :: string
  e_fields :: "field list"
  e_primaryKey :: "string list"
  e_identity :: string
  e_uniques :: "string list list"
  e_indexes :: "string list"
  e_indexColumns :: "string list list"
  e_updated :: string
  e_softDelete :: string
  e_aesVersion :: string
  e_keyPrefix :: string
  e_order :: string
  e_auditColumn :: string
  e_auditRecord :: string
  e_external :: bool

record runtimemodel =
  m_manifestHash :: string
  m_entities :: "(string \<times> entity) list"

text \<open>\<open>fieldOf\<close>: the map of the fields by name, a later field of a name replacing an earlier one.\<close>

definition fieldOf :: "entity \<Rightarrow> string \<Rightarrow> field option" where
  "fieldOf e name = map_of (rev (map (\<lambda>f. (f_name f, f)) (e_fields e))) name"

definition entityOf :: "runtimemodel \<Rightarrow> string \<Rightarrow> entity option" where
  "entityOf m name = map_of (m_entities m) name"

lemma fieldOf_SomeD: "fieldOf e n = Some f \<Longrightarrow> f \<in> set (e_fields e) \<and> f_name f = n"
  by (auto simp: fieldOf_def dest!: map_of_SomeD)

lemma fieldOf_None_iff: "fieldOf e n = None \<longleftrightarrow> n \<notin> f_name ` set (e_fields e)"
  by (simp add: fieldOf_def map_of_eq_None_iff image_image)

lemma fieldOf_ex: "f \<in> set (e_fields e) \<Longrightarrow> \<exists>f'. fieldOf e (f_name f) = Some f'"
  using fieldOf_None_iff[of e "f_name f"] by (cases "fieldOf e (f_name f)") auto

lemma fieldOf_distinct:
  assumes "distinct (map f_name (e_fields e))" and "f \<in> set (e_fields e)"
  shows "fieldOf e (f_name f) = Some f"
proof -
  have "distinct (map fst (rev (map (\<lambda>f. (f_name f, f)) (e_fields e))))"
    using assms(1) by (simp add: o_def flip: rev_map)
  then show ?thesis
    unfolding fieldOf_def using assms(2) by (intro map_of_is_SomeI) auto
qed

subsection \<open>Documents of a manifest text\<close>

definition HEADER :: string where
  "HEADER = ''dbspec 1 ''"

text \<open>The parts of a text, cut after every line end that a header follows.\<close>

fun cutAtHeaders :: "string \<Rightarrow> string list" where
  "cutAtHeaders [] = [[]]"
| "cutAtHeaders (c # cs) =
     (if c = CHR 10 \<and> startsWith cs HEADER then [c] # cutAtHeaders cs
      else case cutAtHeaders cs of [] \<Rightarrow> [[c]] | p # ps \<Rightarrow> (c # p) # ps)"

definition splitDocuments :: "string \<Rightarrow> string list res" where
  "splitDocuments text =
     (if \<not> startsWith text HEADER then fail SCHEMA_INVALID else Inr (cutAtHeaders text))"

lemma cutAtHeaders_nonempty [simp]: "cutAtHeaders cs \<noteq> []"
  by (induction cs) (auto split: list.splits)

lemma concat_cutAtHeaders: "concat (cutAtHeaders cs) = cs"
proof (induction cs)
  case (Cons c cs)
  then show ?case by (cases "cutAtHeaders cs") auto
qed simp

lemma cutAtHeaders_hd:
  "startsWith cs p \<Longrightarrow> CHR 10 \<notin> set p \<Longrightarrow> startsWith (hd (cutAtHeaders cs)) p"
proof (induction cs arbitrary: p)
  case Nil
  then show ?case by (simp add: startsWith_def)
next
  case (Cons c cs)
  show ?case
  proof (cases p)
    case Nil
    then show ?thesis by (simp add: startsWith_def)
  next
    case (Cons d q)
    with Cons.prems have "c = d" "c \<noteq> CHR 10" "startsWith cs q" "CHR 10 \<notin> set q"
      by (auto simp: startsWith_def)
    with Cons.IH[of q] Cons show ?thesis
      by (cases "cutAtHeaders cs") (auto simp: startsWith_def)
  qed
qed

lemma cutAtHeaders_tl: "p \<in> set (tl (cutAtHeaders cs)) \<Longrightarrow> startsWith p HEADER"
proof (induction cs arbitrary: p)
  case (Cons c cs)
  show ?case
  proof (cases "c = CHR 10 \<and> startsWith cs HEADER")
    case True
    have "startsWith (hd (cutAtHeaders cs)) HEADER"
      using True by (intro cutAtHeaders_hd) (auto simp: HEADER_def)
    moreover have "p = hd (cutAtHeaders cs) \<or> p \<in> set (tl (cutAtHeaders cs))"
      using True Cons.prems by (cases "cutAtHeaders cs") auto
    ultimately show ?thesis using Cons.IH by auto
  next
    case False
    with Cons.prems have "p \<in> set (tl (cutAtHeaders cs))"
      by (cases "cutAtHeaders cs") auto
    then show ?thesis by (rule Cons.IH)
  qed
qed simp

subsection \<open>Tables of a parsed document (\<open>dbspec/model.ts\<close>)\<close>

datatype dbspectype =
    TSimple string \<comment> \<open>i16, i32, i64, bool, f64, text, bytes, uuid, date\<close>
  | TDecimal nat nat
  | TVarchar nat
  | TTime nat
  | TDatetime nat

fun typeKind :: "dbspectype \<Rightarrow> string" where
  "typeKind (TSimple k) = k"
| "typeKind (TDecimal p s) = ''decimal''"
| "typeKind (TVarchar n) = ''varchar''"
| "typeKind (TTime p) = ''time''"
| "typeKind (TDatetime p) = ''datetime''"

datatype dbspecdefault = DefaultNow | DefaultLiteral string

record dbspeccolumn =
  col_name :: string
  col_type :: dbspectype
  col_nullable :: bool
  col_identity :: bool
  col_default :: "dbspecdefault option"

record dbspeckey =
  key_name :: string
  key_columns :: "string list"

datatype dbspecsetting =
    SetEntity string
  | SetUpdated string
  | SetSoftDelete string
  | SetAesVersion string
  | SetSelectExplicit "string list"
  | SetCodec string "string list"
  | SetBlindIndex string string
  | SetKeyPrefix string
  | SetOrder string
  | SetAudit string string \<comment> \<open>the audit column and the references table\<close>
  | SetOther string \<comment> \<open>a setting the runtime model does not read\<close>

record dbspectable =
  t_name :: string
  t_columns :: "dbspeccolumn list"
  t_primaryKey :: "string list"
  t_uniques :: "dbspeckey list"
  t_indexes :: "dbspeckey list"
  t_foreignKeys :: "dbspeckey list"
  t_settings :: "dbspecsetting list option"

record dbspecuse =
  u_document :: string
  u_tables :: "string list"

record dbspecdocument =
  doc_name :: string
  doc_external :: bool
  doc_uses :: "dbspecuse list"
  doc_tables :: "dbspectable list"

text \<open>\<open>typeSizes\<close>: precision, scale and length.\<close>

fun typeSizes :: "dbspectype \<Rightarrow> nat \<times> nat \<times> nat" where
  "typeSizes (TDecimal p s) = (p, s, 0)"
| "typeSizes (TTime p) = (p, 0, 0)"
| "typeSizes (TDatetime p) = (p, 0, 0)"
| "typeSizes (TVarchar n) = (0, 0, n)"
| "typeSizes (TSimple k) = (0, 0, 0)"

text \<open>What the loop over the settings of a table collects.\<close>

record tablesettings =
  ts_name :: string
  ts_updated :: string
  ts_softDelete :: string
  ts_aesVersion :: string
  ts_keyPrefix :: string
  ts_order :: string
  ts_auditColumn :: string
  ts_auditRecord :: string
  ts_explicit :: "string list"
  ts_stages :: "string \<rightharpoonup> string list"
  ts_blind :: "string \<rightharpoonup> string"

fun readSetting :: "dbspecsetting \<Rightarrow> tablesettings \<Rightarrow> tablesettings" where
  "readSetting (SetEntity n) ts = ts\<lparr>ts_name := n\<rparr>"
| "readSetting (SetUpdated c) ts = ts\<lparr>ts_updated := c\<rparr>"
| "readSetting (SetSoftDelete c) ts = ts\<lparr>ts_softDelete := c\<rparr>"
| "readSetting (SetAesVersion c) ts = ts\<lparr>ts_aesVersion := c\<rparr>"
| "readSetting (SetKeyPrefix p) ts = ts\<lparr>ts_keyPrefix := p\<rparr>"
| "readSetting (SetOrder c) ts = ts\<lparr>ts_order := c\<rparr>"
| "readSetting (SetSelectExplicit cs) ts = ts\<lparr>ts_explicit := ts_explicit ts @ cs\<rparr>"
| "readSetting (SetCodec c st) ts = ts\<lparr>ts_stages := (ts_stages ts)(c \<mapsto> st)\<rparr>"
| "readSetting (SetBlindIndex c i) ts = ts\<lparr>ts_blind := (ts_blind ts)(c \<mapsto> i)\<rparr>"
| "readSetting (SetAudit c r) ts = ts\<lparr>ts_auditColumn := c, ts_auditRecord := r\<rparr>"
| "readSetting (SetOther k) ts = ts"

definition tableSettings :: "dbspectable \<Rightarrow> tablesettings" where
  "tableSettings t =
     fold readSetting (orEmpty (t_settings t))
       \<lparr>ts_name = t_name t, ts_updated = '''', ts_softDelete = '''', ts_aesVersion = '''',
        ts_keyPrefix = '''', ts_order = '''', ts_auditColumn = '''', ts_auditRecord = '''',
        ts_explicit = [], ts_stages = Map.empty, ts_blind = Map.empty\<rparr>"

definition fieldOfColumn :: "dbspectable \<Rightarrow> tablesettings \<Rightarrow> dbspeccolumn \<Rightarrow> field" where
  "fieldOfColumn t ts c =
     (let (precision, scale, len) = typeSizes (col_type c) in
      \<lparr>f_name = col_name c, f_type = typeKind (col_type c), f_nullable = col_nullable c,
       f_identity = col_identity c, f_hasDefault = (col_default c \<noteq> None),
       f_defaultNow = (col_default c = Some DefaultNow),
       f_precision = precision, f_scale = scale, f_length = len,
       f_stages = (case ts_stages ts (col_name c) of None \<Rightarrow> [] | Some st \<Rightarrow> st),
       f_selected = (col_name c \<notin> set (ts_explicit ts)),
       f_primary = (col_name c \<in> set (t_primaryKey t)),
       f_foreign = (col_name c \<in> set (concat (map key_columns (t_foreignKeys t)))),
       f_blindIndex = (case ts_blind ts (col_name c) of None \<Rightarrow> '''' | Some i \<Rightarrow> i)\<rparr>)"

definition entityOfTable :: "dbspectable \<Rightarrow> entity" where
  "entityOfTable t =
     (let ts = tableSettings t in
      \<lparr>e_name = ts_name ts, e_table = t_name t,
       e_fields = map (fieldOfColumn t ts) (t_columns t),
       e_primaryKey = t_primaryKey t,
       e_identity = (case find col_identity (t_columns t) of None \<Rightarrow> '''' | Some c \<Rightarrow> col_name c),
       e_uniques = map key_columns (t_uniques t),
       e_indexes = map key_name (t_uniques t) @ map key_name (t_indexes t),
       e_indexColumns = map key_columns (t_indexes t),
       e_updated = ts_updated ts, e_softDelete = ts_softDelete ts,
       e_aesVersion = ts_aesVersion ts, e_keyPrefix = ts_keyPrefix ts, e_order = ts_order ts,
       e_auditColumn = ts_auditColumn ts, e_auditRecord = ts_auditRecord ts,
       e_external = False\<rparr>)"

definition externalEntity :: "dbspectable \<Rightarrow> entity" where
  "externalEntity t =
     (entityOfTable (t\<lparr>t_indexes := [], t_foreignKeys := [], t_settings := None\<rparr>))\<lparr>e_external := True\<rparr>"

subsection \<open>The entities of a document set\<close>

text \<open>The tables that the owned documents use of each document.\<close>

definition usedTables :: "dbspecdocument list \<Rightarrow> string \<Rightarrow> string list" where
  "usedTables docs name =
     concat (map (\<lambda>d. concat (map u_tables (filter (\<lambda>u. u_document u = name) (doc_uses d))))
       (filter (\<lambda>d. \<not> doc_external d) docs))"

definition documentEntities :: "dbspecdocument list \<Rightarrow> dbspecdocument \<Rightarrow> entity list" where
  "documentEntities docs d =
     (if doc_external d
      then map externalEntity (filter (\<lambda>t. t_name t \<in> set (usedTables docs (doc_name d))) (doc_tables d))
      else map entityOfTable (doc_tables d))"

definition addEntity :: "(string \<times> entity) list \<Rightarrow> entity \<Rightarrow> (string \<times> entity) list res" where
  "addEntity m e = (if e_name e \<in> fst ` set m then fail SCHEMA_INVALID else Inr (map_set (e_name e) e m))"

text \<open>
  \<open>modelOfDocuments\<close> without the manifest text, which the dbspec emitter writes: the documents
  in name order, one entity per owned table and per used table of an external document.
\<close>

definition modelEntities :: "dbspecdocument list \<Rightarrow> (string \<times> entity) list res" where
  "modelEntities documents =
     (let ordered = sort_key doc_name documents in
      foldRes addEntity [] (concat (map (documentEntities ordered) ordered)))"

end
