(* ===== verification/Dialect.thy ===== *)
theory Dialect
  imports Model
begin

section \<open>Database-specific SQL pieces (\<open>engine/dialect.ts\<close>)\<close>

text \<open>
  The interface \<open>Dialect\<close> is a record of the pieces the planner asks for; \<open>mysql\<close>,
  \<open>postgres\<close> and \<open>sqlite\<close> are its three values. A piece that takes a callback which binds a
  value (\<open>arg\<close>, \<open>now\<close>, \<open>value\<close>) is a computation over the statement that is being built, so it
  runs the callback as often and in the order the source does. The state of that statement is
  the class \<open>Builder\<close> of the planner: the bind slots in placeholder order, the number of
  subqueries and the tables it names.
\<close>

record builder =
  b_binds :: "bindslot list"
  b_subs :: nat
  b_tables :: "string list"

type_synonym 'a sql = "(builder, 'a) st"

subsection \<open>Function tables\<close>

definition columnFunctionTypes :: "string \<Rightarrow> string list option" where
  "columnFunctionTypes = map_of
     [(''day_of_week'', [''date'', ''datetime'']), (''year'', [''date'', ''datetime'']),
      (''month'', [''date'', ''datetime'']), (''date'', [''date'', ''datetime''])]"

definition columnFunctionArity :: "string \<Rightarrow> nat option" where
  "columnFunctionArity = map_of [(''day_of_week'', 0), (''year'', 0), (''month'', 0), (''date'', 0)]"

definition valueFunctionUnits :: "string \<Rightarrow> string option" where
  "valueFunctionUnits = map_of
     [(''seconds_ago'', ''second''), (''minutes_ago'', ''minute''), (''hours_ago'', ''hour''),
      (''days_ago'', ''day''), (''months_ago'', ''month''),
      (''seconds_later'', ''second''), (''minutes_later'', ''minute''), (''hours_later'', ''hour''),
      (''days_later'', ''day''), (''months_later'', ''month'')]"

definition intervalBounds :: "string \<Rightarrow> string" where
  "intervalBounds unit =
     (case map_of [(''second'', ''315537897600''), (''minute'', ''5258964960''), (''hour'', ''87649416''),
        (''day'', ''3652059''), (''month'', ''119988'')] unit of
        None \<Rightarrow> ''undefined'' | Some b \<Rightarrow> b)"

definition isValueFunction :: "string \<Rightarrow> bool" where
  "isValueFunction name \<longleftrightarrow> valueFunctionUnits name \<noteq> None \<or> name = ''now'' \<or> name = ''today''"

subsection \<open>Shared pieces\<close>

definition castTo :: "string \<Rightarrow> string \<Rightarrow> string" where
  "castTo operandCast placeholder =
     (if operandCast = '''' then placeholder
      else ''CAST('' @ placeholder @ '' AS '' @ operandCast @ '')'')"

text \<open>The argument is bound twice: once in the guard, once in the result.\<close>

definition guardInterval :: "string \<Rightarrow> string \<Rightarrow> string sql \<Rightarrow> string sql" where
  "guardInterval unit operandCast arg =
     bnd arg (\<lambda>operand.
     bnd arg (\<lambda>result.
       ret (''CASE WHEN '' @ castTo operandCast operand @ '' BETWEEN -'' @ intervalBounds unit
            @ '' AND '' @ intervalBounds unit @ '' THEN '' @ castTo operandCast result @ '' END'')))"

definition guardResult :: "string sql \<Rightarrow> string sql" where
  "guardResult val =
     bnd val (\<lambda>a.
     bnd val (\<lambda>b.
       ret (''CASE WHEN '' @ a @ '' BETWEEN '0001-01-01 00:00:00' AND '9999-12-31 23:59:59.999999' THEN ''
            @ b @ '' END'')))"

definition quoteWith :: "char \<Rightarrow> string \<Rightarrow> string" where
  "quoteWith q ident =
     joinS ''.'' (map (\<lambda>part. [q] @ replaceS q [q, q] part @ [q]) (splitS CHR ''.'' ident))"

text \<open>An SQL string literal; the character 39 is the single quote.\<close>

definition literal :: "string \<Rightarrow> string" where
  "literal text = [CHR 39] @ replaceS (CHR 39) [CHR 39, CHR 39] text @ [CHR 39]"

definition lockSuffix :: "string \<Rightarrow> string option" where
  "lockSuffix mode =
     (if mode = ''update'' then Some '' FOR UPDATE''
      else if mode = ''share'' then Some '' FOR SHARE''
      else if mode = ''update_nowait'' then Some '' FOR UPDATE NOWAIT''
      else if mode = ''share_nowait'' then Some '' FOR SHARE NOWAIT''
      else None)"

definition tupleIn :: "string list \<Rightarrow> string list list \<Rightarrow> bool \<Rightarrow> bool \<Rightarrow> string" where
  "tupleIn cols rows negate values =
     (let rowList = joinS '', '' (map (\<lambda>row. ''('' @ joinS '', '' row @ '')'') rows);
          rowText = (if values then ''VALUES '' @ rowList else rowList)
      in ''('' @ joinS '', '' cols @ '')'' @ (if negate then '' NOT IN '' else '' IN '') @ ''('' @ rowText @ '')'')"

definition conflictUpsert :: "string list \<Rightarrow> string \<Rightarrow> string" where
  "conflictUpsert conflict assigns =
     '' ON CONFLICT ('' @ joinS '', '' (map (quoteWith (CHR 34)) conflict) @ '') DO UPDATE SET '' @ assigns"

text \<open>26 nested \<open>REPLACE\<close> calls that fold the ASCII letters.\<close>

definition asciiLower :: "string \<Rightarrow> string" where
  "asciiLower x =
     concat (replicate 26 ''REPLACE('') @ x
     @ concat (map (\<lambda>(upper, lower). '', '' @ [CHR 39, upper, CHR 39] @ '', '' @ [CHR 39, lower, CHR 39] @ '')'')
         (zip ''ABCDEFGHIJKLMNOPQRSTUVWXYZ'' ''abcdefghijklmnopqrstuvwxyz''))"

subsection \<open>The interface\<close>

record dialect =
  d_name :: string
  d_quote :: "string \<Rightarrow> string"
  d_placeholder :: "nat \<Rightarrow> string"
  d_like :: "string \<Rightarrow> string \<Rightarrow> string"
  d_limit :: "string \<Rightarrow> string \<Rightarrow> string"
  d_forceIndex :: "string \<Rightarrow> string"
  d_insertReturningId :: bool
  d_upsert :: "string list \<Rightarrow> string \<Rightarrow> string"
  d_readExpr :: "string \<Rightarrow> string list \<Rightarrow> string"
  d_writeExpr :: "string \<Rightarrow> string list \<Rightarrow> string"
  d_readTime :: "string \<Rightarrow> nat \<Rightarrow> string"
  d_writeTime :: "string \<Rightarrow> string"
  d_readUuid :: "string \<Rightarrow> string"
  d_writeUuid :: "string \<Rightarrow> string"
  d_now :: "nat \<Rightarrow> string"
  d_handlesStage :: "string \<Rightarrow> bool"
  d_decodesStage :: "string \<Rightarrow> bool"
  d_hostNow :: bool
  d_clockOperand :: "string \<Rightarrow> nat \<Rightarrow> string"
  d_rowLock :: "string \<Rightarrow> string option"
  d_columnFunction :: "string \<Rightarrow> string \<Rightarrow> (nat \<Rightarrow> string sql) \<Rightarrow> string option sql"
  d_valueFunction :: "string \<Rightarrow> string sql \<Rightarrow> string sql \<Rightarrow> string option sql"
  d_containsBinary :: "string \<Rightarrow> (string \<Rightarrow> string sql) \<Rightarrow> string sql"
  d_fulltext :: "string list \<Rightarrow> (string \<Rightarrow> string sql) \<Rightarrow> bool \<Rightarrow> string option sql"
  d_tupleIn :: "string list \<Rightarrow> string list list \<Rightarrow> bool \<Rightarrow> string"
  d_random :: string
  d_nullsOrder :: "bool \<Rightarrow> string"
  d_restartIdentity :: "string \<Rightarrow> string \<Rightarrow> string"

subsection \<open>MySQL\<close>

definition mysql_readExpr :: "string \<Rightarrow> string list \<Rightarrow> string" where
  "mysql_readExpr col stages =
     foldr (\<lambda>s expr. if s = ''ip'' then ''INET6_NTOA('' @ expr @ '')'' else expr) stages col"

definition mysql_writeExpr :: "string \<Rightarrow> string list \<Rightarrow> string" where
  "mysql_writeExpr ph stages =
     fold (\<lambda>s expr. if s = ''ip'' then ''INET6_ATON('' @ expr @ '')'' else expr) stages ph"

definition mysql_columnFunction :: "string \<Rightarrow> string \<Rightarrow> string option" where
  "mysql_columnFunction name col =
     (if name = ''day_of_week'' then Some (''DAYOFWEEK('' @ col @ '')'')
      else if name = ''year'' then Some (''YEAR('' @ col @ '')'')
      else if name = ''month'' then Some (''MONTH('' @ col @ '')'')
      else if name = ''date'' then Some (''DATE('' @ col @ '')'')
      else None)"

text \<open>\<open>unit.toUpperCase()\<close> of an interval unit\<close>

definition upperUnit :: "string \<Rightarrow> string" where
  "upperUnit unit = (case map_of [(''second'', ''SECOND''), (''minute'', ''MINUTE''), (''hour'', ''HOUR''),
     (''day'', ''DAY''), (''month'', ''MONTH'')] unit of None \<Rightarrow> unit | Some u \<Rightarrow> u)"

definition mysql_valueFunction :: "string \<Rightarrow> string sql \<Rightarrow> string sql \<Rightarrow> string option sql" where
  "mysql_valueFunction name arg now =
     (if name = ''now'' then ret (Some ''NOW(6)'')
      else if name = ''today'' then ret (Some ''CURDATE()'')
      else case valueFunctionUnits name of
        None \<Rightarrow> ret None
      | Some unit \<Rightarrow>
          bnd (guardResult (bnd (guardInterval unit '''' arg) (\<lambda>interval.
                 ret ((if endsWith name ''_later'' then ''DATE_ADD'' else ''DATE_SUB'')
                   @ ''(NOW(6), INTERVAL '' @ interval @ '' '' @ upperUnit unit @ '')''))))
            (\<lambda>v. ret (Some v)))"

definition mysql_fulltext :: "string list \<Rightarrow> (string \<Rightarrow> string sql) \<Rightarrow> bool \<Rightarrow> string option sql" where
  "mysql_fulltext cols val boolean =
     bnd (val (if boolean then ''fulltext_boolean'' else '''')) (\<lambda>v.
       ret (Some (''MATCH ('' @ joinS '', '' cols @ '') AGAINST ('' @ v
         @ (if boolean then '' IN BOOLEAN MODE'' else '' IN NATURAL LANGUAGE MODE'') @ '')'')))"

definition mysql :: "dialect" where
  "mysql =
     \<lparr>d_name = ''mysql'',
      d_quote = quoteWith (CHR 96),
      d_placeholder = (\<lambda>_. ''?''),
      d_like = (\<lambda>col ph. asciiLower col @ '' LIKE '' @ asciiLower ph),
      d_limit = (\<lambda>offset count. '' LIMIT '' @ offset @ '', '' @ count),
      d_forceIndex = (\<lambda>name. '' FORCE INDEX ('' @ quoteWith (CHR 96) name @ '')''),
      d_insertReturningId = False,
      d_upsert = (\<lambda>_ assigns. '' ON DUPLICATE KEY UPDATE '' @ assigns),
      d_readExpr = mysql_readExpr,
      d_writeExpr = mysql_writeExpr,
      d_readTime = (\<lambda>col _. ''CAST('' @ col @ '' AS CHAR)''),
      d_writeTime = (\<lambda>ph. ph),
      d_readUuid = (\<lambda>col. col),
      d_writeUuid = (\<lambda>ph. ph),
      d_now = (\<lambda>precision. if precision > 0 then ''CURRENT_TIMESTAMP('' @ show_nat precision @ '')'' else ''CURRENT_TIMESTAMP''),
      d_handlesStage = (\<lambda>s. s = ''ip''),
      d_decodesStage = (\<lambda>s. s = ''ip''),
      d_hostNow = False,
      d_clockOperand = (\<lambda>col _. col),
      d_rowLock = lockSuffix,
      d_columnFunction = (\<lambda>name col _. ret (mysql_columnFunction name col)),
      d_valueFunction = mysql_valueFunction,
      d_containsBinary = (\<lambda>col val. bnd (val ''like_contains'') (\<lambda>v. ret (col @ '' LIKE '' @ v))),
      d_fulltext = mysql_fulltext,
      d_tupleIn = (\<lambda>cols rows negate. tupleIn cols rows negate False),
      d_random = ''RAND()'',
      d_nullsOrder = (\<lambda>_. ''''),
      d_restartIdentity = (\<lambda>table _. ''ALTER TABLE '' @ quoteWith (CHR 96) table @ '' AUTO_INCREMENT = 1'')\<rparr>"

lemma mysql_simps [simp]:
  "d_name mysql = ''mysql''"
  "d_quote mysql = quoteWith (CHR 96)"
  "d_placeholder mysql = (\<lambda>_. ''?'')"
  "d_like mysql = (\<lambda>col ph. asciiLower col @ '' LIKE '' @ asciiLower ph)"
  "d_limit mysql = (\<lambda>offset count. '' LIMIT '' @ offset @ '', '' @ count)"
  "d_forceIndex mysql = (\<lambda>name. '' FORCE INDEX ('' @ quoteWith (CHR 96) name @ '')'')"
  "d_insertReturningId mysql = False"
  "d_upsert mysql = (\<lambda>_ assigns. '' ON DUPLICATE KEY UPDATE '' @ assigns)"
  "d_readExpr mysql = mysql_readExpr"
  "d_writeExpr mysql = mysql_writeExpr"
  "d_readTime mysql = (\<lambda>col _. ''CAST('' @ col @ '' AS CHAR)'')"
  "d_writeTime mysql = (\<lambda>ph. ph)"
  "d_readUuid mysql = (\<lambda>col. col)"
  "d_writeUuid mysql = (\<lambda>ph. ph)"
  "d_now mysql = (\<lambda>precision. if precision > 0 then ''CURRENT_TIMESTAMP('' @ show_nat precision @ '')'' else ''CURRENT_TIMESTAMP'')"
  "d_handlesStage mysql = (\<lambda>s. s = ''ip'')"
  "d_decodesStage mysql = (\<lambda>s. s = ''ip'')"
  "d_hostNow mysql = False"
  "d_clockOperand mysql = (\<lambda>col _. col)"
  "d_rowLock mysql = lockSuffix"
  "d_columnFunction mysql = (\<lambda>name col _. ret (mysql_columnFunction name col))"
  "d_valueFunction mysql = mysql_valueFunction"
  "d_containsBinary mysql = (\<lambda>col val. bnd (val ''like_contains'') (\<lambda>v. ret (col @ '' LIKE '' @ v)))"
  "d_fulltext mysql = mysql_fulltext"
  "d_tupleIn mysql = (\<lambda>cols rows negate. tupleIn cols rows negate False)"
  "d_random mysql = ''RAND()''"
  "d_nullsOrder mysql = (\<lambda>_. '''')"
  "d_restartIdentity mysql = (\<lambda>table _. ''ALTER TABLE '' @ quoteWith (CHR 96) table @ '' AUTO_INCREMENT = 1'')"
  by (simp_all add: mysql_def)

subsection \<open>PostgreSQL\<close>

definition postgres_readTime :: "string \<Rightarrow> nat \<Rightarrow> string" where
  "postgres_readTime col precision =
     (if precision = 0 then ''to_char('' @ col @ '', 'HH24:MI:SS')''
      else ''substr(to_char('' @ col @ '', 'HH24:MI:SS.US'), 1, '' @ show_nat (9 + precision) @ '')'')"

definition postgres_columnFunction :: "string \<Rightarrow> string \<Rightarrow> string option" where
  "postgres_columnFunction name col =
     (if name = ''day_of_week'' then Some (''(EXTRACT(DOW FROM '' @ col @ '')::int + 1)'')
      else if name = ''year'' then Some (''EXTRACT(YEAR FROM '' @ col @ '')::int'')
      else if name = ''month'' then Some (''EXTRACT(MONTH FROM '' @ col @ '')::int'')
      else if name = ''date'' then Some (''CAST('' @ col @ '' AS date)'')
      else None)"

definition intervalField :: "string \<Rightarrow> string option" where
  "intervalField = map_of [(''second'', ''secs''), (''minute'', ''mins''), (''hour'', ''hours''),
     (''day'', ''days''), (''month'', ''months'')]"

definition postgres_clock :: "string sql \<Rightarrow> string sql" where
  "postgres_clock now = bnd now (\<lambda>n. ret (''CAST('' @ n @ '' AS timestamp(6))''))"

definition postgres_valueFunction :: "string \<Rightarrow> string sql \<Rightarrow> string sql \<Rightarrow> string option sql" where
  "postgres_valueFunction name arg now =
     (if name = ''now'' then bnd (postgres_clock now) (\<lambda>v. ret (Some v))
      else if name = ''today'' then ret (Some ''CURRENT_DATE'')
      else case valueFunctionUnits name of
        None \<Rightarrow> ret None
      | Some unit \<Rightarrow>
        (case intervalField unit of
           None \<Rightarrow> throw JsError
         | Some field \<Rightarrow>
             (let cast = (if field = ''secs'' then ''double precision'' else ''integer'');
                  operandCast = (if cast = ''double precision'' then cast else ''bigint'')
              in bnd (guardResult
                   (bnd (postgres_clock now) (\<lambda>clock.
                    bnd (guardInterval unit operandCast arg) (\<lambda>interval.
                      ret (''('' @ clock @ (if endsWith name ''_later'' then '' + '' else '' - '')
                        @ ''make_interval('' @ field @ '' => CAST('' @ interval @ '' AS '' @ cast @ '')))'')))))
                 (\<lambda>v. ret (Some v)))))"

definition postgres_fulltext :: "string list \<Rightarrow> (string \<Rightarrow> string sql) \<Rightarrow> bool \<Rightarrow> string option sql" where
  "postgres_fulltext cols val boolean =
     bnd (val '''') (\<lambda>v.
       ret (Some (''to_tsvector('simple', ''
         @ joinS ('' || '' @ [CHR 39, CHR 32, CHR 39] @ '' || '')
             (map (\<lambda>c. ''coalesce('' @ c @ '', '' @ [CHR 39, CHR 39] @ '')'') cols)
         @ '') @@ '' @ (if boolean then ''websearch_to_tsquery'' else ''plainto_tsquery'')
         @ ''('simple', '' @ v @ '')'')))"

definition postgres_restartIdentity :: "string \<Rightarrow> string \<Rightarrow> string" where
  "postgres_restartIdentity table column =
     ''SELECT setval(pg_get_serial_sequence('' @ literal (quoteWith (CHR 34) table) @ '', '' @ literal column
     @ ''), COALESCE(MAX('' @ quoteWith (CHR 34) column @ ''), 0) + 1, false) FROM '' @ quoteWith (CHR 34) table"

definition postgres :: "dialect" where
  "postgres =
     \<lparr>d_name = ''postgres'',
      d_quote = quoteWith (CHR 34),
      d_placeholder = (\<lambda>n. CHR ''$'' # show_nat n),
      d_like = (\<lambda>col ph. col @ '' ILIKE '' @ ph),
      d_limit = (\<lambda>offset count. '' LIMIT '' @ count @ '' OFFSET '' @ offset),
      d_forceIndex = (\<lambda>_. ''''),
      d_insertReturningId = True,
      d_upsert = conflictUpsert,
      d_readExpr = (\<lambda>col _. col),
      d_writeExpr = (\<lambda>ph _. ph),
      d_readTime = postgres_readTime,
      d_writeTime = (\<lambda>ph. ''CAST(CAST('' @ ph @ '' AS text) AS time)''),
      d_readUuid = (\<lambda>col. ''CAST('' @ col @ '' AS text)''),
      d_writeUuid = (\<lambda>ph. ''CAST(CAST('' @ ph @ '' AS text) AS uuid)''),
      d_now = (\<lambda>_. ''CURRENT_TIMESTAMP''),
      d_handlesStage = (\<lambda>_. False),
      d_decodesStage = (\<lambda>_. False),
      d_hostNow = True,
      d_clockOperand = (\<lambda>col _. col),
      d_rowLock = lockSuffix,
      d_columnFunction = (\<lambda>name col _. ret (postgres_columnFunction name col)),
      d_valueFunction = postgres_valueFunction,
      d_containsBinary = (\<lambda>col val. bnd (val ''like_contains'') (\<lambda>v. ret (col @ '' LIKE '' @ v))),
      d_fulltext = postgres_fulltext,
      d_tupleIn = (\<lambda>cols rows negate. tupleIn cols rows negate False),
      d_random = ''random()'',
      d_nullsOrder = (\<lambda>desc. if desc then '' NULLS LAST'' else '' NULLS FIRST''),
      d_restartIdentity = postgres_restartIdentity\<rparr>"

lemma postgres_simps [simp]:
  "d_name postgres = ''postgres''"
  "d_quote postgres = quoteWith (CHR 34)"
  "d_placeholder postgres = (\<lambda>n. CHR ''$'' # show_nat n)"
  "d_like postgres = (\<lambda>col ph. col @ '' ILIKE '' @ ph)"
  "d_limit postgres = (\<lambda>offset count. '' LIMIT '' @ count @ '' OFFSET '' @ offset)"
  "d_forceIndex postgres = (\<lambda>_. '''')"
  "d_insertReturningId postgres = True"
  "d_upsert postgres = conflictUpsert"
  "d_readExpr postgres = (\<lambda>col _. col)"
  "d_writeExpr postgres = (\<lambda>ph _. ph)"
  "d_readTime postgres = postgres_readTime"
  "d_writeTime postgres = (\<lambda>ph. ''CAST(CAST('' @ ph @ '' AS text) AS time)'')"
  "d_readUuid postgres = (\<lambda>col. ''CAST('' @ col @ '' AS text)'')"
  "d_writeUuid postgres = (\<lambda>ph. ''CAST(CAST('' @ ph @ '' AS text) AS uuid)'')"
  "d_now postgres = (\<lambda>_. ''CURRENT_TIMESTAMP'')"
  "d_handlesStage postgres = (\<lambda>_. False)"
  "d_decodesStage postgres = (\<lambda>_. False)"
  "d_hostNow postgres = True"
  "d_clockOperand postgres = (\<lambda>col _. col)"
  "d_rowLock postgres = lockSuffix"
  "d_columnFunction postgres = (\<lambda>name col _. ret (postgres_columnFunction name col))"
  "d_valueFunction postgres = postgres_valueFunction"
  "d_containsBinary postgres = (\<lambda>col val. bnd (val ''like_contains'') (\<lambda>v. ret (col @ '' LIKE '' @ v)))"
  "d_fulltext postgres = postgres_fulltext"
  "d_tupleIn postgres = (\<lambda>cols rows negate. tupleIn cols rows negate False)"
  "d_random postgres = ''random()''"
  "d_nullsOrder postgres = (\<lambda>desc. if desc then '' NULLS LAST'' else '' NULLS FIRST'')"
  "d_restartIdentity postgres = postgres_restartIdentity"
  by (simp_all add: postgres_def)

subsection \<open>SQLite\<close>

definition sqlite_quote :: "string \<Rightarrow> string" where
  "sqlite_quote ident = quoteWith (CHR 34) (joinS ''__'' (splitS CHR ''.'' ident))"

definition sqlite_clockOperand :: "string \<Rightarrow> nat \<Rightarrow> string" where
  "sqlite_clockOperand col precision =
     (if precision \<ge> 6 then col
      else if precision = 0 then ''('' @ col @ '' || '.000000')''
      else ''('' @ col @ '' || '' @ [CHR 39] @ replicate (6 - precision) (CHR ''0'') @ [CHR 39] @ '')'')"

definition sqlite_columnFunction :: "string \<Rightarrow> string \<Rightarrow> string option" where
  "sqlite_columnFunction name col =
     (if name = ''day_of_week'' then Some (''(CAST(strftime('%w', '' @ col @ '') AS INTEGER) + 1)'')
      else if name = ''year'' then Some (''CAST(strftime('%Y', '' @ col @ '') AS INTEGER)'')
      else if name = ''month'' then Some (''CAST(strftime('%m', '' @ col @ '') AS INTEGER)'')
      else if name = ''date'' then Some (''date('' @ col @ '')'')
      else None)"

definition sqlite_valueFunction :: "string \<Rightarrow> string sql \<Rightarrow> string sql \<Rightarrow> string option sql" where
  "sqlite_valueFunction name arg now =
     (if name = ''now'' then bnd now (\<lambda>n. ret (Some n))
      else if name = ''today'' then bnd now (\<lambda>n. ret (Some (''date('' @ n @ '')'')))
      else case valueFunctionUnits name of
        None \<Rightarrow> ret None
      | Some unit \<Rightarrow>
          bnd (guardResult
                (bnd now (\<lambda>clock.
                 bnd arg (\<lambda>a.
                 bnd now (\<lambda>n.
                   ret (''(datetime('' @ clock @ '', ''
                     @ (if endsWith name ''_later'' then [CHR 39, CHR ''+'', CHR 39] else [CHR 39, CHR ''-'', CHR 39])
                     @ '' || CAST('' @ a @ '' AS TEXT) || ' '' @ unit @ ''s''
                     @ [CHR 39] @ (if unit = ''month'' then '', '' @ [CHR 39] @ ''floor'' @ [CHR 39] else '''')
                     @ '') || substr('' @ n @ '', 20))''))))))
            (\<lambda>v. ret (Some v)))"

definition sqlite_restartIdentity :: "string \<Rightarrow> string \<Rightarrow> string" where
  "sqlite_restartIdentity table column =
     ''UPDATE sqlite_sequence SET seq = (SELECT COALESCE(MAX('' @ quoteWith (CHR 34) column
     @ ''), 0) FROM '' @ quoteWith (CHR 34) table @ '') WHERE name = '' @ literal table"

definition sqlite :: "dialect" where
  "sqlite =
     \<lparr>d_name = ''sqlite'',
      d_quote = sqlite_quote,
      d_placeholder = (\<lambda>_. ''?''),
      d_like = (\<lambda>col ph. col @ '' LIKE '' @ ph @ '' ESCAPE '' @ [CHR 39, CHR 92, CHR 39]),
      d_limit = (\<lambda>offset count. '' LIMIT '' @ count @ '' OFFSET '' @ offset),
      d_forceIndex = (\<lambda>name. '' INDEXED BY '' @ quoteWith (CHR 34) name),
      d_insertReturningId = True,
      d_upsert = conflictUpsert,
      d_readExpr = (\<lambda>col _. col),
      d_writeExpr = (\<lambda>ph _. ph),
      d_readTime = (\<lambda>col _. col),
      d_writeTime = (\<lambda>ph. ph),
      d_readUuid = (\<lambda>col. col),
      d_writeUuid = (\<lambda>ph. ph),
      d_now = (\<lambda>_. ''CURRENT_TIMESTAMP''),
      d_handlesStage = (\<lambda>_. False),
      d_decodesStage = (\<lambda>_. False),
      d_hostNow = True,
      d_clockOperand = sqlite_clockOperand,
      d_rowLock = (\<lambda>mode. if lockSuffix mode = None then None else Some ''''),
      d_columnFunction = (\<lambda>name col _. ret (sqlite_columnFunction name col)),
      d_valueFunction = sqlite_valueFunction,
      d_containsBinary = (\<lambda>col val. bnd (val '''') (\<lambda>v. ret (''instr('' @ col @ '', '' @ v @ '') > 0''))),
      d_fulltext = (\<lambda>_ _ _. ret None),
      d_tupleIn = (\<lambda>cols rows negate. tupleIn cols rows negate True),
      d_random = ''random()'',
      d_nullsOrder = (\<lambda>_. ''''),
      d_restartIdentity = sqlite_restartIdentity\<rparr>"

lemma sqlite_simps [simp]:
  "d_name sqlite = ''sqlite''"
  "d_quote sqlite = sqlite_quote"
  "d_placeholder sqlite = (\<lambda>_. ''?'')"
  "d_like sqlite = (\<lambda>col ph. col @ '' LIKE '' @ ph @ '' ESCAPE '' @ [CHR 39, CHR 92, CHR 39])"
  "d_limit sqlite = (\<lambda>offset count. '' LIMIT '' @ count @ '' OFFSET '' @ offset)"
  "d_forceIndex sqlite = (\<lambda>name. '' INDEXED BY '' @ quoteWith (CHR 34) name)"
  "d_insertReturningId sqlite = True"
  "d_upsert sqlite = conflictUpsert"
  "d_readExpr sqlite = (\<lambda>col _. col)"
  "d_writeExpr sqlite = (\<lambda>ph _. ph)"
  "d_readTime sqlite = (\<lambda>col _. col)"
  "d_writeTime sqlite = (\<lambda>ph. ph)"
  "d_readUuid sqlite = (\<lambda>col. col)"
  "d_writeUuid sqlite = (\<lambda>ph. ph)"
  "d_now sqlite = (\<lambda>_. ''CURRENT_TIMESTAMP'')"
  "d_handlesStage sqlite = (\<lambda>_. False)"
  "d_decodesStage sqlite = (\<lambda>_. False)"
  "d_hostNow sqlite = True"
  "d_clockOperand sqlite = sqlite_clockOperand"
  "d_rowLock sqlite = (\<lambda>mode. if lockSuffix mode = None then None else Some '''')"
  "d_columnFunction sqlite = (\<lambda>name col _. ret (sqlite_columnFunction name col))"
  "d_valueFunction sqlite = sqlite_valueFunction"
  "d_containsBinary sqlite = (\<lambda>col val. bnd (val '''') (\<lambda>v. ret (''instr('' @ col @ '', '' @ v @ '') > 0'')))"
  "d_fulltext sqlite = (\<lambda>_ _ _. ret None)"
  "d_tupleIn sqlite = (\<lambda>cols rows negate. tupleIn cols rows negate True)"
  "d_random sqlite = ''random()''"
  "d_nullsOrder sqlite = (\<lambda>_. '''')"
  "d_restartIdentity sqlite = sqlite_restartIdentity"
  by (simp_all add: sqlite_def)

definition dialectOf :: "string \<Rightarrow> dialect option" where
  "dialectOf name =
     (if name = ''mysql'' then Some mysql
      else if name = ''postgres'' then Some postgres
      else if name = ''sqlite'' then Some sqlite
      else None)"

end
