(* ===== verification/Validate.thy ===== *)
theory Validate
  imports Dialect
begin

section \<open>Request validation (\<open>engine/validate.ts\<close>, \<open>meet.ts\<close>)\<close>

text \<open>
  The rules a request must satisfy before it is planned, in the order the source checks them:
  each guard is a \<open>refuse\<close> with the code it throws, and a list given to \<open>checks\<close> is a
  sequence of statements. The class \<open>Validator\<close> holds the model \<open>m\<close> and the number of
  parameters \<open>n\<close>, which are arguments here. The source marks the request's own query by object
  identity (\<open>q !== this.root\<close>); the model passes a flag that is true for that query only.
\<close>

subsection \<open>Which columns and operators compare (\<open>meet.ts\<close>)\<close>

definition meetClasses :: "string \<Rightarrow> string option" where
  "meetClasses = map_of [(''i16'', ''integer''), (''i32'', ''integer''), (''i64'', ''integer''),
     (''varchar'', ''string''), (''text'', ''string'')]"

definition meetKind :: "string \<Rightarrow> nat \<Rightarrow> nat \<Rightarrow> string" where
  "meetKind type scale precision =
     (case meetClasses type of
        Some shared \<Rightarrow> shared
      | None \<Rightarrow>
          if type = ''decimal'' then ''decimal scale '' @ show_nat scale
          else if type = ''time'' \<or> type = ''datetime'' then type @ '' precision '' @ show_nat precision
          else type)"

definition comparable :: "string list" where
  "comparable = [''eq'', ''not_eq'', ''gt'', ''gte'', ''lt'', ''lte'', ''in'', ''not_in'', ''between'',
     ''is_null'', ''is_not_null'']"

definition equality :: "string list" where
  "equality = [''eq'', ''not_eq'', ''in'', ''not_in'', ''is_null'', ''is_not_null'']"

definition opsByType :: "string \<Rightarrow> string list option" where
  "opsByType = map_of
     [(''i16'', comparable), (''i32'', comparable), (''i64'', comparable), (''f64'', comparable),
      (''decimal'', comparable), (''date'', comparable), (''time'', comparable), (''datetime'', comparable),
      (''uuid'', equality),
      (''varchar'', [''eq'', ''not_eq'', ''gt'', ''gte'', ''lt'', ''lte'', ''in'', ''not_in'', ''contains'',
         ''contains_binary'', ''is_null'', ''is_not_null'']),
      (''text'', [''eq'', ''not_eq'', ''gt'', ''gte'', ''lt'', ''lte'', ''contains'', ''contains_binary'',
         ''is_null'', ''is_not_null'']),
      (''bool'', [''eq'', ''not_eq'', ''is_null'', ''is_not_null'']),
      (''bytes'', equality)]"

definition hostStages :: "string list" where
  "hostStages = [''aes'', ''hex'', ''ip'']"

definition columnOps :: "string list" where
  "columnOps = [''eq_col'', ''not_eq_col'', ''gt_col'', ''gte_col'', ''lt_col'', ''lte_col'']"

definition numericTypes :: "string list" where
  "numericTypes = [''i16'', ''i32'', ''i64'', ''f64'', ''decimal'']"

definition typeAllows :: "string \<Rightarrow> string \<Rightarrow> bool" where
  "typeAllows type op = (case opsByType type of None \<Rightarrow> False | Some ops \<Rightarrow> op \<in> set ops)"

definition opAllowed :: "field \<Rightarrow> string \<Rightarrow> bool" where
  "opAllowed c op =
     (if op \<in> set columnOps then True
      else if f_stages c \<noteq> [] then
        (if \<forall>s \<in> set (f_stages c). s \<in> set hostStages then op \<in> set equality
         else op = ''is_null'' \<or> op = ''is_not_null'')
      else typeAllows (f_type c) op)"

definition meets :: "field \<Rightarrow> field \<Rightarrow> bool" where
  "meets a b \<longleftrightarrow>
     meetKind (f_type a) (f_scale a) (f_precision a) = meetKind (f_type b) (f_scale b) (f_precision b)"

text \<open>\<open>op.replace(/_col$/, '')\<close>\<close>

definition baseOp :: "string \<Rightarrow> string" where
  "baseOp op = (if endsWith op ''_col'' then take (length op - 4) op else op)"

definition isIP :: "field \<Rightarrow> bool" where
  "isIP c \<longleftrightarrow> f_stages c = [''ip'']"

definition colPairOpAllowed :: "field \<Rightarrow> field \<Rightarrow> string \<Rightarrow> bool" where
  "colPairOpAllowed left right op =
     (let base = baseOp op in
      if f_stages left = [] \<and> f_stages right = [] then typeAllows (f_type left) base
      else isIP left \<and> isIP right \<and> (base = ''eq'' \<or> base = ''not_eq''))"

subsection \<open>Scopes\<close>

datatype vscope = VScope
  (v_name: string) (v_ent: "entity option") (v_joins: "(string \<times> vscope) list")

text \<open>
  A place in a statement: the scope itself, the root reached over its parents, and the
  place around the statement when it is a subquery (a property of the root).
\<close>

datatype vplace = VPlace (vp_here: vscope) (vp_root: vscope) (vp_outer: "vplace option")

fun firstEntries :: "(string \<times> 'a) list \<Rightarrow> (string \<times> 'a) list" where
  "firstEntries [] = []"
| "firstEntries ((k, v) # m) = (k, v) # filter (\<lambda>e. fst e \<noteq> k) (firstEntries m)"

function scopes :: "runtimemodel \<Rightarrow> query \<Rightarrow> vscope" where
  "scopes m q = VScope (q_entity q) (entityOf m (q_entity q))
     (firstEntries (map (\<lambda>j. (j_rel j, scopes m (j_query j))) (orEmpty (q_joins q))))"
  by pat_completeness auto
termination
  by (relation "measure (\<lambda>(m, q). size q)") (auto intro: ir_size)

declare scopes.simps [simp del]

definition rootPlace :: "vscope \<Rightarrow> vplace option \<Rightarrow> vplace" where
  "rootPlace s outer = VPlace s s outer"

definition joinPlace :: "vplace \<Rightarrow> string \<Rightarrow> vplace option" where
  "joinPlace s rel =
     map_option (\<lambda>child. VPlace child (vp_root s) (vp_outer s)) (map_of (v_joins (vp_here s)) rel)"

definition ref :: "vplace \<Rightarrow> string \<Rightarrow> string \<Rightarrow> field res" where
  "ref s path column =
     bind_res
       (if path = ''^'' then bind_res (orFail (vp_outer s) IR_INVALID) (\<lambda>around. Inr (vp_here around))
        else if path \<noteq> '''' then
          foldRes (\<lambda>target seg. orFail (map_of (v_joins target) seg) ENTITY_NOT_JOINED)
            (vp_root s) (splitS CHR ''/'' path)
        else Inr (vp_root s))
       (\<lambda>target. bind_res (orFail (v_ent target) ENTITY_UNKNOWN)
       (\<lambda>ent. orFail (fieldOf ent column) COLUMN_UNKNOWN))"

subsection \<open>Parameters, functions and assignments\<close>

definition vparams :: "int \<Rightarrow> int list option \<Rightarrow> unit res" where
  "vparams n ps =
     checks (map (\<lambda>i. refuse (\<not> isSafeInteger i \<or> i < 0 \<or> i \<ge> n) IR_INVALID) (orEmpty ps))"

definition ventity :: "runtimemodel \<Rightarrow> string \<Rightarrow> entity res" where
  "ventity m name = orFail (entityOf m name) ENTITY_UNKNOWN"

text \<open>
  The members every JavaScript object inherits: \<open>columnFunctionTypes[f.name]\<close> of such a name
  is a function of \<open>Object.prototype\<close>, which is not \<open>undefined\<close> and has no \<open>includes\<close>.
\<close>

definition objectPrototype :: "string list" where
  "objectPrototype = [''constructor'', ''toString'', ''valueOf'', ''hasOwnProperty'', ''isPrototypeOf'',
     ''propertyIsEnumerable'', ''toLocaleString'', ''__proto__'', ''__defineGetter__'',
     ''__defineSetter__'', ''__lookupGetter__'', ''__lookupSetter__'']"

definition vcolumnFunction :: "int \<Rightarrow> field \<Rightarrow> ormfunction \<Rightarrow> unit res" where
  "vcolumnFunction n c f =
     (if fn_name f \<in> set objectPrototype then Inl JsError
      else bind_res (orFail (columnFunctionTypes (fn_name f)) FUNCTION_UNKNOWN) (\<lambda>types.
        checks
          [refuse (f_type c \<notin> set types) OPERATOR_NOT_ALLOWED,
           refuse (Some (length (orEmpty (fn_ps f))) \<noteq> columnFunctionArity (fn_name f)) IR_INVALID,
           vparams n (fn_ps f)]))"

definition vassign :: "int \<Rightarrow> entity \<Rightarrow> assignment \<Rightarrow> unit res" where
  "vassign n ent a =
     bind_res (orFail (fieldOf ent (a_column a)) COLUMN_UNKNOWN) (\<lambda>c.
       checks
         [refuse (length (filter id [a_p a \<noteq> None, isTrue (a_null a), a_plus_p a \<noteq> None, a_minus_p a \<noteq> None]) \<noteq> 1)
            IR_INVALID,
          refuse (isTrue (a_null a) \<and> \<not> f_nullable c) IR_INVALID,
          refuse (a_column a = e_auditColumn ent) IR_INVALID,
          refuse ((a_plus_p a \<noteq> None \<or> a_minus_p a \<noteq> None) \<and> f_type c \<notin> set numericTypes) OPERATOR_NOT_ALLOWED,
          vparams n (map_option (\<lambda>i. [i]) (a_p a)),
          vparams n (map_option (\<lambda>i. [i]) (a_plus_p a)),
          vparams n (map_option (\<lambda>i. [i]) (a_minus_p a))])"

subsection \<open>Predicates without a subquery\<close>

definition vpredTuple :: "entity \<Rightarrow> pred \<Rightarrow> unit res" where
  "vpredTuple ent p =
     (let cols = orEmpty (p_cols p); ps = orEmpty (p_ps p) in
      checks
        [refuse (length cols < 2) IR_INVALID,
         checks (map (\<lambda>name. bind_res (orFail (fieldOf ent name) COLUMN_UNKNOWN)
            (\<lambda>c. refuse (f_stages c \<noteq> []) OPERATOR_NOT_ALLOWED)) cols),
         refuse (ps = []) EMPTY_IN,
         refuse (length ps mod length cols \<noteq> 0) IR_INVALID])"

definition vpredFulltext :: "entity \<Rightarrow> pred \<Rightarrow> unit res" where
  "vpredFulltext ent p =
     (let cols = orEmpty (p_cols p) in
      checks
        [refuse (cols = [] \<or> p_p p = None \<or> p_column p \<noteq> None \<or> orEmpty (p_ps p) \<noteq> [] \<or> p_ref p \<noteq> None
            \<or> p_fn p \<noteq> None \<or> p_value p \<noteq> None \<or> p_sub p \<noteq> None) IR_INVALID,
         checks (map (\<lambda>name. bind_res (orFail (fieldOf ent name) COLUMN_UNKNOWN)
            (\<lambda>c. refuse ((f_type c \<noteq> ''varchar'' \<and> f_type c \<noteq> ''text'') \<or> f_stages c \<noteq> []) OPERATOR_NOT_ALLOWED)) cols)])"

definition compareOps :: "string list" where
  "compareOps = [''eq'', ''not_eq'', ''gt'', ''gte'', ''lt'', ''lte'']"

definition vpredFunction :: "int \<Rightarrow> field \<Rightarrow> pred \<Rightarrow> ormfunction \<Rightarrow> unit res" where
  "vpredFunction n c p f =
     (let op = orEmpty (p_op p); ps = orEmpty (p_ps p) in
      checks
        [vcolumnFunction n c f,
         if op \<in> set compareOps then refuse (p_p p = None) IR_INVALID
         else if op = ''in'' \<or> op = ''not_in'' then refuse (ps = []) EMPTY_IN
         else if op = ''between'' then refuse (length ps \<noteq> 2) IR_INVALID
         else fail OPERATOR_NOT_ALLOWED])"

definition vpredValue :: "int \<Rightarrow> field \<Rightarrow> pred \<Rightarrow> ormfunction \<Rightarrow> unit res" where
  "vpredValue n c p v =
     checks
       [refuse (\<not> isValueFunction (fn_name v)) FUNCTION_UNKNOWN,
        refuse (f_type c \<noteq> ''date'' \<and> f_type c \<noteq> ''datetime'') OPERATOR_NOT_ALLOWED,
        refuse (length (orEmpty (fn_ps v)) \<noteq> (if valueFunctionUnits (fn_name v) \<noteq> None then 1 else 0)) IR_INVALID,
        refuse (p_p p \<noteq> None \<or> orEmpty (p_ps p) \<noteq> []) IR_INVALID,
        refuse (orEmpty (p_op p) \<notin> set compareOps) OPERATOR_NOT_ALLOWED,
        vparams n (fn_ps v)]"

definition vpredColumn :: "vplace \<Rightarrow> field \<Rightarrow> pred \<Rightarrow> unit res" where
  "vpredColumn s c p =
     (let op = orEmpty (p_op p); ps = orEmpty (p_ps p) in
      checks
        [refuse (\<not> opAllowed c op) OPERATOR_NOT_ALLOWED,
         if op = ''is_null'' \<or> op = ''is_not_null'' then Inr ()
         else if op = ''in'' \<or> op = ''not_in'' then refuse (ps = []) EMPTY_IN
         else if op = ''between'' then refuse (length ps \<noteq> 2) IR_INVALID
         else if op \<in> set columnOps then
           (case p_ref p of
              None \<Rightarrow> fail IR_INVALID
            | Some r \<Rightarrow>
                bind_res (ref s (orEmpty (ref_path r)) (ref_column r)) (\<lambda>other.
                  checks
                    [refuse (\<not> meets c other) OPERATOR_NOT_ALLOWED,
                     refuse (\<not> colPairOpAllowed c other op) OPERATOR_NOT_ALLOWED]))
         else refuse (p_p p = None) IR_INVALID])"

definition vpredPlain :: "int \<Rightarrow> vplace \<Rightarrow> entity \<Rightarrow> pred \<Rightarrow> unit res" where
  "vpredPlain n s ent p =
     bind_res (orFail (fieldOf ent (orEmpty (p_column p))) COLUMN_UNKNOWN) (\<lambda>c.
       case (p_fn p, p_value p) of
         (Some f, Some v) \<Rightarrow> fail IR_INVALID
       | (Some f, None) \<Rightarrow> vpredFunction n c p f
       | (None, Some v) \<Rightarrow> vpredValue n c p v
       | (None, None) \<Rightarrow> vpredColumn s c p)"

subsection \<open>Parts of a query without recursion\<close>

definition falsy :: "string option \<Rightarrow> bool" where
  "falsy x \<longleftrightarrow> x = None \<or> x = Some ''''"

definition hasGroupBy :: "query \<Rightarrow> bool" where
  "hasGroupBy q \<longleftrightarrow> orEmpty (q_group_by q) \<noteq> []"

definition itemConn :: "item \<Rightarrow> string" where
  "itemConn it =
     (case i_pred it of Some p \<Rightarrow> orEmpty (p_conn p)
      | None \<Rightarrow> (case i_group it of Some g \<Rightarrow> orEmpty (g_conn g)
      | None \<Rightarrow> (case i_joined it of Some j \<Rightarrow> orEmpty (jr_conn j) | None \<Rightarrow> '''')))"

definition vcolumnNames :: "entity \<Rightarrow> projection \<Rightarrow> unit res" where
  "vcolumnNames ent cols =
     checks
       [refuse (c_mode cols \<notin> {None, Some '''', Some ''all'', Some ''none''}) IR_INVALID,
        checks (map (\<lambda>c. refuse (fieldOf ent c = None) COLUMN_UNKNOWN)
          (orEmpty (c_add cols) @ orEmpty (c_remove cols)))]"

text \<open>The names of the function columns, collected as the loop meets them.\<close>

definition vcolumnFns :: "int \<Rightarrow> entity \<Rightarrow> projection \<Rightarrow> string list res" where
  "vcolumnFns n ent cols =
     foldRes (\<lambda>outputs (out, cf).
        bind_res (refuse (fieldOf ent out \<noteq> None \<or> out \<in> set outputs) COLUMN_ALIAS_CONFLICT) (\<lambda>_.
        bind_res (orFail (fieldOf ent (cf_column cf)) COLUMN_UNKNOWN) (\<lambda>col.
        bind_res (vcolumnFunction n col (cf_fn cf)) (\<lambda>_. Inr (out # outputs)))))
       [] (orEmpty (c_fn cols))"

definition vjoinColumns :: "runtimemodel \<Rightarrow> entity \<Rightarrow> (string \<times> join) list \<Rightarrow> join \<Rightarrow> unit res" where
  "vjoinColumns m ent joined j =
     checks
       [refuse (j_kind j \<noteq> ''inner'' \<and> j_kind j \<noteq> ''left'') IR_INVALID,
        refuse (j_rel j = '''' \<or> j_rel j \<in> fst ` set joined) IR_INVALID,
        refuse (falsy (j_left j) \<or> falsy (j_right j)) IR_INVALID,
        bind_res (ventity m (q_entity (j_query j))) (\<lambda>target.
        bind_res (orFail (fieldOf ent (orEmpty (j_left j))) COLUMN_UNKNOWN) (\<lambda>left.
        bind_res (orFail (fieldOf target (orEmpty (j_right j))) COLUMN_UNKNOWN) (\<lambda>right.
          refuse (\<not> meets left right) OPERATOR_NOT_ALLOWED)))]"

definition vkey :: "entity \<Rightarrow> entity \<Rightarrow> string list \<times> string list \<Rightarrow> keypair \<Rightarrow> (string list \<times> string list) res" where
  "vkey ent target used k =
     bind_res (refuse (k_left k = '''' \<or> k_right k = '''') IR_INVALID) (\<lambda>_.
     bind_res (orFail (fieldOf ent (k_left k)) COLUMN_UNKNOWN) (\<lambda>left.
     bind_res (orFail (fieldOf target (k_right k)) COLUMN_UNKNOWN) (\<lambda>right.
     bind_res (refuse (\<not> meets left right) OPERATOR_NOT_ALLOWED) (\<lambda>_.
     bind_res (refuse (k_left k \<in> set (fst used) \<or> k_right k \<in> set (snd used)) IR_INVALID) (\<lambda>_.
       Inr (k_left k # fst used, k_right k # snd used))))))"

definition vrelationHead :: "runtimemodel \<Rightarrow> entity \<Rightarrow> string list \<Rightarrow> relation \<Rightarrow> unit res" where
  "vrelationHead m ent names r =
     (let kind = orEmpty (r_kind r); q = r_query r in
      checks
        [refuse (r_rel r = '''' \<or> r_rel r \<in> set names) COLUMN_ALIAS_CONFLICT,
         refuse (fieldOf ent (r_rel r) \<noteq> None) COLUMN_ALIAS_CONFLICT,
         refuse (orEmpty (r_keys r) = [] \<or> (kind \<noteq> ''one'' \<and> kind \<noteq> ''many'')) IR_INVALID,
         bind_res (ventity m (q_entity q)) (\<lambda>target.
         bind_res (foldRes (vkey ent target) ([], []) (orEmpty (r_keys r))) (\<lambda>_. Inr ())),
         refuse (q_limit q \<noteq> None) LIMIT_IN_RELATION,
         refuse (isTrue (q_flatten q) \<and> kind \<noteq> ''one'') IR_INVALID,
         refuse (orEmpty (q_key_by q) \<noteq> '''' \<and> kind \<noteq> ''many'') IR_INVALID,
         refuse (case q_if_parent q of None \<Rightarrow> False | Some ip \<Rightarrow> fieldOf ent (ip_column ip) = None) COLUMN_UNKNOWN])"

definition vorder :: "int \<Rightarrow> entity \<Rightarrow> order \<Rightarrow> unit res" where
  "vorder n ent ord =
     checks
       [refuse (length (filter id [orEmpty (o_column ord) \<noteq> '''', isTrue (o_random ord)]) \<noteq> 1) IR_INVALID,
        if orEmpty (o_column ord) \<noteq> '''' then
          bind_res (orFail (fieldOf ent (orEmpty (o_column ord))) COLUMN_UNKNOWN) (\<lambda>col.
            case o_fn ord of None \<Rightarrow> Inr () | Some f \<Rightarrow> vcolumnFunction n col f)
        else refuse (o_fn ord \<noteq> None) IR_INVALID]"

definition vlimit :: "int \<Rightarrow> limit \<Rightarrow> unit res" where
  "vlimit n l =
     (if l_offset_p l \<noteq> None \<or> l_count_p l \<noteq> None then
        (case (l_offset_p l, l_count_p l) of
           (Some op, Some cp) \<Rightarrow>
             refuse (\<not> isSafeInteger op \<or> \<not> isSafeInteger cp \<or> op < 0 \<or> op \<ge> n \<or> cp < 0 \<or> cp \<ge> n) IR_INVALID
         | _ \<Rightarrow> fail IR_INVALID)
      else (case (l_offset l, l_count l) of
           (Some offset, Some count) \<Rightarrow>
             refuse (\<not> isSafeInteger offset \<or> \<not> isSafeInteger count \<or> offset < 0 \<or> count \<le> 0) IR_INVALID
         | _ \<Rightarrow> fail IR_INVALID))"

definition lockModes :: "string list" where
  "lockModes = [''update'', ''share'', ''update_nowait'', ''share_nowait'']"

text \<open>The rest of \<open>query\<close> after the joins, conditions and relations.\<close>

definition vqueryTail :: "int \<Rightarrow> entity \<Rightarrow> query \<Rightarrow> bool \<Rightarrow> bool \<Rightarrow> bool \<Rightarrow> unit res" where
  "vqueryTail n ent q isJoin isRelation isRoot =
     (let lock = orEmpty (q_lock q); perParent = (case q_limit_per_parent q of None \<Rightarrow> 0 | Some k \<Rightarrow> k) in
      checks
        [if orEmpty (q_key_by q) \<noteq> '''' then
           bind_res (orFail (fieldOf ent (orEmpty (q_key_by q))) COLUMN_UNKNOWN) (\<lambda>keyColumn.
             refuse (f_nullable keyColumn) IR_INVALID)
         else Inr (),
         vparams n (map_option (\<lambda>ip. [ip_p ip]) (q_if_parent q)),
         refuse (\<not> isRelation \<and> (orEmpty (q_key_by q) \<noteq> '''' \<or> isTrue (q_flatten q) \<or> perParent > 0
            \<or> q_if_parent q \<noteq> None \<or> isTrue (q_no_cascade_delete q))) IR_INVALID,
         checks (map (vorder n ent) (orEmpty (q_order q))),
         checks (map (\<lambda>g. refuse (fieldOf ent g = None) COLUMN_UNKNOWN) (orEmpty (q_group_by q))),
         refuse (hasGroupBy q \<and> \<not> isRoot) IR_INVALID,
         refuse (hasGroupBy q \<and> (\<exists>ord \<in> set (orEmpty (q_order q)).
            orEmpty (o_column ord) \<noteq> '''' \<and> orEmpty (o_column ord) \<notin> set (orEmpty (q_group_by q)))) IR_INVALID,
         (case q_limit q of None \<Rightarrow> Inr () | Some l \<Rightarrow> vlimit n l),
         refuse (lock \<noteq> '''' \<and> lock \<notin> set lockModes) IR_INVALID,
         refuse (lock \<noteq> '''' \<and> (isJoin \<or> q_group_by q \<noteq> None \<or> perParent > 0)) IR_INVALID,
         refuse (orEmpty (q_force_index q) \<noteq> '''' \<and> orEmpty (q_force_index q) \<notin> set (e_indexes ent)) INDEX_UNKNOWN])"

definition vsubHead :: "runtimemodel \<Rightarrow> subquery \<Rightarrow> bool \<Rightarrow> unit res" where
  "vsubHead m s scalar =
     (let q = s_query s; column = orEmpty (s_column s); agg = orEmpty (s_agg s);
          scalarColumn = (scalar \<and> agg = '''') in
      bind_res (ventity m (q_entity q)) (\<lambda>ent.
      checks
        [if agg = '''' then refuse (column = '''') IR_INVALID
         else if agg = ''sum'' \<or> agg = ''avg'' then
           checks [refuse (\<not> scalar) IR_INVALID,
             bind_res (orFail (fieldOf ent column) COLUMN_UNKNOWN) (\<lambda>c.
               refuse (f_type c \<notin> set numericTypes) OPERATOR_NOT_ALLOWED)]
         else if agg = ''count'' then refuse (\<not> scalar) IR_INVALID
         else fail IR_INVALID,
         refuse (column \<noteq> '''' \<and> fieldOf ent column = None) COLUMN_UNKNOWN,
         refuse (orEmpty (q_relations q) \<noteq> [] \<or> orEmpty (q_lock q) \<noteq> '''' \<or> q_columns q \<noteq> None
            \<or> (q_limit q \<noteq> None \<and> \<not> scalarColumn)) IR_INVALID,
         if scalarColumn then
           checks
             [refuse (case q_limit q of None \<Rightarrow> True | Some l \<Rightarrow> l_count l \<noteq> Some 1) IR_INVALID,
              refuse (\<exists>ord \<in> set (orEmpty (q_order q)). isTrue (o_random ord)) IR_INVALID,
              refuse (\<exists>pk \<in> set (e_primaryKey ent).
                 \<not> (\<exists>ord \<in> set (orEmpty (q_order q)). o_column ord = Some pk \<and> o_fn ord = None)) IR_INVALID]
         else Inr ()]))"

text \<open>\<open>joinedRefs\<close>: each join a group places appears once; the set of the places seen.\<close>

function joinedRefs :: "group \<Rightarrow> string list \<Rightarrow> string list res" where
  "joinedRefs g seen =
     foldRes (\<lambda>seen it.
        bind_res (case i_joined it of
            None \<Rightarrow> Inr seen
          | Some j \<Rightarrow> (if jr_join j \<in> set seen then fail IR_INVALID else Inr (jr_join j # seen)))
        (\<lambda>seen'. case i_group it of None \<Rightarrow> Inr seen' | Some g' \<Rightarrow> joinedRefs g' seen'))
       seen (g_items g)"
  by pat_completeness auto
termination
  by (relation "measure (\<lambda>(g, seen). size g)")
     (auto dest!: size_group_items size_item_group)

declare joinedRefs.simps [simp del]

subsection \<open>Queries, groups, predicates and subqueries\<close>

lemma enumerate_mem [dest]: "(i, x) \<in> set (enumerate k xs) \<Longrightarrow> x \<in> set xs"
  by (auto simp: in_set_enumerate_eq)

text \<open>
  \<open>query\<close>, \<open>group\<close>, \<open>pred\<close> and \<open>sub\<close> of the validator. \<open>joined\<close> holds the joins of the
  query by name, as the loop over the joins collects them.
\<close>

function vquery :: "runtimemodel \<Rightarrow> int \<Rightarrow> query \<Rightarrow> vplace \<Rightarrow> bool \<Rightarrow> bool \<Rightarrow> bool \<Rightarrow> unit res"
  and vgroup :: "runtimemodel \<Rightarrow> int \<Rightarrow> vplace \<Rightarrow> group \<Rightarrow> (string \<times> join) list \<Rightarrow> unit res"
  and vpred :: "runtimemodel \<Rightarrow> int \<Rightarrow> vplace \<Rightarrow> pred \<Rightarrow> unit res"
  and vsub :: "runtimemodel \<Rightarrow> int \<Rightarrow> subquery \<Rightarrow> bool \<Rightarrow> vplace \<Rightarrow> unit res"
where
  "vquery m n q s isJoin isRelation isRoot =
     bind_res (ventity m (q_entity q)) (\<lambda>ent.
     bind_res (case q_columns q of
         None \<Rightarrow> Inr []
       | Some cols \<Rightarrow>
           bind_res (vcolumnNames ent cols) (\<lambda>_.
           bind_res (vcolumnFns n ent cols) (\<lambda>outputs.
             foldRes (\<lambda>outputs (out, sub).
               bind_res (refuse (fieldOf ent out \<noteq> None \<or> out \<in> set outputs) COLUMN_ALIAS_CONFLICT) (\<lambda>_.
               bind_res (vsub m n sub True s) (\<lambda>_. Inr (out # outputs))))
               outputs (orEmpty (c_sub cols))))) (\<lambda>_.
     bind_res (foldRes (\<lambda>joined j.
         bind_res (vjoinColumns m ent joined j) (\<lambda>_.
         bind_res (orFail (joinPlace s (j_rel j)) IR_INVALID) (\<lambda>js.
         bind_res (vquery m n (j_query j) js True False False) (\<lambda>_.
           Inr (map_set (j_rel j) j joined))))) [] (orEmpty (q_joins q))) (\<lambda>joined.
     checks
       [refuse (\<not> isJoin \<and> q_on q \<noteq> None) IR_INVALID,
        refuse ((case q_on q of None \<Rightarrow> False | Some g \<Rightarrow> isTrue (g_not g))
          \<or> (case q_where q of None \<Rightarrow> False | Some g \<Rightarrow> isTrue (g_not g))) IR_INVALID,
        refuse (case q_on q of None \<Rightarrow> False | Some g \<Rightarrow> orEmpty (g_conn g) \<noteq> '''') IR_INVALID,
        refuse (case q_where q of None \<Rightarrow> False | Some g \<Rightarrow> orEmpty (g_conn g) \<noteq> '''') IR_INVALID,
        (case q_on q of None \<Rightarrow> Inr () | Some g \<Rightarrow> vgroup m n s g joined),
        (case q_where q of None \<Rightarrow> Inr () | Some g \<Rightarrow> vgroup m n s g joined),
        (case q_where q of None \<Rightarrow> Inr () | Some g \<Rightarrow> bind_res (joinedRefs g []) (\<lambda>_. Inr ())),
        bind_res (foldRes (\<lambda>names r.
            bind_res (vrelationHead m ent names r) (\<lambda>_.
            bind_res (vquery m n (r_query r) (rootPlace (scopes m (r_query r)) None) False True False) (\<lambda>_.
              Inr (r_rel r # names)))) [] (orEmpty (q_relations q))) (\<lambda>_. Inr ()),
        vqueryTail n ent q isJoin isRelation isRoot])))"
| "vgroup m n s g joined =
     checks (map (\<lambda>(i, it).
       checks
         [refuse (length (filter id [i_pred it \<noteq> None, i_group it \<noteq> None, i_joined it \<noteq> None]) \<noteq> 1) IR_INVALID,
          refuse (itemConn it \<noteq> '''' \<and> itemConn it \<noteq> ''and'' \<and> itemConn it \<noteq> ''or'') IR_INVALID,
          refuse (i = 0 \<and> itemConn it = ''or'') OR_AT_GROUP_START,
          refuse (i = 0 \<and> itemConn it \<noteq> '''') IR_INVALID,
          (case i_joined it of
             Some jr \<Rightarrow>
               bind_res (orFail (map_of joined (jr_join jr)) ENTITY_NOT_JOINED) (\<lambda>j.
                 refuse (case q_where (j_query j) of None \<Rightarrow> True | Some w \<Rightarrow> g_items w = []) IR_INVALID)
           | None \<Rightarrow>
              (case i_pred it of
                 Some p \<Rightarrow> vpred m n s p
               | None \<Rightarrow>
                  (case i_group it of
                     None \<Rightarrow> Inr ()
                   | Some g' \<Rightarrow> checks [refuse (g_items g' = []) IR_INVALID, vgroup m n s g' joined])))])
       (enumerate 0 (g_items g)))"
| "vpred m n s p =
     bind_res (orFail (v_ent (vp_here s)) IR_INVALID) (\<lambda>ent.
     bind_res (checks [vparams n (p_ps p), vparams n (map_option (\<lambda>i. [i]) (p_p p))]) (\<lambda>_.
       let op = orEmpty (p_op p) in
       if op = ''tuple_in'' \<or> op = ''tuple_not_in'' then vpredTuple ent p
       else if op = ''fulltext'' \<or> op = ''fulltext_boolean'' then vpredFulltext ent p
       else checks
         [refuse (orEmpty (p_cols p) \<noteq> []) IR_INVALID,
          (case p_sub p of
             None \<Rightarrow> vpredPlain n s ent p
           | Some sub \<Rightarrow>
               bind_res (orFail (fieldOf ent (orEmpty (p_column p))) COLUMN_UNKNOWN) (\<lambda>compared.
               checks
                 [refuse (op \<noteq> ''in'' \<and> op \<noteq> ''not_in'') IR_INVALID,
                  refuse (p_p p \<noteq> None \<or> orEmpty (p_ps p) \<noteq> [] \<or> p_fn p \<noteq> None \<or> p_value p \<noteq> None) IR_INVALID,
                  vsub m n sub False s,
                  bind_res (ventity m (q_entity (s_query sub))) (\<lambda>subEnt.
                    refuse (case fieldOf subEnt (orEmpty (s_column sub)) of
                        None \<Rightarrow> False | Some subColumn \<Rightarrow> \<not> meets compared subColumn) OPERATOR_NOT_ALLOWED)]))]))"
| "vsub m n sub scalar outer =
     checks
       [vsubHead m sub scalar,
        vquery m n (s_query sub) (rootPlace (scopes m (s_query sub)) (Some outer)) False False False]"
  by pat_completeness auto
termination
  by (relation "measure (\<lambda>x. case x of
         Inl (Inl (m, n, q, _)) \<Rightarrow> size q
       | Inl (Inr (m, n, s, g, _)) \<Rightarrow> size g
       | Inr (Inl (m, n, s, p)) \<Rightarrow> size p
       | Inr (Inr (m, n, sub, _)) \<Rightarrow> size sub)")
     (auto dest!: enumerate_mem intro: ir_size)

declare vquery.simps [simp del] vgroup.simps [simp del] vpred.simps [simp del] vsub.simps [simp del]

subsection \<open>The key of an upsert\<close>

text \<open>
  \<open>assigned\<close>: the assigned columns and, as the loop over the fields meets them, the blind
  index column of each assigned source.
\<close>

definition assignedColumns :: "entity \<Rightarrow> assignment list \<Rightarrow> string list" where
  "assignedColumns ent asg =
     fold (\<lambda>f assigned. if f_blindIndex f \<noteq> '''' \<and> f_name f \<in> set assigned
             then assigned @ [f_blindIndex f] else assigned)
       (e_fields ent) (map a_column asg)"

definition conflictCandidates :: "entity \<Rightarrow> assignment list \<Rightarrow> string list list" where
  "conflictCandidates ent asg =
     (if \<exists>c \<in> set (e_primaryKey ent). c \<in> set (assignedColumns ent asg)
      then [e_primaryKey ent] else []) @ e_uniques ent"

definition conflictKey :: "entity \<Rightarrow> assignment list \<Rightarrow> string list res" where
  "conflictKey ent asg =
     (case conflictCandidates ent asg of
        [candidate] \<Rightarrow>
          (if \<exists>c \<in> set candidate. c \<notin> set (assignedColumns ent asg) then fail IR_INVALID
           else Inr candidate)
      | _ \<Rightarrow> fail IR_INVALID)"

subsection \<open>The key of a restore\<close>

record restoreparts =
  rp_key :: "string list"
  rp_where :: group
  rp_set :: "assignment list"

text \<open>A condition of the where that gives its column a value.\<close>

definition valuedPred :: "item \<Rightarrow> string option" where
  "valuedPred it =
     (case i_pred it of
        None \<Rightarrow> None
      | Some p \<Rightarrow>
          if p_op p = Some ''eq'' \<and> p_p p \<noteq> None \<and> p_fn p = None \<and> p_value p = None \<and> p_ref p = None \<and> p_sub p = None
          then Some (orEmpty (p_column p)) else None)"

definition valuedColumns :: "item list \<Rightarrow> assignment list \<Rightarrow> string list" where
  "valuedColumns items asg =
     List.map_filter valuedPred items @ map a_column (filter (\<lambda>a. a_p a \<noteq> None) asg)"

definition covered :: "string list \<Rightarrow> string list \<Rightarrow> bool" where
  "covered valued columns \<longleftrightarrow> columns \<noteq> [] \<and> (\<forall>c \<in> set columns. c \<in> set valued)"

definition uniqueNames :: "entity \<Rightarrow> (string \<times> string list) list res" where
  "uniqueNames ent =
     mapRes (\<lambda>(i, columns).
        if i < length (e_indexes ent) then Inr (e_indexes ent ! i, columns) else fail IR_INVALID)
       (enumerate 0 (e_uniques ent))"

definition eqItem :: "bool \<Rightarrow> string \<Rightarrow> int \<Rightarrow> item" where
  "eqItem first column p =
     Item (Some (Pred (if first then None else Some ''and'') (Some column) (Some ''eq'') (Some p)
       None None None None None None)) None None"

text \<open>One step of the loop over the set values: a condition, or a new value of the row.\<close>

definition restoreAssign ::
    "entity \<Rightarrow> string list \<Rightarrow> item list \<times> assignment list \<Rightarrow> assignment \<Rightarrow> (item list \<times> assignment list) res" where
  "restoreAssign ent key acc a =
     (case (a_p a, a_column a \<in> set key) of
        (Some p, True) \<Rightarrow> Inr (fst acc @ [eqItem (fst acc = []) (a_column a) p], snd acc)
      | _ \<Rightarrow>
          bind_res (orFail (fieldOf ent (a_column a)) COLUMN_UNKNOWN) (\<lambda>c.
          bind_res (refuse (f_primary c \<or> f_identity c \<or> a_column a = e_softDelete ent) IR_INVALID) (\<lambda>_.
            Inr (fst acc, snd acc @ [a]))))"

definition restoreKey :: "entity \<Rightarrow> request \<Rightarrow> restoreparts res" where
  "restoreKey ent r =
     (let items = (case q_where (rq_query r) of None \<Rightarrow> [] | Some g \<Rightarrow> g_items g);
          asg = orEmpty (rq_set r); valued = valuedColumns items asg in
      bind_res (refuse (e_softDelete ent = '''') IR_INVALID) (\<lambda>_.
      bind_res (refuse (\<exists>it \<in> set (tl items). itemConn it = ''or'') IR_INVALID) (\<lambda>_.
      bind_res (uniqueNames ent) (\<lambda>uniques.
      bind_res (if covered valued (e_primaryKey ent) then Inr (e_primaryKey ent)
        else orFail (map_option snd (find (\<lambda>u. covered valued (snd u)) (sort_key fst uniques))) IR_INVALID) (\<lambda>key.
      bind_res (foldRes (restoreAssign ent key) (items, []) asg) (\<lambda>(where', asg').
        Inr \<lparr>rp_key = key, rp_where = Group None None where', rp_set = asg'\<rparr>))))))"

subsection \<open>Validation of a request\<close>

definition IR_VERSION :: int where
  "IR_VERSION = 1"

definition kinds :: "string list" where
  "kinds = [''one'', ''all'', ''count'', ''group_count'', ''sum'', ''avg'', ''paginate'', ''insert'', ''update'',
     ''delete'', ''restore'', ''restart_identity'']"

definition writeKinds :: "string list" where
  "writeKinds = [''insert'', ''update'', ''delete'', ''restore'', ''restart_identity'']"

definition vset :: "int \<Rightarrow> entity \<Rightarrow> request \<Rightarrow> assignment \<Rightarrow> unit res" where
  "vset n ent r a =
     checks
       [vassign n ent a,
        refuse (rq_kind r = ''insert'' \<and> (a_plus_p a \<noteq> None \<or> a_minus_p a \<noteq> None)) IR_INVALID,
        if rq_kind r = ''update'' then
          bind_res (orFail (fieldOf ent (a_column a)) COLUMN_UNKNOWN) (\<lambda>c.
            refuse (f_primary c \<or> f_identity c) IR_INVALID)
        else Inr ()]"

definition vonDuplicate :: "int \<Rightarrow> entity \<Rightarrow> assignment \<Rightarrow> unit res" where
  "vonDuplicate n ent a =
     checks
       [vassign n ent a,
        bind_res (orFail (fieldOf ent (a_column a)) COLUMN_UNKNOWN) (\<lambda>c.
          refuse (f_primary c \<or> f_identity c) IR_INVALID)]"

text \<open>The checks of the request's own members, after its query.\<close>

definition vwrite :: "entity \<Rightarrow> request \<Rightarrow> unit res" where
  "vwrite ent r =
     (let n = rq_n_params r; kind = rq_kind r; asg = orEmpty (rq_set r); rows = orEmpty (rq_rows r);
          onDuplicate = orEmpty (rq_on_duplicate r); where' = q_where (rq_query r) in
      checks
        [if kind = ''sum'' \<or> kind = ''avg'' then
           bind_res (orFail (fieldOf ent (orEmpty (rq_agg r))) COLUMN_UNKNOWN) (\<lambda>c.
             refuse (f_type c \<notin> set numericTypes) OPERATOR_NOT_ALLOWED)
         else Inr (),
         refuse (kind = ''group_count'' \<and> \<not> hasGroupBy (rq_query r)) IR_INVALID,
         refuse (hasGroupBy (rq_query r) \<and> kind \<noteq> ''count'' \<and> kind \<noteq> ''group_count'') IR_INVALID,
         if kind = ''insert'' \<or> kind = ''update'' \<or> kind = ''restore'' then
           checks (refuse (asg = [] \<and> kind \<noteq> ''restore'') IR_INVALID # map (vset n ent r) asg)
         else Inr (),
         if rows \<noteq> [] then
           checks ([refuse (kind \<noteq> ''insert'' \<or> onDuplicate \<noteq> []) IR_INVALID]
             @ map (\<lambda>a. refuse (a_p a = None) IR_INVALID) asg
             @ map (\<lambda>row. checks [refuse (length row \<noteq> length asg) IR_INVALID, vparams n (Some row)]) rows)
         else Inr (),
         if onDuplicate \<noteq> [] then
           checks ([refuse (kind \<noteq> ''insert'') IR_INVALID]
             @ map (vonDuplicate n ent) onDuplicate
             @ [bind_res (conflictKey ent asg) (\<lambda>_. Inr ())])
         else Inr (),
         (case rq_optimistic r of
            None \<Rightarrow> Inr ()
          | Some opt \<Rightarrow> checks [refuse (fieldOf ent (op_column opt) = None) COLUMN_UNKNOWN, vparams n (Some [op_p opt])]),
         refuse ((kind = ''update'' \<or> kind = ''delete'')
            \<and> (case where' of None \<Rightarrow> True | Some g \<Rightarrow> g_items g = [])) IR_INVALID,
         if kind = ''restore'' then
           checks [refuse (rq_optimistic r \<noteq> None) IR_INVALID, bind_res (restoreKey ent r) (\<lambda>_. Inr ())]
         else Inr ()])"

definition validate :: "runtimemodel \<Rightarrow> request \<Rightarrow> unit res" where
  "validate m r =
     (let kind = rq_kind r; q = rq_query r in
      checks
        [refuse (rq_ir_version r \<noteq> IR_VERSION) VERSION_MISMATCH,
         refuse (rq_manifest_hash r \<noteq> m_manifestHash m) SCHEMA_HASH_MISMATCH,
         refuse (kind \<notin> set kinds) IR_INVALID,
         refuse ((case entityOf m (q_entity q) of None \<Rightarrow> False | Some target \<Rightarrow> e_external target)
            \<and> kind \<in> set writeKinds) CONFIG,
         refuse (isTrue (rq_load r) \<and> (kind \<noteq> ''insert'' \<or> orEmpty (rq_on_duplicate r) \<noteq> [])) IR_INVALID,
         refuse (kind = ''restart_identity'' \<and> (orEmpty (rq_set r) \<noteq> [] \<or> orEmpty (rq_rows r) \<noteq> []
            \<or> orEmpty (rq_on_duplicate r) \<noteq> [] \<or> q_where q \<noteq> None \<or> rq_optimistic r \<noteq> None)) IR_INVALID,
         vquery m (rq_n_params r) q (rootPlace (scopes m q) None) False False True,
         refuse (orEmpty (q_lock q) \<noteq> '''' \<and> kind \<noteq> ''one'' \<and> kind \<noteq> ''all'') IR_INVALID,
         bind_res (ventity m (q_entity q)) (\<lambda>ent. vwrite ent r)])"

end
