(* ===== verification/Bucket.thy ===== *)
theory Bucket
  imports Prelude
begin

section \<open>Buckets of lists\<close>

text \<open>
  The loop \<open>let n = 1; while (n < length) n <<= 1\<close>, which the canonicalizer
  (\<open>engine/canonical.ts\<close>), the request builder (\<open>core.ts\<close>) and the execution of relations
  (\<open>database.ts\<close>) run to pad a list to a power of two, so that lists of similar length share a
  plan. The shift works on 32-bit integers, so above \<open>2^30\<close> the bucket wraps to a negative
  number, then to zero, and the loop never ends; 33 steps decide.
\<close>

definition int32 :: "int \<Rightarrow> int" where
  "int32 x = (x + 2 ^ 31) mod 2 ^ 32 - 2 ^ 31"

fun bucketLoop :: "nat \<Rightarrow> int \<Rightarrow> int \<Rightarrow> int option" where
  "bucketLoop 0 b n = None"
| "bucketLoop (Suc fuel) b n = (if b < n then bucketLoop fuel (int32 (2 * b)) n else Some b)"

definition bucket :: "nat \<Rightarrow> nat option" where
  "bucket n = map_option nat (bucketLoop 33 1 (int n))"

lemma int32_id: "- (2 ^ 31) \<le> x \<Longrightarrow> x < 2 ^ 31 \<Longrightarrow> int32 x = x"
  by (simp add: int32_def)

lemma int32_double: "i < 30 \<Longrightarrow> int32 (2 * 2 ^ i) = 2 ^ Suc i"
proof -
  assume "i < 30"
  then have "(2::int) ^ Suc i \<le> 2 ^ 30" by (intro power_increasing) auto
  moreover have "(0::int) < 2 ^ Suc i" "(2::int) ^ 30 < 2 ^ 31" by simp_all
  moreover have "- ((2::int) ^ 31) < 0" by simp
  ultimately have "int32 (2 ^ Suc i) = 2 ^ Suc i" by (intro int32_id; linarith)
  then show ?thesis by simp
qed

lemma bucketLoop_power:
  "n \<le> 2 ^ 30 \<Longrightarrow> i \<le> 30 \<Longrightarrow> 30 < i + fuel \<Longrightarrow>
     \<exists>j\<ge>i. j \<le> 30 \<and> bucketLoop fuel (2 ^ i) n = Some (2 ^ j) \<and> n \<le> 2 ^ j \<and> (i < j \<longrightarrow> 2 ^ j < 2 * n)"
proof (induction fuel arbitrary: i)
  case (Suc fuel)
  show ?case
  proof (cases "(2::int) ^ i < n")
    case True
    with Suc.prems have "(2::int) ^ i < 2 ^ 30" by linarith
    then have i: "i < 30" using power_less_imp_less_exp[of "2::int" i 30] by simp
    have step: "int32 (2 * 2 ^ i) = 2 ^ Suc i" using i by (rule int32_double)
    obtain j where j: "j \<ge> Suc i" "j \<le> 30" "bucketLoop fuel (2 ^ Suc i) n = Some (2 ^ j)" "n \<le> 2 ^ j"
        "Suc i < j \<longrightarrow> 2 ^ j < 2 * n"
      using Suc.IH[of "Suc i"] Suc.prems i by auto
    have "i < j \<longrightarrow> 2 ^ j < 2 * n"
    proof (cases "Suc i = j")
      case True
      then show ?thesis using \<open>(2::int) ^ i < n\<close> by auto
    qed (use j in simp)
    with j True step show ?thesis by (intro exI[of _ j]) simp
  next
    case False
    with Suc.prems show ?thesis by (intro exI[of _ i]) auto
  qed
qed simp

text \<open>Up to \<open>2^30\<close> values the loop ends with the least power of two that holds them.\<close>

lemma bucket_Some:
  assumes "n \<le> 2 ^ 30"
  shows "\<exists>j\<le>30. bucket n = Some (2 ^ j) \<and> n \<le> 2 ^ j \<and> (2 ^ j = (1::nat) \<or> 2 ^ j < 2 * n)"
proof -
  have "int n \<le> 2 ^ 30" using assms by simp
  from bucketLoop_power[OF this, of 0 33] obtain j where
    j: "j \<le> 30" "bucketLoop 33 1 (int n) = Some (2 ^ j)" "int n \<le> 2 ^ j" "0 < j \<longrightarrow> 2 ^ j < 2 * int n" by auto
  have "n \<le> 2 ^ j" using j(3) by (metis of_nat_le_iff of_nat_numeral of_nat_power)
  moreover have "0 < j \<longrightarrow> (2::nat) ^ j < 2 * n"
    using j(4) by (metis of_nat_less_iff of_nat_mult of_nat_numeral of_nat_power)
  moreover have "bucket n = Some (2 ^ j)"
    using j(2) by (simp add: bucket_def nat_power_eq)
  ultimately show ?thesis using j(1) by (intro exI[of _ j]) auto
qed

text \<open>Above, it never ends.\<close>

lemma bucketLoop_stuck: "0 < n \<Longrightarrow> bucketLoop fuel 0 n = None"
  by (induction fuel) (simp_all add: int32_def)

lemma bucketLoop_climb:
  "2 ^ 30 < n \<Longrightarrow> i \<le> 30 \<Longrightarrow> bucketLoop fuel (2 ^ i) n = None"
proof (induction fuel arbitrary: i)
  case (Suc fuel)
  have lt: "(2::int) ^ i < n"
    using Suc.prems power_increasing[of i 30 "2::int"] by linarith
  show ?case
  proof (cases "i = 30")
    case True
    have "int32 (2 * 2 ^ 30) = - (2 ^ 31)" "int32 (2 * (- (2 ^ 31))) = 0" by (simp_all add: int32_def)
    moreover have "bucketLoop fuel (- (2 ^ 31)) n = None"
      using Suc.prems(1) calculation(2) by (cases fuel) (simp_all add: bucketLoop_stuck)
    ultimately show ?thesis using True lt by simp
  next
    case False
    then have i: "Suc i \<le> 30" using Suc.prems by simp
    then have "int32 (2 * 2 ^ i) = 2 ^ Suc i" by (intro int32_double) simp
    with lt Suc.IH[OF Suc.prems(1) i] show ?thesis by simp
  qed
qed simp

lemma bucket_None: "2 ^ 30 < n \<Longrightarrow> bucket n = None"
  using bucketLoop_climb[of "int n" 0 33] by (simp add: bucket_def)

lemma bucket_1 [simp]: "bucket 0 = Some 1" "bucket (Suc 0) = Some 1"
  by (simp_all add: bucket_def eval_nat_numeral)

end
