(* ===== verification/Canonical.thy ===== *)
theory Canonical
  imports Validate Bucket
begin

section \<open>The canonical form of a request (\<open>engine/canonical.ts\<close>)\<close>

text \<open>
  Before the plan cache is consulted, every parameter reference of a request gets a slot of
  its own in a fixed walk, and IN lists are padded to a power of two. The class
  \<open>Canonicalizer\<close> is the state \<open>canon\<close>: which parameters a reference named, and the values
  of the slots so far. A parameter value is opaque but for the page values, which the source
  inspects: a number that is an integer, or anything else.
\<close>

datatype 'v pvalue = PInt int | POther 'v

record 'v canon =
  cn_used :: "bool list"
  cn_out :: "'v pvalue list"

subsection \<open>Slots\<close>

definition index :: "'v pvalue list \<Rightarrow> int \<Rightarrow> ('v canon, int) st" where
  "index params p =
     (if \<not> isSafeInteger p \<or> p < 0 \<or> p \<ge> int (length params) then throw (OrmError IR_INVALID)
      else bnd (modify (\<lambda>s. s\<lparr>cn_used := (cn_used s)[nat p := True], cn_out := cn_out s @ [params ! nat p]\<rparr>))
        (\<lambda>_. gets (\<lambda>s. int (length (cn_out s)) - 1)))"

definition pageValue :: "int \<Rightarrow> ('v canon, int) st" where
  "pageValue v =
     (if \<not> isSafeInteger v then throw (OrmError CODEC_ENCODE)
      else bnd (modify (\<lambda>s. s\<lparr>cn_out := cn_out s @ [PInt v]\<rparr>))
        (\<lambda>_. gets (\<lambda>s. int (length (cn_out s)) - 1)))"

definition pageIndex :: "'v pvalue list \<Rightarrow> int \<Rightarrow> bool \<Rightarrow> ('v canon, int) st" where
  "pageIndex params p isOffset =
     bnd (index params p) (\<lambda>i.
       case params ! nat p of
         POther _ \<Rightarrow> throw (OrmError CODEC_ENCODE)
       | PInt v \<Rightarrow>
           if \<not> isSafeInteger v then throw (OrmError CODEC_ENCODE)
           else if (if isOffset then v < 0 else v \<le> 0) then throw (OrmError IR_INVALID)
           else ret i)"

definition ints :: "'v pvalue list \<Rightarrow> int list \<Rightarrow> ('v canon, int list) st" where
  "ints params ps = mapM (index params) ps"

definition canonList :: "'v pvalue list \<Rightarrow> int list \<Rightarrow> ('v canon, int list) st" where
  "canonList params ps =
     (if ps = [] then ret []
      else case bucket (length ps) of
        None \<Rightarrow> throw NoReturn
      | Some b \<Rightarrow> mapM (\<lambda>j. index params (ps ! min j (length ps - 1))) [0..<b])"

definition canonFn :: "'v pvalue list \<Rightarrow> ormfunction \<Rightarrow> ('v canon, ormfunction) st" where
  "canonFn params f = bnd (optM (ints params) (fn_ps f)) (\<lambda>ps. ret (f\<lparr>fn_ps := ps\<rparr>))"

definition canonAssignment :: "'v pvalue list \<Rightarrow> assignment \<Rightarrow> ('v canon, assignment) st" where
  "canonAssignment params a =
     bnd (optM (index params) (a_p a)) (\<lambda>p.
     bnd (optM (index params) (a_plus_p a)) (\<lambda>plus.
     bnd (optM (index params) (a_minus_p a)) (\<lambda>minus.
       ret (a\<lparr>a_p := p, a_plus_p := plus, a_minus_p := minus\<rparr>))))"

definition canonOrder :: "'v pvalue list \<Rightarrow> order \<Rightarrow> ('v canon, order) st" where
  "canonOrder params ord = bnd (optM (canonFn params) (o_fn ord)) (\<lambda>f. ret (ord\<lparr>o_fn := f\<rparr>))"

definition canonColumnFn ::
    "'v pvalue list \<Rightarrow> string \<times> columnfunction \<Rightarrow> ('v canon, string \<times> columnfunction) st" where
  "canonColumnFn params e =
     bnd (canonFn params (cf_fn (snd e))) (\<lambda>f. ret (fst e, (snd e)\<lparr>cf_fn := f\<rparr>))"

definition canonIfParent :: "'v pvalue list \<Rightarrow> ifparent \<Rightarrow> ('v canon, ifparent) st" where
  "canonIfParent params ip = bnd (index params (ip_p ip)) (\<lambda>p. ret (ip\<lparr>ip_p := p\<rparr>))"

text \<open>The page limit: literals become slots at the root only, and only there may be indexes.\<close>

definition canonLimit :: "'v pvalue list \<Rightarrow> bool \<Rightarrow> limit \<Rightarrow> ('v canon, limit) st" where
  "canonLimit params root l =
     (case (l_offset l, l_count l, l_offset_p l, l_count_p l) of
        (Some offset, Some count, None, None) \<Rightarrow>
          if root then
            if \<not> isSafeInteger offset \<or> \<not> isSafeInteger count then throw (OrmError CODEC_ENCODE)
            else if offset < 0 \<or> count \<le> 0 then throw (OrmError IR_INVALID)
            else bnd (pageValue offset) (\<lambda>op. bnd (pageValue count) (\<lambda>cp.
              ret \<lparr>l_offset = None, l_count = None, l_offset_p = Some op, l_count_p = Some cp\<rparr>))
          else ret l
      | (None, None, Some op, Some cp) \<Rightarrow>
          if root then
            bnd (pageIndex params op True) (\<lambda>op'. bnd (pageIndex params cp False) (\<lambda>cp'.
              ret \<lparr>l_offset = None, l_count = None, l_offset_p = Some op', l_count_p = Some cp'\<rparr>))
          else throw (OrmError IR_INVALID)
      | _ \<Rightarrow> throw (OrmError IR_INVALID))"

subsection \<open>The walk\<close>

function canonQuery :: "'v pvalue list \<Rightarrow> bool \<Rightarrow> query \<Rightarrow> ('v canon, query) st"
  and canonSub :: "'v pvalue list \<Rightarrow> subquery \<Rightarrow> ('v canon, subquery) st"
  and canonGroup :: "'v pvalue list \<Rightarrow> group \<Rightarrow> ('v canon, group) st"
  and canonItem :: "'v pvalue list \<Rightarrow> item \<Rightarrow> ('v canon, item) st"
  and canonPred :: "'v pvalue list \<Rightarrow> pred \<Rightarrow> ('v canon, pred) st"
where
  "canonQuery params root q =
     bnd (case q_columns q of
         None \<Rightarrow> ret None
       | Some c \<Rightarrow>
           bnd (optM (\<lambda>fs. mapM (canonColumnFn params) (sort_key fst fs)) (c_fn c)) (\<lambda>fns.
           bnd (optM (\<lambda>ss. mapM (\<lambda>e. bnd (canonSub params (snd e)) (\<lambda>s. ret (fst e, s))) (sort_key fst ss)) (c_sub c)) (\<lambda>subs.
             ret (Some (Projection (c_mode c) (c_add c) (c_remove c) fns subs))))) (\<lambda>columns.
     bnd (optM (canonGroup params) (q_on q)) (\<lambda>on.
     bnd (optM (canonGroup params) (q_where q)) (\<lambda>where'.
     bnd (optM (\<lambda>js. mapM (\<lambda>j. bnd (canonQuery params False (j_query j)) (\<lambda>jq.
            ret (Join (j_rel j) (j_kind j) jq (j_left j) (j_right j)))) js) (q_joins q)) (\<lambda>joins.
     bnd (optM (\<lambda>rs. mapM (\<lambda>r. bnd (canonQuery params False (r_query r)) (\<lambda>rq.
            ret (Relation (r_rel r) rq (r_kind r) (r_keys r)))) rs) (q_relations q)) (\<lambda>relations.
     bnd (optM (mapM (canonOrder params)) (q_order q)) (\<lambda>order.
     bnd (optM (canonLimit params root) (q_limit q)) (\<lambda>limit.
     bnd (optM (canonIfParent params) (q_if_parent q)) (\<lambda>ifParent.
       ret (Query (q_entity q) columns on where' joins relations order (q_group_by q) limit
         (q_force_index q) (q_lock q) (q_key_by q) (q_flatten q) (q_limit_per_parent q) ifParent
         (q_no_cascade_delete q))))))))))"
| "canonSub params s =
     bnd (canonQuery params False (s_query s)) (\<lambda>q. ret (Subquery q (s_column s) (s_agg s)))"
| "canonGroup params g =
     bnd (mapM (canonItem params) (g_items g)) (\<lambda>items. ret (Group (g_conn g) (g_not g) items))"
| "canonItem params it =
     bnd (optM (canonPred params) (i_pred it)) (\<lambda>p.
     bnd (optM (canonGroup params) (i_group it)) (\<lambda>g.
       ret (Item p g (i_joined it))))"
| "canonPred params p =
     bnd (optM (index params) (p_p p)) (\<lambda>pp.
     bnd (optM (\<lambda>ps. if p_op p \<in> {Some ''in'', Some ''not_in''} \<and> p_sub p = None
            then canonList params ps else ints params ps) (p_ps p)) (\<lambda>ps.
     bnd (optM (canonFn params) (p_fn p)) (\<lambda>f.
     bnd (optM (canonFn params) (p_value p)) (\<lambda>v.
     bnd (optM (canonSub params) (p_sub p)) (\<lambda>s.
       ret (Pred (p_conn p) (p_column p) (p_op p) pp ps (p_ref p) f v (p_cols p) s))))))"
  by pat_completeness auto
termination
proof (relation "measure (\<lambda>x. case x of
         Inl (Inl (params, root, q)) \<Rightarrow> size q
       | Inl (Inr (params, s)) \<Rightarrow> size s
       | Inr (Inl (params, g)) \<Rightarrow> size g
       | Inr (Inr (Inl (params, it))) \<Rightarrow> size it
       | Inr (Inr (Inr (params, p))) \<Rightarrow> size p)", goal_cases)
qed (use ir_size in \<open>auto 4 3\<close>)

declare canonQuery.simps [simp del] canonSub.simps [simp del] canonGroup.simps [simp del]
  canonItem.simps [simp del] canonPred.simps [simp del]

subsection \<open>Requests\<close>

definition canonicalize :: "request \<Rightarrow> 'v pvalue list \<Rightarrow> (request \<times> 'v pvalue list) res" where
  "canonicalize r params =
     (case (bnd (canonQuery params True (rq_query r)) (\<lambda>q.
            bnd (optM (mapM (canonAssignment params)) (rq_set r)) (\<lambda>asg.
            bnd (optM (mapM (canonAssignment params)) (rq_on_duplicate r)) (\<lambda>dup.
            bnd (optM (mapM (ints params)) (rq_rows r)) (\<lambda>rows.
            bnd (optM (\<lambda>opt. bnd (index params (op_p opt)) (\<lambda>p. ret (opt\<lparr>op_p := p\<rparr>))) (rq_optimistic r)) (\<lambda>opt.
              ret (r\<lparr>rq_query := q, rq_set := asg, rq_on_duplicate := dup, rq_rows := rows, rq_optimistic := opt\<rparr>)))))))
           \<lparr>cn_used = replicate (length params) False, cn_out = []\<rparr> of
        Inl e \<Rightarrow> Inl e
      | Inr (out, s) \<Rightarrow>
          let values = cn_out s @ map snd (filter (\<lambda>(i, _). \<not> cn_used s ! i) (enumerate 0 params))
          in Inr (out\<lparr>rq_n_params := int (length values)\<rparr>, values))"

end
