(* ===== verification/Builder.thy ===== *)
theory Builder
  imports Validate
begin

section \<open>The SQL builder and the planner's helpers (\<open>engine/planner.ts\<close>, \<open>engine/params.ts\<close>)\<close>

text \<open>
  The class \<open>Builder\<close> of the planner: the bind slots of one statement in placeholder order, the
  number of its subqueries and the tables it names. Every method that binds a value appends a
  slot and returns the placeholder of its position. The functions before the class
  \<open>Planner\<close> follow it.
\<close>

definition newBuilder :: builder where
  "newBuilder = \<lparr>b_binds = [], b_subs = 0, b_tables = []\<rparr>"

text \<open>\<open>slot\<close>: the defaults of a bind slot.\<close>

definition slot :: "string \<Rightarrow> bindslot" where
  "slot from =
     \<lparr>bs_from = from, bs_param = 0, bs_transform = '''', bs_name = '''', bs_step = 0, bs_column = '''',
      bs_host_styles = [], bs_col_type = '''', bs_key_types = None, bs_precision = None, bs_scale = None,
      bs_length = None, bs_not_null = None\<rparr>"

subsection \<open>The class \<open>Builder\<close>\<close>

definition b_table :: "dialect \<Rightarrow> entity \<Rightarrow> string sql" where
  "b_table d ent =
     bnd (modify (\<lambda>b. b\<lparr>b_tables := List.insert (e_table ent) (b_tables b)\<rparr>))
       (\<lambda>_. ret (d_quote d (e_table ent)))"

definition tables :: "builder \<Rightarrow> string list" where
  "tables b = sort (b_tables b)"

definition push :: "dialect \<Rightarrow> bindslot \<Rightarrow> string sql" where
  "push d s =
     bnd (modify (\<lambda>b. b\<lparr>b_binds := b_binds b @ [s]\<rparr>))
       (\<lambda>_. gets (\<lambda>b. d_placeholder d (length (b_binds b))))"

definition typed :: "dialect \<Rightarrow> bindslot \<Rightarrow> string sql" where
  "typed d s = (if bs_col_type s = '''' then throw (OrmError IR_INVALID) else push d s)"

definition b_param :: "dialect \<Rightarrow> int \<Rightarrow> string \<Rightarrow> string sql" where
  "b_param d i type =
     typed d ((slot ''param'')\<lparr>bs_param := i, bs_col_type := type,
       bs_precision := (if type = ''datetime'' \<or> type = ''time'' then Some 6 else None)\<rparr>)"

definition transformed :: "dialect \<Rightarrow> int \<Rightarrow> string \<Rightarrow> string sql" where
  "transformed d i transform =
     typed d ((slot ''param'')\<lparr>bs_param := i, bs_transform := transform, bs_col_type := ''text''\<rparr>)"

definition colParam :: "dialect \<Rightarrow> int \<Rightarrow> field \<Rightarrow> string \<Rightarrow> string sql" where
  "colParam d i col transform =
     typed d ((slot ''param'')\<lparr>bs_param := i, bs_transform := transform, bs_col_type := f_type col,
       bs_precision := (if f_type col \<in> {''decimal'', ''time'', ''datetime''} then Some (f_precision col) else None),
       bs_scale := (if f_type col = ''decimal'' then Some (f_scale col) else None),
       bs_length := (if f_type col = ''varchar'' then Some (f_length col) else None)\<rparr>)"

definition b_config :: "dialect \<Rightarrow> string \<Rightarrow> string \<Rightarrow> string sql" where
  "b_config d name type = typed d ((slot ''config'')\<lparr>bs_name := name, bs_col_type := type\<rparr>)"

definition b_now :: "dialect \<Rightarrow> nat \<Rightarrow> string sql" where
  "b_now d precision = typed d ((slot ''now'')\<lparr>bs_precision := Some precision, bs_col_type := ''datetime''\<rparr>)"

definition columnIn :: "entity \<Rightarrow> string \<Rightarrow> field res" where
  "columnIn ent name = present (fieldOf ent name)"

definition b_audit :: "dialect \<Rightarrow> entity \<Rightarrow> string sql" where
  "b_audit d ent =
     bnd (lift (columnIn ent (e_auditColumn ent))) (\<lambda>c.
       typed d ((slot ''audit'')\<lparr>bs_name := e_auditRecord ent, bs_col_type := f_type c\<rparr>))"

definition parentList :: "dialect \<Rightarrow> nat \<Rightarrow> string list \<Rightarrow> string sql" where
  "parentList d step keyTypes = push d ((slot ''parent'')\<lparr>bs_step := step, bs_key_types := Some keyTypes\<rparr>)"

text \<open>\<open>b.last().host_styles = host\<close>\<close>

definition setLastHost :: "string list \<Rightarrow> unit sql" where
  "setLastHost host =
     bnd (gets b_binds) (\<lambda>binds.
       if binds = [] then throw JsError
       else modify (\<lambda>b. b\<lparr>b_binds := butlast binds @ [(last binds)\<lparr>bs_host_styles := host\<rparr>]\<rparr>))"

subsection \<open>Functions of the planner\<close>

definition cmp :: "string \<Rightarrow> string res" where
  "cmp op =
     (if op = ''eq'' then Inr ''=''
      else if op = ''not_eq'' then Inr ''!=''
      else if op = ''gt'' then Inr ''>''
      else if op = ''gte'' then Inr ''>=''
      else if op = ''lt'' then Inr ''<''
      else if op = ''lte'' then Inr ''<=''
      else Inl JsError)"

definition indexOf :: "assemble \<Rightarrow> string \<Rightarrow> nat res" where
  "indexOf a name =
     (case find (\<lambda>c. oc_name c = name) (as_columns a) of
        None \<Rightarrow> Inl JsError
      | Some c \<Rightarrow> Inr (oc_index c))"

definition keyRefs :: "assemble \<Rightarrow> string list \<Rightarrow> keyref list res" where
  "keyRefs a columns =
     mapRes (\<lambda>column. bind_res (indexOf a column) (\<lambda>i. Inr \<lparr>kr_column = column, kr_index = i\<rparr>)) columns"

definition isAES :: "field \<Rightarrow> bool" where
  "isAES c \<longleftrightarrow> ''aes'' \<in> set (f_stages c)"

definition assignsAES :: "entity \<Rightarrow> assignment list \<Rightarrow> bool" where
  "assignsAES ent asg \<longleftrightarrow>
     (\<exists>a \<in> set asg. case fieldOf ent (a_column a) of None \<Rightarrow> False | Some c \<Rightarrow> isAES c)"

definition assigned :: "assignment list \<Rightarrow> string \<Rightarrow> bool" where
  "assigned asg column \<longleftrightarrow> (\<exists>a \<in> set asg. a_column a = column)"

definition validateAESAssignments :: "entity \<Rightarrow> assignment list \<Rightarrow> bool \<Rightarrow> unit res" where
  "validateAESAssignments ent asg requireComplete =
     (let version = e_aesVersion ent in
      if version = '''' then Inr ()
      else checks
        [refuse (assigned asg version) IR_INVALID,
         if \<not> requireComplete \<or> \<not> assignsAES ent asg then Inr ()
         else checks (map (\<lambda>col. refuse (isAES col \<and> \<not> assigned asg (f_name col)) IR_INVALID) (e_fields ent))])"

definition allocatedKey :: "entity \<Rightarrow> bool" where
  "allocatedKey ent \<longleftrightarrow> e_keyPrefix ent \<noteq> '''' \<and> length (e_primaryKey ent) = 1"

text \<open>A column an insert may leave out.\<close>

definition omissible :: "entity \<Rightarrow> assignment list \<Rightarrow> bool \<Rightarrow> field \<Rightarrow> bool" where
  "omissible ent asg assigns col \<longleftrightarrow>
     f_nullable col \<or> f_hasDefault col \<or> f_identity col \<or> f_name col = e_aesVersion ent
     \<or> f_name col = e_auditColumn ent \<or> assigned asg (f_name col)
     \<or> assigns \<and> ((allocatedKey ent \<and> e_primaryKey ent \<noteq> [] \<and> f_name col = hd (e_primaryKey ent)) \<or> f_name col = e_order ent)"

definition validateRequiredAssignments :: "entity \<Rightarrow> assignment list \<Rightarrow> bool \<Rightarrow> unit res" where
  "validateRequiredAssignments ent asg assigns =
     checks (map (\<lambda>col. refuse (\<not> omissible ent asg assigns col) IR_INVALID) (e_fields ent))"

text \<open>
  \<open>addBlindIndexAssignments\<close>: the derived assignments, each with the position of its source,
  and the source column of each blind index met so far.
\<close>

definition addBlindIndex ::
    "entity \<Rightarrow> string list \<Rightarrow> (assignment list \<times> nat list \<times> (string \<times> string) list) \<Rightarrow> nat \<times> assignment
      \<Rightarrow> (assignment list \<times> nat list \<times> (string \<times> string) list) res" where
  "addBlindIndex ent explicit acc ia =
     (case (acc, ia) of ((assignments, sources, derived), (i, a)) \<Rightarrow>
        (case fieldOf ent (a_column a) of
           None \<Rightarrow> Inr acc
         | Some col \<Rightarrow>
             if f_blindIndex col = '''' \<or> f_blindIndex col \<in> set explicit then Inr acc
             else (case map_of derived (f_blindIndex col) of
                 Some previous \<Rightarrow> (if previous \<noteq> a_column a then fail IR_INVALID else Inr acc)
               | None \<Rightarrow>
                   Inr (assignments @ [\<lparr>a_column = f_blindIndex col, a_p = a_p a, a_null = a_null a,
                          a_plus_p = None, a_minus_p = None\<rparr>],
                        sources @ [i], map_set (f_blindIndex col) (a_column a) derived))))"

definition addBlindIndexAssignments :: "entity \<Rightarrow> assignment list \<Rightarrow> (assignment list \<times> nat list) res" where
  "addBlindIndexAssignments ent input =
     bind_res (foldRes (addBlindIndex ent (map a_column input))
        (input, [0..<length input], []) (enumerate 0 input))
       (\<lambda>(assignments, sources, _). Inr (assignments, sources))"

definition isBlindIndexTarget :: "entity \<Rightarrow> string \<Rightarrow> bool" where
  "isBlindIndexTarget ent target \<longleftrightarrow> (\<exists>c \<in> set (e_fields ent). f_blindIndex c = target)"

text \<open>\<open>sqlStart\<close>: where the end of the list that \<open>sql\<close> accepts begins.\<close>

definition sqlStart :: "string list \<Rightarrow> (string \<Rightarrow> bool) \<Rightarrow> nat" where
  "sqlStart stages sql = length stages - length (takeWhile sql (rev stages))"

definition styleInputType :: "string \<Rightarrow> string" where
  "styleInputType style = (if style = ''ip'' then ''text'' else ''bytes'')"

definition markAssigned :: "nat \<Rightarrow> field \<Rightarrow> unit sql" where
  "markAssigned start col =
     (if f_nullable col then ret ()
      else modify (\<lambda>b. b\<lparr>b_binds := take start (b_binds b)
        @ map (\<lambda>s. if bs_from s = ''param'' then s\<lparr>bs_not_null := Some True, bs_column := f_name col\<rparr> else s)
            (drop start (b_binds b))\<rparr>))"

function placedJoins :: "group \<Rightarrow> string list" where
  "placedJoins g =
     concat (map (\<lambda>it. (case i_joined it of None \<Rightarrow> [] | Some j \<Rightarrow> [jr_join j])
        @ (case i_group it of None \<Rightarrow> [] | Some g' \<Rightarrow> placedJoins g')) (g_items g))"
  by pat_completeness auto
termination
  by (relation "measure size") (auto intro: ir_size)

declare placedJoins.simps [simp del]

subsection \<open>Types of function results (\<open>params.ts\<close>)\<close>

definition functionType :: "string \<Rightarrow> field option \<Rightarrow> string res" where
  "functionType name f =
     bind_res (orFail f INTERNAL) (\<lambda>f.
       Inr (if name \<in> {''day_of_week'', ''year'', ''month''} then ''i64''
            else if name = ''date'' then ''date''
            else f_type f))"

definition intervalType :: "string \<Rightarrow> string" where
  "intervalType name = (if valueFunctionUnits name = Some ''second'' then ''f64'' else ''i32'')"

subsection \<open>Scopes\<close>

text \<open>
  One entity occurrence of a statement with its alias and its joins, as \<open>buildScopes\<close> makes it;
  a place adds the root of the statement and the place around a subquery. The source reaches
  the root over parent links, and only the root has an outer scope.
\<close>

datatype scope = Scope
  (sc_ent: entity) (sc_alias: string) (sc_q: query) (sc_joins: "(string \<times> scope) list") (sc_extra: "string list")

datatype place = Place (pl_here: scope) (pl_root: scope) (pl_outer: "place option")

function buildScopes :: "runtimemodel \<Rightarrow> query \<Rightarrow> string \<Rightarrow> bool \<Rightarrow> scope res" where
  "buildScopes m q alias hasParent =
     bind_res (present (entityOf m (q_entity q))) (\<lambda>ent.
     bind_res (foldRes (\<lambda>joins j.
         bind_res (buildScopes m (j_query j)
             (if hasParent \<or> alias \<noteq> ''a'' then alias @ ''__'' @ j_rel j else j_rel j) True) (\<lambda>s.
           Inr (map_set (j_rel j) s joins))) [] (orEmpty (q_joins q))) (\<lambda>joins.
       Inr (Scope ent alias q joins [])))"
  by pat_completeness auto
termination
  by (relation "measure (\<lambda>(m, q, _). size q)") (auto intro: ir_size)

declare buildScopes.simps [simp del]

definition joinScope :: "scope \<Rightarrow> string \<Rightarrow> scope res" where
  "joinScope s rel = present (map_of (sc_joins s) rel)"

definition joinedPlace :: "place \<Rightarrow> scope \<Rightarrow> place" where
  "joinedPlace pl js = Place js (pl_root pl) (pl_outer pl)"

definition qcol :: "dialect \<Rightarrow> scope \<Rightarrow> string \<Rightarrow> string" where
  "qcol d s col = d_quote d (sc_alias s) @ ''.'' @ d_quote d col"

definition qualifiedCols :: "dialect \<Rightarrow> scope \<Rightarrow> string list \<Rightarrow> string list" where
  "qualifiedCols d s columns = map (qcol d s) columns"

text \<open>The weight of a scope: what a walk over it can still visit. It bounds every recursion over scopes.\<close>

lemma size_scope_joins: "map_of (sc_joins s) rel = Some js \<Longrightarrow> size js < size s"
proof -
  assume "map_of (sc_joins s) rel = Some js"
  then have "(rel, js) \<in> set (sc_joins s)" by (rule map_of_SomeD)
  from size_list_mem[OF this, of "size_prod (\<lambda>_. 0) size"] show ?thesis
    by (cases s) auto
qed

lemma joinScope_size [ir_size]: "joinScope s rel = Inr js \<Longrightarrow> size js < size s"
  by (auto simp: joinScope_def intro: size_scope_joins)

end
