(* ===== verification/PlanExpr.thy ===== *)
theory PlanExpr
  imports Builder
begin

section \<open>Conditions, joins and subqueries of a statement (\<open>engine/planner.ts\<close>)\<close>

text \<open>
  The methods of the class \<open>Planner\<close> that render the expressions of one statement into SQL text
  while they bind values: columns and values with their codec stages, predicates, groups, joins,
  the order and subqueries. Template literals evaluate from left to right, and so do the binds.

  The loops over \<open>q.joins\<close> read a join's query from its scope, \<open>sc_q js\<close>: \<open>buildScopes\<close> made that
  scope from the same join (\<open>joinScope_query\<close>), as join names are distinct in a validated request.
\<close>

subsection \<open>Codec stages, columns and values\<close>

definition sqlStyles :: "dialect \<Rightarrow> string list \<Rightarrow> string list" where
  "sqlStyles d stages = drop (sqlStart stages (d_handlesStage d)) stages"

definition readSqlStyles :: "dialect \<Rightarrow> string list \<Rightarrow> string list" where
  "readSqlStyles d stages = drop (sqlStart stages (d_decodesStage d)) stages"

definition clientStyles :: "dialect \<Rightarrow> string list \<Rightarrow> string list" where
  "clientStyles d stages = take (sqlStart stages (d_decodesStage d)) stages"

definition readColumn :: "dialect \<Rightarrow> string \<Rightarrow> field \<Rightarrow> string" where
  "readColumn d qualifiedName col =
     (let expr = d_readExpr d qualifiedName (readSqlStyles d (f_stages col)) in
      if f_type col = ''uuid'' then d_readUuid d expr
      else if f_type col = ''time'' then d_readTime d expr (f_precision col)
      else expr)"

definition renderValue :: "dialect \<Rightarrow> field \<Rightarrow> int \<Rightarrow> string sql" where
  "renderValue d col i =
     (let stages = f_stages col;
          host = filter (\<lambda>st. st = ''aes'' \<or> st = ''hex'' \<or> st = ''ip'') (take (sqlStart stages (d_handlesStage d)) stages);
          sql = sqlStyles d stages
      in bnd (if sql = [] then colParam d i col '''' else b_param d i (styleInputType (hd sql))) (\<lambda>ph.
         bnd (setLastHost host) (\<lambda>_.
           ret (if sql = [] \<and> f_type col = ''time'' then d_writeTime d ph
                else if sql = [] \<and> f_type col = ''uuid'' then d_writeUuid d ph
                else d_writeExpr d ph sql))))"

definition renderBlindIndexValue :: "dialect \<Rightarrow> field \<Rightarrow> int \<Rightarrow> string sql" where
  "renderBlindIndexValue d ind i =
     bnd (b_param d i (f_type ind)) (\<lambda>ph.
     bnd (setLastHost [''blind_index'']) (\<lambda>_. ret ph))"

text \<open>The two values of a \<open>between\<close> predicate.\<close>

definition between :: "pred \<Rightarrow> (int \<times> int) res" where
  "between pr = (case orEmpty (p_ps pr) of low # high # _ \<Rightarrow> Inr (low, high) | _ \<Rightarrow> fail IR_INVALID)"

definition resolvePath :: "place \<Rightarrow> string \<Rightarrow> scope res" where
  "resolvePath pl path =
     (if path = ''^'' then bind_res (orFail (pl_outer pl) IR_INVALID) (\<lambda>around. Inr (pl_here around))
      else if path = '''' then Inr (pl_root pl)
      else foldRes (\<lambda>cur seg. orFail (map_of (sc_joins cur) seg) ENTITY_NOT_JOINED)
             (pl_root pl) (splitS CHR ''/'' path))"

definition columnFunction :: "dialect \<Rightarrow> scope \<Rightarrow> string \<Rightarrow> ormfunction \<Rightarrow> string sql" where
  "columnFunction d s column f =
     bnd (d_columnFunction d (fn_name f) (qcol d s column)
            (\<lambda>i. bnd (lift (present (if i < length (orEmpty (fn_ps f)) then Some (orEmpty (fn_ps f) ! i) else None)))
               (\<lambda>p. b_param d p '''')))
       (\<lambda>r. lift (orFail r CAPABILITY_UNSUPPORTED))"

subsection \<open>Predicates without a subquery\<close>

text \<open>
  The rows of a tuple condition: one value per column, row by row; a missing value is an \<open>Error\<close>.
  With no columns and some values the loop over the values never advances.
\<close>

definition renderTuple :: "dialect \<Rightarrow> scope \<Rightarrow> pred \<Rightarrow> string sql" where
  "renderTuple d s pr =
     bnd (lift (present (p_cols pr))) (\<lambda>cols.
     bnd (lift (present (p_ps pr))) (\<lambda>ps.
     if cols = [] \<and> ps \<noteq> [] then throw NoReturn else
     bnd (mapM (\<lambda>row. mapM (\<lambda>(k, name).
              bnd (lift (columnIn (sc_ent s) name)) (\<lambda>col.
              bnd (lift (present (if k < length row then Some (row ! k) else None))) (\<lambda>i.
                renderValue d col i))) (enumerate 0 cols)) (chunks (length cols) ps)) (\<lambda>rows.
       ret (d_tupleIn d (qualifiedCols d s cols) rows (p_op pr = Some ''tuple_not_in'')))))"

definition renderFulltext :: "dialect \<Rightarrow> scope \<Rightarrow> pred \<Rightarrow> string sql" where
  "renderFulltext d s pr =
     bnd (lift (present (p_cols pr))) (\<lambda>cols.
     bnd (d_fulltext d (qualifiedCols d s cols)
            (\<lambda>transform. bnd (lift (present (p_p pr))) (\<lambda>i. transformed d i transform))
            (p_op pr = Some ''fulltext_boolean'')) (\<lambda>sql.
       lift (orFail sql OPERATOR_NOT_ALLOWED)))"

definition renderValuePred :: "dialect \<Rightarrow> scope \<Rightarrow> pred \<Rightarrow> field \<Rightarrow> string \<Rightarrow> ormfunction \<Rightarrow> string sql" where
  "renderValuePred d s pr col lhs f =
     bnd (d_valueFunction d (fn_name f)
            (bnd (lift (present (case orEmpty (fn_ps f) of [] \<Rightarrow> None | p # _ \<Rightarrow> Some p)))
               (\<lambda>p. b_param d p (intervalType (fn_name f))))
            (b_now d 6)) (\<lambda>r.
     bnd (lift (orFail r CAPABILITY_UNSUPPORTED)) (\<lambda>val.
     bnd (lift (cmp (orEmpty (p_op pr)))) (\<lambda>c.
       ret ((if f_type col = ''datetime'' \<and> fn_name f \<noteq> ''today'' then d_clockOperand d lhs (f_precision col) else lhs)
            @ '' '' @ c @ '' '' @ val))))"

definition renderFunctionPred :: "dialect \<Rightarrow> scope \<Rightarrow> pred \<Rightarrow> field \<Rightarrow> string \<Rightarrow> ormfunction \<Rightarrow> string sql" where
  "renderFunctionPred d s pr col column f =
     (let op = orEmpty (p_op pr) in
      bnd (columnFunction d s column f) (\<lambda>fn.
      bnd (lift (functionType (fn_name f) (Some col))) (\<lambda>type.
        if op = ''in'' \<or> op = ''not_in'' then
          bnd (mapM (\<lambda>i. b_param d i type) (orEmpty (p_ps pr))) (\<lambda>values.
            ret (fn @ (if op = ''not_in'' then '' NOT IN '' else '' IN '') @ ''('' @ joinS '', '' values @ '')''))
        else if op = ''between'' then
          bnd (lift (between pr)) (\<lambda>(low, high).
          bnd (b_param d low type) (\<lambda>a.
          bnd (b_param d high type) (\<lambda>b.
            ret (fn @ '' BETWEEN '' @ a @ '' AND '' @ b))))
        else
          bnd (lift (cmp op)) (\<lambda>c.
          bnd (lift (present (p_p pr))) (\<lambda>p.
          bnd (b_param d p type) (\<lambda>ph.
            ret (fn @ '' '' @ c @ '' '' @ ph)))))))"

text \<open>The blind index column an AES column is compared through.\<close>

definition blindIndexColumn :: "scope \<Rightarrow> field \<Rightarrow> field res" where
  "blindIndexColumn s col =
     (if f_blindIndex col = '''' then fail IR_INVALID else columnIn (sc_ent s) (f_blindIndex col))"

definition renderColumnPred :: "dialect \<Rightarrow> place \<Rightarrow> pred \<Rightarrow> field \<Rightarrow> string \<Rightarrow> string sql" where
  "renderColumnPred d pl pr col lhs =
     (let op = orEmpty (p_op pr); s = pl_here pl in
      if op \<in> set compareOps then
        (if isAES col then
           (if op \<noteq> ''eq'' \<and> op \<noteq> ''not_eq'' then throw (OrmError OPERATOR_NOT_ALLOWED)
            else
              bnd (lift (blindIndexColumn s col)) (\<lambda>ind.
              bnd (lift (cmp op)) (\<lambda>c.
              bnd (lift (present (p_p pr))) (\<lambda>p.
              bnd (renderBlindIndexValue d ind p) (\<lambda>v.
                ret (qcol d s (f_blindIndex col) @ '' '' @ c @ '' '' @ v))))))
         else
           bnd (lift (cmp op)) (\<lambda>c.
           bnd (lift (present (p_p pr))) (\<lambda>p.
           bnd (renderValue d col p) (\<lambda>v.
             ret (lhs @ '' '' @ c @ '' '' @ v)))))
      else if op \<in> set columnOps then
        bnd (lift (present (p_ref pr))) (\<lambda>r.
        bnd (lift (resolvePath pl (orEmpty (ref_path r)))) (\<lambda>rs.
        bnd (lift (orFail (fieldOf (sc_ent rs) (ref_column r)) COLUMN_UNKNOWN)) (\<lambda>_.
        bnd (lift (cmp (take (length op - 4) op))) (\<lambda>c.
          ret (lhs @ '' '' @ c @ '' '' @ qcol d rs (ref_column r))))))
      else if op = ''in'' \<or> op = ''not_in'' then
        bnd (if isAES col then
               bnd (lift (if f_blindIndex col = '''' then fail IR_INVALID else Inr ())) (\<lambda>_.
               bnd (mapM (\<lambda>i. bnd (lift (columnIn (sc_ent s) (f_blindIndex col))) (\<lambda>ind.
                      renderBlindIndexValue d ind i)) (orEmpty (p_ps pr))) (\<lambda>values.
                 ret (qcol d s (f_blindIndex col), values)))
             else bnd (mapM (renderValue d col) (orEmpty (p_ps pr))) (\<lambda>values. ret (lhs, values))) (\<lambda>(lhs', values).
          ret (lhs' @ '' '' @ (if op = ''not_in'' then ''NOT IN'' else ''IN'') @ '' ('' @ joinS '', '' values @ '')''))
      else if op = ''between'' then
        bnd (lift (between pr)) (\<lambda>(low, high).
        bnd (renderValue d col low) (\<lambda>a.
        bnd (renderValue d col high) (\<lambda>b.
          ret (lhs @ '' BETWEEN '' @ a @ '' AND '' @ b))))
      else if op = ''is_null'' then ret (lhs @ '' IS NULL'')
      else if op = ''is_not_null'' then ret (lhs @ '' IS NOT NULL'')
      else if op = ''contains'' then
        bnd (lift (present (p_p pr))) (\<lambda>p.
        bnd (colParam d p col ''like_contains'') (\<lambda>ph. ret (d_like d lhs ph)))
      else if op = ''contains_binary'' then
        d_containsBinary d lhs (\<lambda>transform. bnd (lift (present (p_p pr))) (\<lambda>p. colParam d p col transform))
      else throw (OrmError OPERATOR_UNKNOWN))"

subsection \<open>The order\<close>

definition renderOrderItem :: "dialect \<Rightarrow> scope \<Rightarrow> order \<Rightarrow> string sql" where
  "renderOrderItem d s ord =
     (if isTrue (o_random ord) then ret (d_random d)
      else
        bnd (lift (present (o_column ord))) (\<lambda>column.
        bnd (case o_fn ord of None \<Rightarrow> ret (qcol d s column) | Some f \<Rightarrow> columnFunction d s column f) (\<lambda>target.
        bnd (lift (columnIn (sc_ent s) column)) (\<lambda>col.
          ret (target @ (if isTrue (o_desc ord) then '' DESC'' else '' ASC'')
            @ (if f_nullable col then d_nullsOrder d (isTrue (o_desc ord)) else ''''))))))"

function orderParts :: "dialect \<Rightarrow> scope \<Rightarrow> string list sql" where
  "orderParts d s =
     bnd (mapM (renderOrderItem d s) (orEmpty (q_order (sc_q s)))) (\<lambda>own.
     bnd (mapM (\<lambda>j. bnd (lift (joinScope s (j_rel j))) (\<lambda>js. orderParts d js)) (orEmpty (q_joins (sc_q s)))) (\<lambda>joined.
       ret (own @ concat joined)))"
  by pat_completeness auto
termination
  by (relation "measure (\<lambda>(d, s). size s)") (auto simp: st_simps intro: ir_size)

declare orderParts.simps [simp del]

definition renderOrder :: "dialect \<Rightarrow> scope \<Rightarrow> string sql" where
  "renderOrder d root =
     bnd (orderParts d root) (\<lambda>parts.
       ret (if parts = [] then '''' else '' ORDER BY '' @ joinS '', '' parts))"

end
