(* ===== verification/PlanCond.thy ===== *)
theory PlanCond
  imports PlanExpr
begin

section \<open>Groups, joins and subqueries of a statement (\<open>engine/planner.ts\<close>)\<close>

text \<open>
  The mutually recursive renderers of the planner: a group renders its predicates, its groups and
  the conditions of the joins it places; a predicate may hold a subquery, which is a statement of
  its own with joins and conditions. The recursion follows groups and predicates into subqueries
  and scopes into joins; the weight of a scope below counts the conditions a walk over it can
  still meet, and a scope that \<open>buildScopes\<close> makes weighs no more than its query.
\<close>

subsection \<open>The weight of a scope\<close>

definition groupSize :: "group option \<Rightarrow> nat" where
  "groupSize g = (case g of None \<Rightarrow> 0 | Some g' \<Rightarrow> size g')"

definition relationsSize :: "query \<Rightarrow> nat" where
  "relationsSize q = (\<Sum>r \<leftarrow> orEmpty (q_relations q). size (r_query r))"

fun weight :: "scope \<Rightarrow> nat" where
  "weight (Scope ent alias q joins extra) =
     Suc (groupSize (q_where q) + groupSize (q_on q) + relationsSize q + (\<Sum>(rel, js) \<leftarrow> joins. weight js))"

definition joinsWeight :: "scope \<Rightarrow> nat" where
  "joinsWeight s = (\<Sum>(rel, js) \<leftarrow> sc_joins s. weight js)"

lemma weight_eq:
  "weight s = Suc (groupSize (q_where (sc_q s)) + groupSize (q_on (sc_q s)) + relationsSize (sc_q s) + joinsWeight s)"
  by (cases s) (simp add: joinsWeight_def)

lemma joinScope_weight: "joinScope s rel = Inr js \<Longrightarrow> weight js \<le> joinsWeight s"
proof -
  assume "joinScope s rel = Inr js"
  then have "(rel, js) \<in> set (sc_joins s)" by (auto simp: joinScope_def dest: map_of_SomeD)
  then have "weight js \<in> set (map (\<lambda>(rel, js). weight js) (sc_joins s))" by force
  then show ?thesis unfolding joinsWeight_def by (rule member_le_sum_list) simp
qed

lemma size_query_parts:
  "Suc (groupSize (q_where q) + groupSize (q_on q) + relationsSize q
     + (\<Sum>j \<leftarrow> orEmpty (q_joins q). size (j_query j))) \<le> size q"
proof -
  have "size (j_query j) \<le> size j" for j by (cases j) simp
  then have J: "(\<Sum>j \<leftarrow> js. size (j_query j)) \<le> size_list size js" for js
    by (induction js) (auto intro!: le_SucI add_mono)
  have "size (r_query r) \<le> size r" for r by (cases r) simp
  then have R: "(\<Sum>r \<leftarrow> rs. size (r_query r)) \<le> size_list size rs" for rs
    by (induction rs) (auto intro!: le_SucI add_mono)
  show ?thesis
    using J[of "orEmpty (q_joins q)"] R[of "orEmpty (q_relations q)"]
    by (cases q) (auto simp: groupSize_def relationsSize_def orEmpty_def split: option.splits)
qed

lemma foldRes_joins_weight:
  assumes "foldRes (\<lambda>joins j. bind_res (f j) (\<lambda>s. Inr (map_set (j_rel j) s joins))) acc js = Inr out"
    and "\<And>j s. j \<in> set js \<Longrightarrow> f j = Inr s \<Longrightarrow> weight s \<le> w j"
  shows "(\<Sum>(rel, s) \<leftarrow> out. weight s) \<le> (\<Sum>(rel, s) \<leftarrow> acc. weight s) + (\<Sum>j \<leftarrow> js. w j)"
  using assms
proof (induction js arbitrary: acc)
  case (Cons j js)
  then obtain s where s: "f j = Inr s"
    and out: "foldRes (\<lambda>joins j. bind_res (f j) (\<lambda>s. Inr (map_set (j_rel j) s joins))) (map_set (j_rel j) s acc) js = Inr out"
    by (auto simp: res_simps)
  have "(\<Sum>(rel, s) \<leftarrow> out. weight s) \<le> (\<Sum>(rel, s) \<leftarrow> map_set (j_rel j) s acc. weight s) + (\<Sum>j \<leftarrow> js. w j)"
    using Cons.IH[OF out] Cons.prems(2) by simp
  also have "(\<Sum>(rel, s) \<leftarrow> map_set (j_rel j) s acc. weight s) \<le> (\<Sum>(rel, s) \<leftarrow> acc. weight s) + weight s"
    by (rule sum_list_map_set)
  finally show ?case using Cons.prems(2)[OF _ s] by simp
qed simp

lemma buildScopes_weight: "buildScopes m q al h = Inr s \<Longrightarrow> weight s \<le> size q"
proof (induction m q al h arbitrary: s rule: buildScopes.induct)
  case (1 m q al h)
  obtain ent joins where ent: "entityOf m (q_entity q) = Some ent" and s: "s = Scope ent al q joins []"
    and J: "foldRes (\<lambda>joins j.
         bind_res (buildScopes m (j_query j) (if h \<or> al \<noteq> ''a'' then al @ ''__'' @ j_rel j else j_rel j) True) (\<lambda>s.
           Inr (map_set (j_rel j) s joins))) [] (orEmpty (q_joins q)) = Inr joins"
    using 1(2) by (subst (asm) buildScopes.simps) (auto simp: res_simps)
  have "(\<Sum>(rel, s) \<leftarrow> joins. weight s) \<le> (\<Sum>(rel, s) \<leftarrow> ([] :: (string \<times> scope) list). weight s) + (\<Sum>j \<leftarrow> orEmpty (q_joins q). size (j_query j))"
    by (rule foldRes_joins_weight[OF J]) (use 1(1) ent in auto)
  with size_query_parts[of q] show ?case by (simp add: s)
qed

subsection \<open>The renderers\<close>

text \<open>The texts of the items of a group, joined by their connections; the first has none.\<close>

definition joinItems :: "(string \<times> string) list \<Rightarrow> string" where
  "joinItems parts =
     joinS '' '' (concat (map (\<lambda>(i, conn, text).
       if i > 0 then [if conn = ''or'' then ''OR'' else ''AND'', text] else [text]) (enumerate (0::nat) parts)))"

definition groupText :: "group \<Rightarrow> bool \<Rightarrow> (string \<times> string) list \<Rightarrow> string" where
  "groupText g atTop parts =
     (let out = joinItems parts; grouped = (if atTop then out else ''('' @ out @ '')'') in
      if isTrue (g_not g) then ''NOT '' @ grouped else grouped)"

text \<open>\<open>q.where && q.where.items.length > 0\<close>\<close>

definition nonempty :: "group option \<Rightarrow> group option" where
  "nonempty g = (case g of None \<Rightarrow> None | Some g' \<Rightarrow> if g_items g' = [] then None else Some g')"

definition renderPlainPred :: "dialect \<Rightarrow> place \<Rightarrow> pred \<Rightarrow> field \<Rightarrow> string \<Rightarrow> string sql" where
  "renderPlainPred d pl pr col column =
     (let s = pl_here pl; lhs = qcol d s column in
      case p_value pr of
        Some f \<Rightarrow> renderValuePred d s pr col lhs f
      | None \<Rightarrow>
         (case p_fn pr of
            Some f \<Rightarrow> renderFunctionPred d s pr col column f
          | None \<Rightarrow> renderColumnPred d pl pr col lhs))"

text \<open>The select list of a subquery.\<close>

definition subHead :: "dialect \<Rightarrow> scope \<Rightarrow> subquery \<Rightarrow> string res" where
  "subHead d root sub =
     (let agg = orEmpty (s_agg sub) in
      if agg = ''count'' then Inr ''COUNT(*)''
      else bind_res (present (s_column sub)) (\<lambda>column.
        Inr (if agg = ''sum'' then ''COALESCE(SUM('' @ qcol d root column @ ''), 0)''
             else if agg = ''avg'' then ''AVG('' @ qcol d root column @ '')''
             else qcol d root column)))"

text \<open>A literal page limit; a member the request leaves out prints as \<open>undefined\<close>.\<close>

definition limitText :: "int option \<Rightarrow> string" where
  "limitText x = (case x of None \<Rightarrow> ''undefined'' | Some i \<Rightarrow> show_int i)"

definition subTail :: "dialect \<Rightarrow> scope \<Rightarrow> subquery \<Rightarrow> string sql" where
  "subTail d root sub =
     (case q_limit (s_query sub) of
        None \<Rightarrow> ret ''''
      | Some l \<Rightarrow>
          if orEmpty (s_agg sub) \<noteq> '''' then ret ''''
          else if l_offset_p l \<noteq> None \<or> l_count_p l \<noteq> None then throw (OrmError IR_INVALID)
          else bnd (renderOrder d root) (\<lambda>order.
            ret (order @ d_limit d (limitText (l_offset l)) (limitText (l_count l)))))"

text \<open>The part of a join before its own conditions.\<close>

definition joinHead :: "dialect \<Rightarrow> scope \<Rightarrow> scope \<Rightarrow> join \<Rightarrow> string sql" where
  "joinHead d s js j =
     bnd (lift (present (j_left j))) (\<lambda>left.
     bnd (lift (present (j_right j))) (\<lambda>right.
     bnd (b_table d (sc_ent js)) (\<lambda>table.
       let soft = e_softDelete (sc_ent js); index = orEmpty (q_force_index (sc_q js));
           conditions = [qcol d s left @ '' = '' @ qcol d js right]
             @ (if soft \<noteq> '''' then [qcol d js soft @ '' IS NULL''] else [])
       in ret ((if j_kind j = ''left'' then '' LEFT JOIN '' else '' INNER JOIN '') @ table @ '' AS '' @ d_quote d (sc_alias js)
         @ (if index \<noteq> '''' then d_forceIndex d index else '''')
         @ '' ON '' @ joinS '' AND '' conditions))))"

definition whereText :: "string list \<Rightarrow> string" where
  "whereText where' = (if where' = [] then '''' else '' WHERE '' @ joinS '' AND '' where')"

definition softDeleteGuard :: "dialect \<Rightarrow> scope \<Rightarrow> string list" where
  "softDeleteGuard d root =
     (if e_softDelete (sc_ent root) \<noteq> '''' then [qcol d root (e_softDelete (sc_ent root)) @ '' IS NULL''] else [])"

lemma nonempty_Some: "nonempty g = Some g' \<Longrightarrow> g = Some g' \<and> g_items g' \<noteq> []"
  by (auto simp: nonempty_def split: option.splits if_splits)

lemma weight_where: "q_where (sc_q s) = Some g \<Longrightarrow> size g + joinsWeight s < weight s"
  and weight_on: "q_on (sc_q s) = Some g \<Longrightarrow> size g + joinsWeight s < weight s"
  and weight_joins: "joinsWeight s < weight s"
  by (simp_all add: weight_eq groupSize_def)

lemmas joinScope_where = less_le_trans[OF weight_where joinScope_weight]
  and joinScope_on = less_le_trans[OF weight_on joinScope_weight]
  and joinScope_joins = less_le_trans[OF weight_joins joinScope_weight]
  and subScope_joins = le_less_trans[OF less_imp_le[OF less_le_trans[OF weight_joins buildScopes_weight]] size_sub_query]
  and subScope_where = le_less_trans[OF less_imp_le[OF less_le_trans[OF weight_where buildScopes_weight]] size_sub_query]

lemma buildScopes_query: "buildScopes m q al h = Inr s \<Longrightarrow> sc_q s = q"
  by (subst (asm) buildScopes.simps) (auto simp: res_simps)

lemma subScope_own:
  "buildScopes m (s_query sb) al h = Inr root \<Longrightarrow> q_where (s_query sb) = Some g \<Longrightarrow> size g + joinsWeight root < size sb"
  using subScope_where[of root g m sb al h] buildScopes_query by auto

lemma joinedPlace_here [simp]: "pl_here (joinedPlace pl js) = js"
  by (simp add: joinedPlace_def)

function renderGroup :: "runtimemodel \<Rightarrow> dialect \<Rightarrow> place \<Rightarrow> group \<Rightarrow> bool \<Rightarrow> string sql"
  and renderPred :: "runtimemodel \<Rightarrow> dialect \<Rightarrow> place \<Rightarrow> pred \<Rightarrow> string sql"
  and subSelect :: "runtimemodel \<Rightarrow> dialect \<Rightarrow> place \<Rightarrow> subquery \<Rightarrow> string sql"
  and renderJoins :: "runtimemodel \<Rightarrow> dialect \<Rightarrow> place \<Rightarrow> string sql"
  and collectJoinWhere :: "runtimemodel \<Rightarrow> dialect \<Rightarrow> place \<Rightarrow> string list sql"
where
  "renderGroup m d pl g atTop =
     bnd (mapM (\<lambda>it.
        bnd (case i_pred it of
            Some p \<Rightarrow> renderPred m d pl p
          | None \<Rightarrow>
             (case i_group it of
                Some g' \<Rightarrow> renderGroup m d pl g' False
              | None \<Rightarrow>
                  bnd (lift (present (i_joined it))) (\<lambda>joined.
                  bnd (lift (joinScope (pl_here pl) (jr_join joined))) (\<lambda>js.
                  bnd (lift (present (q_where (sc_q js)))) (\<lambda>g'.
                    renderGroup m d (joinedPlace pl js) g' False)))))
        (\<lambda>text. ret (itemConn it, text))) (g_items g)) (\<lambda>parts.
       ret (groupText g atTop parts))"
| "renderPred m d pl pr =
     (let op = orEmpty (p_op pr); s = pl_here pl in
      if op = ''tuple_in'' \<or> op = ''tuple_not_in'' then renderTuple d s pr
      else if op = ''fulltext'' \<or> op = ''fulltext_boolean'' then renderFulltext d s pr
      else
        bnd (lift (present (p_column pr))) (\<lambda>column.
        bnd (lift (if p_fn pr \<noteq> None then orFail (fieldOf (sc_ent s) column) INTERNAL else columnIn (sc_ent s) column)) (\<lambda>col.
          case p_sub pr of
            Some sub \<Rightarrow>
              bnd (subSelect m d pl sub) (\<lambda>sql.
                ret (qcol d s column @ (if op = ''not_in'' then '' NOT IN '' else '' IN '') @ ''('' @ sql @ '')''))
          | None \<Rightarrow> renderPlainPred d pl pr col column)))"
| "subSelect m d pl sub =
     bnd (modify (\<lambda>b. b\<lparr>b_subs := b_subs b + 1\<rparr>)) (\<lambda>_.
     bnd (gets b_subs) (\<lambda>subs.
     bnd (lift (buildScopes m (s_query sub) (''s'' @ show_nat subs) False)) (\<lambda>root.
     bnd (lift (subHead d root sub)) (\<lambda>head.
     bnd (b_table d (sc_ent root)) (\<lambda>table.
     bnd (renderJoins m d (Place root root (Some pl))) (\<lambda>joins.
     bnd (case nonempty (q_where (s_query sub)) of
            None \<Rightarrow> ret []
          | Some g \<Rightarrow> bnd (renderGroup m d (Place root root (Some pl)) g True) (\<lambda>text. ret [text])) (\<lambda>own.
     bnd (collectJoinWhere m d (Place root root (Some pl))) (\<lambda>joined.
     bnd (subTail d root sub) (\<lambda>tail.
       ret (''SELECT '' @ head @ '' FROM '' @ table @ '' AS '' @ d_quote d (sc_alias root) @ joins
         @ whereText (softDeleteGuard d root @ own @ joined) @ tail))))))))))"
| "renderJoins m d pl =
     bnd (mapM (\<lambda>j.
        bnd (lift (joinScope (pl_here pl) (j_rel j))) (\<lambda>js.
        bnd (joinHead d (pl_here pl) js j) (\<lambda>head.
        bnd (case nonempty (q_on (sc_q js)) of
               None \<Rightarrow> ret ''''
             | Some g \<Rightarrow> bnd (renderGroup m d (joinedPlace pl js) g True) (\<lambda>text. ret ('' AND '' @ text))) (\<lambda>on.
        bnd (renderJoins m d (joinedPlace pl js)) (\<lambda>below.
          ret (head @ on @ below)))))) (orEmpty (q_joins (sc_q (pl_here pl))))) (\<lambda>parts.
       ret (concat parts))"
| "collectJoinWhere m d pl =
     bnd (mapM (\<lambda>j.
        bnd (lift (joinScope (pl_here pl) (j_rel j))) (\<lambda>js.
        bnd (if j_rel j \<in> set (case q_where (sc_q (pl_here pl)) of None \<Rightarrow> [] | Some g \<Rightarrow> placedJoins g) then ret []
             else case nonempty (q_where (sc_q js)) of
               None \<Rightarrow> ret []
             | Some g \<Rightarrow> bnd (renderGroup m d (joinedPlace pl js) g False) (\<lambda>text. ret [text])) (\<lambda>own.
        bnd (collectJoinWhere m d (joinedPlace pl js)) (\<lambda>below.
          ret (own @ below))))) (orEmpty (q_joins (sc_q (pl_here pl))))) (\<lambda>parts.
        ret (concat parts))"
  by pat_completeness auto

termination
proof (relation "measure (\<lambda>x. case x of
         Inl (Inl (m, d, pl, g, atTop)) \<Rightarrow> size g + joinsWeight (pl_here pl)
       | Inl (Inr (m, d, pl, pr)) \<Rightarrow> size pr
       | Inr (Inl (m, d, pl, sub)) \<Rightarrow> size sub
       | Inr (Inr (Inl (m, d, pl))) \<Rightarrow> joinsWeight (pl_here pl)
       | Inr (Inr (Inr (m, d, pl))) \<Rightarrow> joinsWeight (pl_here pl))", goal_cases)
qed (auto simp: lift_Inr_iff buildScopes_query dest!: nonempty_Some
       intro: size_group_pred size_group_group size_pred_sub joinScope_joins trans_less_add1 trans_less_add2 joinScope_where
         joinScope_on subScope_joins subScope_where)

declare renderGroup.simps [simp del] renderPred.simps [simp del] subSelect.simps [simp del]
  renderJoins.simps [simp del] collectJoinWhere.simps [simp del]

subsection \<open>Induction over the renderers\<close>

text \<open>
  The induction rule of the five renderers, in terms of the parts of a request and the scopes
  they meet. Every property of the rendered conditions below is proved by it.
\<close>

lemma render_induct:
  fixes PG :: "place \<Rightarrow> group \<Rightarrow> bool \<Rightarrow> bool" and PP PS PJ PC
  assumes group: "\<And>pl g t.
      (\<And>it p. it \<in> set (g_items g) \<Longrightarrow> i_pred it = Some p \<Longrightarrow> PP pl p) \<Longrightarrow>
      (\<And>it g'. it \<in> set (g_items g) \<Longrightarrow> i_group it = Some g' \<Longrightarrow> PG pl g' False) \<Longrightarrow>
      (\<And>it j js g'. it \<in> set (g_items g) \<Longrightarrow> i_joined it = Some j \<Longrightarrow> joinScope (pl_here pl) (jr_join j) = Inr js \<Longrightarrow>
         q_where (sc_q js) = Some g' \<Longrightarrow> PG (joinedPlace pl js) g' False) \<Longrightarrow> PG pl g t"
    and pred: "\<And>pl pr. (\<And>sub. p_sub pr = Some sub \<Longrightarrow> PS pl sub) \<Longrightarrow> PP pl pr"
    and sub: "\<And>pl sub.
      (\<And>al root. buildScopes m (s_query sub) al False = Inr root \<Longrightarrow> PJ (Place root root (Some pl))) \<Longrightarrow>
      (\<And>al root g. buildScopes m (s_query sub) al False = Inr root \<Longrightarrow> q_where (s_query sub) = Some g \<Longrightarrow>
         PG (Place root root (Some pl)) g True) \<Longrightarrow>
      (\<And>al root. buildScopes m (s_query sub) al False = Inr root \<Longrightarrow> PC (Place root root (Some pl))) \<Longrightarrow> PS pl sub"
    and joins: "\<And>pl.
      (\<And>rel js g. joinScope (pl_here pl) rel = Inr js \<Longrightarrow> q_on (sc_q js) = Some g \<Longrightarrow> PG (joinedPlace pl js) g True) \<Longrightarrow>
      (\<And>rel js. joinScope (pl_here pl) rel = Inr js \<Longrightarrow> PJ (joinedPlace pl js)) \<Longrightarrow> PJ pl"
    and collect: "\<And>pl.
      (\<And>rel js g. joinScope (pl_here pl) rel = Inr js \<Longrightarrow> q_where (sc_q js) = Some g \<Longrightarrow> PG (joinedPlace pl js) g False) \<Longrightarrow>
      (\<And>rel js. joinScope (pl_here pl) rel = Inr js \<Longrightarrow> PC (joinedPlace pl js)) \<Longrightarrow> PC pl"
  shows "PG pl g t" and "PP pl pr" and "PS pl sb" and "PJ pl" and "PC pl"
proof -
  have "(\<forall>pl g t. size g + joinsWeight (pl_here pl) = N \<longrightarrow> PG pl g t) \<and> (\<forall>pl pr. size pr = N \<longrightarrow> PP pl pr)
    \<and> (\<forall>pl sb. size sb = N \<longrightarrow> PS pl sb) \<and> (\<forall>pl. joinsWeight (pl_here pl) = N \<longrightarrow> PJ pl)
    \<and> (\<forall>pl. joinsWeight (pl_here pl) = N \<longrightarrow> PC pl)" for N
  proof (induction N rule: less_induct)
    case (less N)
    then have G: "size g + joinsWeight (pl_here pl) < N \<Longrightarrow> PG pl g t" and P: "size pr < N \<Longrightarrow> PP pl pr"
      and S: "size sb < N \<Longrightarrow> PS pl sb" and J: "joinsWeight (pl_here pl) < N \<Longrightarrow> PJ pl"
      and C: "joinsWeight (pl_here pl) < N \<Longrightarrow> PC pl" for pl g t pr sb
      by blast+
    show ?case
    proof (intro conjI allI impI)
      fix pl :: place and g :: group and t assume N: "size g + joinsWeight (pl_here pl) = N"
      show "PG pl g t" by (rule group) (use N in \<open>auto intro!: P G dest: size_group_pred size_group_group joinScope_where\<close>)
    next
      fix pl :: place and pr :: pred assume N: "size pr = N"
      show "PP pl pr" by (rule pred) (use N in \<open>auto intro!: S dest: size_pred_sub\<close>)
    next
      fix pl :: place and sb :: subquery assume N: "size sb = N"
      show "PS pl sb" by (rule sub) (use N in \<open>auto intro!: J G C dest: subScope_joins subScope_own\<close>)
    next
      fix pl :: place assume N: "joinsWeight (pl_here pl) = N"
      show "PJ pl" by (rule joins) (use N in \<open>auto intro!: G J dest: joinScope_on joinScope_joins\<close>)
    next
      fix pl :: place assume N: "joinsWeight (pl_here pl) = N"
      show "PC pl" by (rule collect) (use N in \<open>auto intro!: G C dest: joinScope_where joinScope_joins\<close>)
    qed
  qed
  then show "PG pl g t" "PP pl pr" "PS pl sb" "PJ pl" "PC pl" by blast+
qed

subsection \<open>Joins and their scopes\<close>

text \<open>With distinct join names, the scope of a join was made from that join's query.\<close>

lemma foldRes_joins_scope:
  assumes "foldRes (\<lambda>joins j. bind_res (f j) (\<lambda>s. Inr (map_set (j_rel j) s joins))) acc js = Inr out"
    and "distinct (map j_rel js)"
  shows "(\<forall>j \<in> set js. \<exists>s. f j = Inr s \<and> map_of out (j_rel j) = Some s)
    \<and> (\<forall>rel. rel \<notin> j_rel ` set js \<longrightarrow> map_of out rel = map_of acc rel)"
  using assms
proof (induction js arbitrary: acc)
  case (Cons j js)
  then obtain s where "f j = Inr s"
    and "foldRes (\<lambda>joins j. bind_res (f j) (\<lambda>s. Inr (map_set (j_rel j) s joins))) (map_set (j_rel j) s acc) js = Inr out"
    by (auto simp: res_simps)
  with Cons.IH[of "map_set (j_rel j) s acc"] Cons.prems(2) show ?case by auto
qed simp

lemma joinScope_query:
  assumes "buildScopes m q al h = Inr s" and "distinct (map j_rel (orEmpty (q_joins q)))"
    and "j \<in> set (orEmpty (q_joins q))"
  shows "\<exists>js. joinScope s (j_rel j) = Inr js \<and> sc_q js = j_query j"
proof -
  obtain ent joins where s: "s = Scope ent al q joins []"
    and J: "foldRes (\<lambda>joins j.
         bind_res (buildScopes m (j_query j) (if h \<or> al \<noteq> ''a'' then al @ ''__'' @ j_rel j else j_rel j) True) (\<lambda>s.
           Inr (map_set (j_rel j) s joins))) [] (orEmpty (q_joins q)) = Inr joins"
    using assms(1) by (subst (asm) buildScopes.simps) (auto simp: res_simps)
  from foldRes_joins_scope[OF J assms(2)] assms(3) s show ?thesis
    by (auto simp: joinScope_def dest!: bspec[of _ _ j] buildScopes_query)
qed

end
