(* ===== verification/PlanWrite.thy ===== *)
theory PlanWrite
  imports PlanCond
begin

section \<open>Statements that write (\<open>engine/planner.ts\<close>)\<close>

text \<open>
  Inserts, updates, deletes, restores and the restart of an identity. A step is a computation
  over a new builder; \<open>Planner.assigns\<close>, which says that the database assigns keys and order
  positions, is an argument.
\<close>

subsection \<open>Assignments\<close>

definition renderAssign :: "dialect \<Rightarrow> entity \<Rightarrow> field \<Rightarrow> assignment \<Rightarrow> string sql" where
  "renderAssign d ent col a =
     (let q = d_quote d (e_table ent) @ ''.'' @ d_quote d (f_name col) in
      if isBlindIndexTarget ent (f_name col) then
        (if a_plus_p a \<noteq> None \<or> a_minus_p a \<noteq> None then throw (OrmError IR_INVALID)
         else if isTrue (a_null a) then ret ''NULL''
         else
           bnd (gets (\<lambda>b. length (b_binds b))) (\<lambda>start.
           bnd (lift (present (a_p a))) (\<lambda>p.
           bnd (renderBlindIndexValue d col p) (\<lambda>sql.
           bnd (markAssigned start col) (\<lambda>_. ret sql)))))
      else case a_plus_p a of
        Some p \<Rightarrow> bnd (colParam d p col '''') (\<lambda>ph. ret (q @ '' + '' @ ph))
      | None \<Rightarrow>
         (case a_minus_p a of
            Some p \<Rightarrow>
              bnd (colParam d p col '''') (\<lambda>ph.
              bnd (colParam d p col '''') (\<lambda>ph'.
                ret (''CASE WHEN '' @ q @ '' > '' @ ph @ '' THEN '' @ q @ '' - '' @ ph' @ '' ELSE 0 END'')))
          | None \<Rightarrow>
              if isTrue (a_null a) then ret ''NULL''
              else
                bnd (gets (\<lambda>b. length (b_binds b))) (\<lambda>start.
                bnd (lift (present (a_p a))) (\<lambda>p.
                bnd (renderValue d col p) (\<lambda>sql.
                bnd (markAssigned start col) (\<lambda>_. ret sql))))))"

definition clock :: "dialect \<Rightarrow> field \<Rightarrow> string sql" where
  "clock d col = (if d_hostNow d then b_now d (f_precision col) else ret (d_now d (f_precision col)))"

definition auditAssignment :: "dialect \<Rightarrow> entity \<Rightarrow> string list sql" where
  "auditAssignment d ent =
     (if e_auditColumn ent = '''' then ret []
      else bnd (b_audit d ent) (\<lambda>ph. ret [d_quote d (e_auditColumn ent) @ '' = '' @ ph]))"

text \<open>\<open>quote(column) = value\<close> for each assignment, in order.\<close>

definition renderSets :: "dialect \<Rightarrow> entity \<Rightarrow> assignment list \<Rightarrow> string list sql" where
  "renderSets d ent asg =
     mapM (\<lambda>a. bnd (lift (columnIn ent (a_column a))) (\<lambda>col.
       bnd (renderAssign d ent col a) (\<lambda>v. ret (d_quote d (a_column a) @ '' = '' @ v)))) asg"

text \<open>The assignment of the AES key version, when \<open>condition\<close> holds.\<close>

definition versionAssignment :: "dialect \<Rightarrow> entity \<Rightarrow> bool \<Rightarrow> string list sql" where
  "versionAssignment d ent condition =
     (if e_aesVersion ent \<noteq> '''' \<and> condition then
        bnd (lift (columnIn ent (e_aesVersion ent))) (\<lambda>c.
        bnd (b_config d ''aes_version'' (f_type c)) (\<lambda>ph.
          ret [d_quote d (e_aesVersion ent) @ '' = '' @ ph]))
      else ret [])"

subsection \<open>Inserts\<close>

definition managedInsertColumns :: "dialect \<Rightarrow> entity \<Rightarrow> assignment list \<Rightarrow> (string \<times> string sql) list" where
  "managedInsertColumns d ent asg =
     (let version = e_aesVersion ent in
      (if version \<noteq> '''' \<and> \<not> assigned asg version
       then [(version, bnd (lift (columnIn ent version)) (\<lambda>c. b_config d ''aes_version'' (f_type c)))] else [])
      @ (if e_auditColumn ent \<noteq> '''' then [(e_auditColumn ent, b_audit d ent)] else [])
      @ (if d_hostNow d
         then map (\<lambda>f. (f_name f, b_now d (f_precision f)))
                (filter (\<lambda>f. f_defaultNow f \<and> \<not> assigned asg (f_name f)) (e_fields ent))
         else []))"

definition mainStep :: "string \<Rightarrow> builder \<Rightarrow> planstep" where
  "mainStep sql b =
     \<lparr>ps_id = 0, ps_role = ''main'', ps_sql = sql, ps_tables = tables b, ps_lock = None,
      ps_bind_slots = b_binds b, ps_assemble = None, ps_parent = None\<rparr>"

text \<open>The value of one assigned column of the first row.\<close>

definition insertValue :: "dialect \<Rightarrow> entity \<Rightarrow> bool \<Rightarrow> assignment \<Rightarrow> string sql" where
  "insertValue d ent load a =
     bnd (lift (columnIn ent (a_column a))) (\<lambda>col.
       if f_identity col \<and> \<not> load then throw (OrmError IR_INVALID) else renderAssign d ent col a)"

text \<open>
  The value of an assignment in a further row: the parameter at the position of its source.
\<close>

definition rowValue :: "dialect \<Rightarrow> entity \<Rightarrow> nat list \<Rightarrow> int list \<Rightarrow> nat \<times> assignment \<Rightarrow> string sql" where
  "rowValue d ent sources row ia =
     bnd (lift (present (fieldOf ent (a_column (snd ia))))) (\<lambda>col.
     bnd (lift (present (if fst ia < length sources then Some (sources ! fst ia) else None))) (\<lambda>src.
     bnd (lift (present (if src < length row then Some (row ! src) else None))) (\<lambda>p.
       renderAssign d ent col \<lparr>a_column = a_column (snd ia), a_p = Some p, a_null = None, a_plus_p = None, a_minus_p = None\<rparr>)))"

definition insertRow :: "dialect \<Rightarrow> entity \<Rightarrow> assignment list \<Rightarrow> nat list \<Rightarrow> string sql list \<Rightarrow> int list \<Rightarrow> string sql" where
  "insertRow d ent asg sources managed row =
     bnd (mapM (rowValue d ent sources row) (enumerate 0 asg)) (\<lambda>more.
     bnd (mapM (\<lambda>v. v) managed) (\<lambda>own.
       ret ('', ('' @ joinS '', '' (more @ own) @ '')'')))"

definition upsertText :: "dialect \<Rightarrow> entity \<Rightarrow> assignment list \<Rightarrow> assignment list \<Rightarrow> string sql" where
  "upsertText d ent asg onDuplicate =
     bnd (lift (addBlindIndexAssignments ent onDuplicate)) (\<lambda>(duplicate, _).
     bnd (lift (validateAESAssignments ent duplicate True)) (\<lambda>_.
     bnd (renderSets d ent duplicate) (\<lambda>sets.
     bnd (versionAssignment d ent (assignsAES ent duplicate \<and> \<not> assigned duplicate (e_aesVersion ent))) (\<lambda>version.
     bnd (auditAssignment d ent) (\<lambda>op.
       let lastId = (if e_identity ent \<noteq> '''' \<and> \<not> d_insertReturningId d
             then [d_quote d (e_identity ent) @ '' = LAST_INSERT_ID('' @ d_quote d (e_identity ent) @ '')''] else [])
       in bnd (lift (conflictKey ent asg)) (\<lambda>key.
         ret (d_upsert d key (joinS '', '' (sets @ version @ op @ lastId)))))))))"

definition returningText :: "dialect \<Rightarrow> bool \<Rightarrow> entity \<Rightarrow> string res" where
  "returningText d assigns ent =
     (if d_insertReturningId d \<and> e_identity ent \<noteq> '''' then Inr ('' RETURNING '' @ d_quote d (e_identity ent))
      else if assigns \<and> allocatedKey ent then
        bind_res (present (case e_primaryKey ent of [] \<Rightarrow> None | k # _ \<Rightarrow> Some k)) (\<lambda>k.
          Inr ('' RETURNING '' @ d_quote d k))
      else Inr '''')"

text \<open>The statement of the first row, and what follows it: more rows, or the upsert and the returned key.\<close>

definition insertHead :: "dialect \<Rightarrow> entity \<Rightarrow> request \<Rightarrow> assignment list \<Rightarrow> string sql" where
  "insertHead d ent r asg =
     (let managed = managedInsertColumns d ent asg; cols = map (d_quote d) (map a_column asg @ map fst managed) in
      bnd (mapM (insertValue d ent (isTrue (rq_load r))) asg) (\<lambda>vals.
      bnd (mapM snd managed) (\<lambda>own.
      bnd (b_table d ent) (\<lambda>table.
        ret (''INSERT INTO '' @ table @ '' ('' @ joinS '', '' cols @ '') VALUES ('' @ joinS '', '' (vals @ own) @ '')'')))))"

definition insertTail :: "dialect \<Rightarrow> bool \<Rightarrow> entity \<Rightarrow> request \<Rightarrow> assignment list \<Rightarrow> nat list \<Rightarrow> string sql" where
  "insertTail d assigns ent r asg sources =
     (let managed = managedInsertColumns d ent asg; rows = orEmpty (rq_rows r) in
      if rows \<noteq> [] then
        bnd (mapM (insertRow d ent asg sources (map snd managed)) rows) (\<lambda>more. ret (concat more))
      else
        bnd (if orEmpty (rq_on_duplicate r) \<noteq> [] then upsertText d ent asg (orEmpty (rq_on_duplicate r)) else ret '''') (\<lambda>upsert.
        bnd (lift (returningText d assigns ent)) (\<lambda>returning.
          ret (upsert @ returning))))"

definition insertSql :: "dialect \<Rightarrow> bool \<Rightarrow> entity \<Rightarrow> request \<Rightarrow> assignment list \<Rightarrow> nat list \<Rightarrow> string sql" where
  "insertSql d assigns ent r asg sources =
     bnd (insertHead d ent r asg) (\<lambda>sql.
     bnd (insertTail d assigns ent r asg sources) (\<lambda>tail.
       ret (sql @ tail)))"

definition insertStep :: "runtimemodel \<Rightarrow> dialect \<Rightarrow> bool \<Rightarrow> request \<Rightarrow> planstep res" where
  "insertStep m d assigns r =
     bind_res (present (entityOf m (q_entity (rq_query r)))) (\<lambda>ent.
     bind_res (addBlindIndexAssignments ent (orEmpty (rq_set r))) (\<lambda>(asg, sources).
     bind_res (validateAESAssignments ent asg False) (\<lambda>_.
     bind_res (validateRequiredAssignments ent asg assigns) (\<lambda>_.
     bind_res (refuse (isTrue (rq_load r) \<and> e_identity ent \<noteq> ''''
        \<and> \<not> (\<exists>a \<in> set asg. a_column a = e_identity ent \<and> a_p a \<noteq> None)) IR_INVALID) (\<lambda>_.
     bind_res (insertSql d assigns ent r asg sources newBuilder) (\<lambda>(sql, b).
       Inr (mainStep sql b)))))))"

subsection \<open>Updates, deletes and restores\<close>

definition rootOf :: "scope \<Rightarrow> place" where
  "rootOf s = Place s s None"

definition updateSql :: "runtimemodel \<Rightarrow> dialect \<Rightarrow> entity \<Rightarrow> request \<Rightarrow> assignment list \<Rightarrow> scope \<Rightarrow> string sql" where
  "updateSql m d ent r asg root =
     bnd (renderSets d ent asg) (\<lambda>sets.
     bnd (versionAssignment d ent (assignsAES ent asg \<and> \<not> assigned asg (e_aesVersion ent))) (\<lambda>version.
     bnd (if e_updated ent \<noteq> '''' \<and> \<not> assigned (orEmpty (rq_set r)) (e_updated ent) then
            bnd (lift (columnIn ent (e_updated ent))) (\<lambda>c.
            bnd (clock d c) (\<lambda>now. ret [d_quote d (e_updated ent) @ '' = '' @ now]))
          else ret []) (\<lambda>updated.
     bnd (auditAssignment d ent) (\<lambda>op.
     bnd (lift (present (q_where (rq_query r)))) (\<lambda>g.
     bnd (renderGroup m d (rootOf root) g True) (\<lambda>where'.
     bnd (case rq_optimistic r of
            None \<Rightarrow> ret ''''
          | Some opt \<Rightarrow>
              bnd (lift (columnIn (sc_ent root) (op_column opt))) (\<lambda>c.
              bnd (colParam d (op_p opt) c '''') (\<lambda>ph.
                ret ('' AND '' @ qcol d root (op_column opt) @ '' = '' @ ph)))) (\<lambda>lock.
     bnd (b_table d ent) (\<lambda>table.
       ret (''UPDATE '' @ table @ '' SET '' @ joinS '', '' (sets @ version @ updated @ op) @ '' WHERE '' @ where' @ lock
         @ (if e_softDelete ent \<noteq> '''' then '' AND '' @ qcol d root (e_softDelete ent) @ '' IS NULL'' else '''' ))))))))))"

definition updateStep :: "runtimemodel \<Rightarrow> dialect \<Rightarrow> request \<Rightarrow> planstep res" where
  "updateStep m d r =
     bind_res (present (entityOf m (q_entity (rq_query r)))) (\<lambda>ent.
     bind_res (addBlindIndexAssignments ent (orEmpty (rq_set r))) (\<lambda>(asg, _).
     bind_res (validateAESAssignments ent asg True) (\<lambda>_.
     bind_res (buildScopes m (rq_query r) (e_table ent) False) (\<lambda>root.
     bind_res (updateSql m d ent r asg root newBuilder) (\<lambda>(sql, b).
       Inr (mainStep sql b))))))"

definition deleteSql :: "runtimemodel \<Rightarrow> dialect \<Rightarrow> entity \<Rightarrow> request \<Rightarrow> scope \<Rightarrow> string sql" where
  "deleteSql m d ent r root =
     (if e_softDelete ent = '''' then
        bnd (b_table d ent) (\<lambda>table.
        bnd (lift (present (q_where (rq_query r)))) (\<lambda>g.
        bnd (renderGroup m d (rootOf root) g True) (\<lambda>where'.
          ret (''DELETE FROM '' @ table @ '' WHERE '' @ where'))))
      else
        bnd (lift (columnIn ent (e_softDelete ent))) (\<lambda>c.
        bnd (clock d c) (\<lambda>now.
        bnd (auditAssignment d ent) (\<lambda>op.
        bnd (lift (present (q_where (rq_query r)))) (\<lambda>g.
        bnd (renderGroup m d (rootOf root) g True) (\<lambda>where'.
        bnd (b_table d ent) (\<lambda>table.
          ret (''UPDATE '' @ table @ '' SET '' @ joinS '', '' ((d_quote d (e_softDelete ent) @ '' = '' @ now) # op)
            @ '' WHERE '' @ where' @ '' AND '' @ qcol d root (e_softDelete ent) @ '' IS NULL'')))))))) "

definition deleteStep :: "runtimemodel \<Rightarrow> dialect \<Rightarrow> request \<Rightarrow> planstep res" where
  "deleteStep m d r =
     bind_res (present (entityOf m (q_entity (rq_query r)))) (\<lambda>ent.
     bind_res (buildScopes m (rq_query r) (e_table ent) False) (\<lambda>root.
     bind_res (deleteSql m d ent r root newBuilder) (\<lambda>(sql, b).
       Inr (mainStep sql b))))"

definition restoreSql :: "runtimemodel \<Rightarrow> dialect \<Rightarrow> entity \<Rightarrow> group \<Rightarrow> assignment list \<Rightarrow> scope \<Rightarrow> string sql" where
  "restoreSql m d ent where' asg root =
     bnd (renderSets d ent asg) (\<lambda>sets.
     bnd (versionAssignment d ent (assignsAES ent asg)) (\<lambda>version.
     bnd (auditAssignment d ent) (\<lambda>op.
     bnd (renderGroup m d (rootOf root) where' True) (\<lambda>text.
     bnd (b_table d ent) (\<lambda>table.
       ret (''UPDATE '' @ table @ '' SET '' @ joinS '', '' (sets @ version @ [d_quote d (e_softDelete ent) @ '' = NULL''] @ op)
         @ '' WHERE '' @ text @ '' AND '' @ qcol d root (e_softDelete ent) @ '' IS NOT NULL''))))))"

definition restoreStep :: "runtimemodel \<Rightarrow> dialect \<Rightarrow> request \<Rightarrow> planstep res" where
  "restoreStep m d r =
     bind_res (present (entityOf m (q_entity (rq_query r)))) (\<lambda>ent.
     bind_res (restoreKey ent r) (\<lambda>parts.
     bind_res (addBlindIndexAssignments ent (rp_set parts)) (\<lambda>(asg, _).
     bind_res (validateAESAssignments ent asg True) (\<lambda>_.
     bind_res (buildScopes m (rq_query r) (e_table ent) False) (\<lambda>root.
     bind_res (restoreSql m d ent (rp_where parts) asg root newBuilder) (\<lambda>(sql, b).
       Inr (mainStep sql b)))))))"

definition restartIdentityStep :: "runtimemodel \<Rightarrow> dialect \<Rightarrow> request \<Rightarrow> planstep res" where
  "restartIdentityStep m d r =
     bind_res (present (entityOf m (q_entity (rq_query r)))) (\<lambda>ent.
     bind_res (refuse (e_identity ent = '''') IR_INVALID) (\<lambda>_.
     bind_res (b_table d ent newBuilder) (\<lambda>(_, b).
       Inr ((mainStep (d_restartIdentity d (e_table ent) (e_identity ent)) b)\<lparr>ps_bind_slots := []\<rparr>))))"

end
