(* ===== verification/PlanSelect.thy ===== *)
theory PlanSelect
  imports PlanWrite
begin

section \<open>Reads and plans (\<open>engine/planner.ts\<close>, \<open>engine/index.ts\<close>)\<close>

text \<open>
  The select list with its assembly, the statement of a select step, the steps of the relations
  and \<open>compile\<close>. The running output index and the output names, which the source keeps in
  objects shared by the calls, are passed and returned. The array of steps is the state of
  \<open>selectStep\<close>; a relation step changes the assembly of its parent, so \<open>relationSteps\<close> returns it
  and the parent step is updated.
\<close>

subsection \<open>Projection\<close>

record outcolumn =
  out_name :: string
  out_column :: string
  out_fn :: "ormfunction option"
  out_sub :: "subquery option"

definition pushNew :: "string list \<Rightarrow> string \<Rightarrow> string list" where
  "pushNew base name = (if name \<in> set base then base else base @ [name])"

text \<open>The fields that the mode of a projection selects.\<close>

definition modeColumns :: "entity \<Rightarrow> string \<Rightarrow> string list" where
  "modeColumns ent mode =
     map f_name (filter (\<lambda>f. if mode = ''all'' then True
        else if mode = ''none'' then f_primary f \<or> f_foreign f else f_selected f) (e_fields ent))"

definition removeColumns :: "entity \<Rightarrow> string list \<Rightarrow> string list \<Rightarrow> string list res" where
  "removeColumns ent remove base =
     (if remove = [] then Inr base
      else bind_res (mapRes (\<lambda>x. if x \<notin> set remove then Inr [x]
          else bind_res (columnIn ent x) (\<lambda>c. Inr (if f_primary c then [x] else []))) base) (\<lambda>xs. Inr (concat xs)))"

definition relationColumns :: "query \<Rightarrow> string list" where
  "relationColumns q =
     concat (map (\<lambda>r. map k_left (orEmpty (r_keys r))
       @ (case q_if_parent (r_query r) of None \<Rightarrow> [] | Some ip \<Rightarrow> [ip_column ip])) (orEmpty (q_relations q)))"

definition projection :: "scope \<Rightarrow> outcolumn list res" where
  "projection s =
     (let q = sc_q s; ent = sc_ent s;
          mode = (case q_columns q of None \<Rightarrow> '''' | Some c \<Rightarrow> orEmpty (c_mode c));
          added = (case q_columns q of None \<Rightarrow> modeColumns ent mode
             | Some c \<Rightarrow> foldl pushNew (modeColumns ent mode) (orEmpty (c_add c))) in
      bind_res (case q_columns q of None \<Rightarrow> Inr added | Some c \<Rightarrow> removeColumns ent (orEmpty (c_remove c)) added) (\<lambda>kept.
        let base = foldl pushNew kept (sc_extra s @ relationColumns q);
            full = foldl (\<lambda>base pk. if pk \<in> set base then base else pk # base) base (e_primaryKey ent)
        in Inr (map (\<lambda>x. \<lparr>out_name = x, out_column = x, out_fn = None, out_sub = None\<rparr>) full
             @ (case q_columns q of
                  None \<Rightarrow> []
                | Some c \<Rightarrow>
                    map (\<lambda>(name, cf). \<lparr>out_name = name, out_column = cf_column cf, out_fn = Some (cf_fn cf), out_sub = None\<rparr>)
                      (sortedEntries (c_fn c))
                    @ map (\<lambda>(name, sub). \<lparr>out_name = name, out_column = '''', out_fn = None, out_sub = Some sub\<rparr>)
                      (sortedEntries (c_sub c))))))"

subsection \<open>The select list\<close>

definition subType :: "runtimemodel \<Rightarrow> subquery \<Rightarrow> string res" where
  "subType m sub =
     (if s_agg sub = Some ''count'' then Inr ''i64''
      else if s_agg sub = Some ''avg'' then Inr ''f64''
      else bind_res (orFail (entityOf m (q_entity (s_query sub))) INTERNAL) (\<lambda>ent.
        bind_res (orFail (fieldOf ent (orEmpty (s_column sub))) INTERNAL) (\<lambda>c.
          Inr (if s_agg sub = Some ''sum'' \<and> (f_type c = ''i16'' \<or> f_type c = ''i32'') then ''i64'' else f_type c))))"

definition outName :: "scope \<Rightarrow> string \<Rightarrow> string" where
  "outName s name = sc_alias s @ ''__'' @ name"

text \<open>The column of the entity an output reads.\<close>

definition outField :: "scope \<Rightarrow> outcolumn \<Rightarrow> field option" where
  "outField s c = (if out_column c = '''' then None else fieldOf (sc_ent s) (out_column c))"

text \<open>The expression, type and client stages of one output.\<close>

definition selectExpr :: "runtimemodel \<Rightarrow> dialect \<Rightarrow> place \<Rightarrow> outcolumn \<Rightarrow> (string \<times> string \<times> string list) sql" where
  "selectExpr m d pl c =
     (let s = pl_here pl in
      case out_fn c of
        Some f \<Rightarrow>
          bnd (lift (orFail (outField s c) INTERNAL)) (\<lambda>col.
          bnd (columnFunction d s (out_column c) f) (\<lambda>expr.
          bnd (lift (functionType (fn_name f) (Some col))) (\<lambda>type.
            ret (expr, type, []))))
      | None \<Rightarrow>
         (case out_sub c of
            Some sub \<Rightarrow>
              bnd (subSelect m d pl sub) (\<lambda>sql.
              bnd (lift (subType m sub)) (\<lambda>type.
                ret (''('' @ sql @ '')'', (case outField s c of None \<Rightarrow> type | Some col \<Rightarrow> f_type col), [])))
          | None \<Rightarrow>
              bnd (lift (present (outField s c))) (\<lambda>own.
                ret (readColumn d (qcol d s (out_column c)) own, f_type own, clientStyles d (f_stages own)))))"

definition selectColumn :: "runtimemodel \<Rightarrow> dialect \<Rightarrow> place \<Rightarrow> nat \<Rightarrow> nat \<times> outcolumn \<Rightarrow> (string \<times> outputcolumn) sql" where
  "selectColumn m d pl n ic =
     (case ic of (i, c) \<Rightarrow>
        bnd (selectExpr m d pl c) (\<lambda>(expr, type, colStyles).
          ret (expr @ '' AS '' @ d_quote d (outName (pl_here pl) (out_name c)),
               \<lparr>oc_index = n + i, oc_name = out_name c, oc_column = out_column c, oc_type = type,
                oc_styles = colStyles, oc_hidden = False\<rparr>)))"

text \<open>The first position of a list that satisfies a test (\<open>findIndex\<close>).\<close>

fun findIndex :: "('a \<Rightarrow> bool) \<Rightarrow> 'a list \<Rightarrow> nat option" where
  "findIndex P [] = None"
| "findIndex P (x # xs) = (if P x then Some 0 else map_option Suc (findIndex P xs))"

text \<open>
  The AES key version of a scope that reads an AES column: a selected column of it, or a hidden
  output. The parts and columns it adds, and the position of the version.
\<close>

definition versionColumn ::
    "dialect \<Rightarrow> scope \<Rightarrow> nat \<Rightarrow> bool \<Rightarrow> outputcolumn list \<Rightarrow> (string list \<times> outputcolumn list \<times> nat option) res" where
  "versionColumn d s n hasAES columns =
     (if \<not> hasAES then Inr ([], [], None)
      else bind_res (orFail (fieldOf (sc_ent s) (e_aesVersion (sc_ent s))) SCHEMA_INVALID) (\<lambda>version.
        Inr (case findIndex (\<lambda>c. oc_column c = f_name version \<and> oc_styles c = []) columns of
            Some chosen \<Rightarrow> ([], [], Some chosen)
          | None \<Rightarrow>
              ([qcol d s (f_name version) @ '' AS '' @ d_quote d (outName s (f_name version))],
               [\<lparr>oc_index = n + length columns, oc_name = f_name version, oc_column = f_name version,
                 oc_type = f_type version, oc_styles = [], oc_hidden = True\<rparr>],
               Some (length columns)))))"

text \<open>The outputs of one scope: its text, its columns and the position of its AES key version.\<close>

definition ownList ::
    "runtimemodel \<Rightarrow> dialect \<Rightarrow> place \<Rightarrow> nat \<Rightarrow> (string \<times> outputcolumn list \<times> nat option) sql" where
  "ownList m d pl n =
     (let s = pl_here pl in
      bnd (lift (projection s)) (\<lambda>outs.
      bnd (mapM (selectColumn m d pl n) (enumerate 0 outs)) (\<lambda>parts.
      bnd (lift (versionColumn d s n (\<exists>c \<in> set outs. case outField s c of None \<Rightarrow> False | Some f \<Rightarrow> isAES f)
             (map snd parts))) (\<lambda>(texts, hidden, version).
        ret (joinS '', '' (map fst parts @ texts), map snd parts @ hidden, version)))))"

definition joinChild :: "string \<Rightarrow> assemble \<Rightarrow> child" where
  "joinChild rel asm = Child rel ''join'' 0 [] [] [] False False (Some asm)"

text \<open>
  \<open>selectList\<close> from output index \<open>n\<close>: the text, the assembly, the next index and the output
  names.
\<close>

function selectList :: "runtimemodel \<Rightarrow> dialect \<Rightarrow> place \<Rightarrow> nat \<Rightarrow> (string \<times> assemble \<times> nat \<times> string list) sql" where
  "selectList m d pl n =
     bnd (ownList m d pl n) (\<lambda>(own, columns, version).
     bnd (foldM (\<lambda>(sql, children, k, names) j.
         bnd (lift (joinScope (pl_here pl) (j_rel j))) (\<lambda>js.
         bnd (selectList m d (joinedPlace pl js) k) (\<lambda>(joined, asm, k', names').
           ret (if joined = '''' then sql else if sql = '''' then joined else sql @ '', '' @ joined,
                children @ [joinChild (j_rel j) asm], k', names @ names'))))
       (own, [], n + length columns, map (\<lambda>c. outName (pl_here pl) (oc_name c)) columns)
       (orEmpty (q_joins (sc_q (pl_here pl))))) (\<lambda>(sql, children, k, names).
       let asm = Assemble (e_name (sc_ent (pl_here pl))) (sc_alias (pl_here pl)) columns children [] version in
       bnd (lift (keyRefs asm (e_primaryKey (sc_ent (pl_here pl))))) (\<lambda>key.
         ret (sql, Assemble (as_entity asm) (as_alias asm) columns children key version, k, names))))"
  by pat_completeness auto
termination
  by (relation "measure (\<lambda>(m, d, pl, n). size (pl_here pl))") (auto simp: lift_Inr_iff joinScope_size)

declare selectList.simps [simp del]

definition selectGroupCountList :: "dialect \<Rightarrow> scope \<Rightarrow> (string \<times> assemble \<times> string list) res" where
  "selectGroupCountList d s =
     (let names = orEmpty (q_group_by (sc_q s)) in
      bind_res (mapRes (\<lambda>(i, name).
          bind_res (orFail (fieldOf (sc_ent s) name) COLUMN_UNKNOWN) (\<lambda>col.
            Inr (readColumn d (qcol d s name) col @ '' AS '' @ d_quote d (outName s name),
                 \<lparr>oc_index = i, oc_name = name, oc_column = name, oc_type = f_type col,
                  oc_styles = clientStyles d (f_stages col), oc_hidden = False\<rparr>))) (enumerate 0 names)) (\<lambda>parts.
        let count = \<lparr>oc_index = length names, oc_name = ''row_count'', oc_column = '''', oc_type = ''i64'',
              oc_styles = [], oc_hidden = False\<rparr>
        in Inr (joinS '', '' (map fst parts @ [''COUNT(*) AS '' @ d_quote d (outName s ''row_count'')]),
             Assemble (e_name (sc_ent s)) (sc_alias s) (map snd parts @ [count]) [] [] None,
             map (outName s) (names @ [''row_count'']))))"

subsection \<open>The statement of a select step\<close>

record relationcontext =
  rc_parentStep :: nat
  rc_parentAsm :: assemble
  rc_parentKeys :: "string list"
  rc_childKeys :: "string list"
  rc_kind :: string

definition withKey :: "assemble \<Rightarrow> string list \<Rightarrow> assemble res" where
  "withKey asm columns =
     bind_res (keyRefs asm columns) (\<lambda>key.
       Inr (Assemble (as_entity asm) (as_alias asm) (as_columns asm) (as_children asm) key (as_aes_version asm)))"

text \<open>The select list by the kind of the statement, its assembly and the output names.\<close>

definition selectHead ::
    "runtimemodel \<Rightarrow> dialect \<Rightarrow> scope \<Rightarrow> string \<Rightarrow> string \<Rightarrow> (string \<times> assemble \<times> string list) sql" where
  "selectHead m d root kind agg =
     (let q = sc_q root; empty = Assemble (e_name (sc_ent root)) (sc_alias root) [] [] [] None in
      if kind = ''count'' then ret (if hasGroupBy q then ''1'' else ''COUNT(*)'', empty, [])
      else if kind = ''sum'' then ret (''COALESCE(SUM('' @ qcol d root agg @ ''), 0)'', empty, [])
      else if kind = ''avg'' then ret (''AVG('' @ qcol d root agg @ '')'', empty, [])
      else if kind = ''group_count'' then
        bnd (lift (selectGroupCountList d root)) (\<lambda>(text, asm, names).
        bnd (lift (withKey asm (orEmpty (q_group_by q)))) (\<lambda>asm'. ret (text, asm', names)))
      else
        bnd (selectList m d (rootOf root) 0) (\<lambda>(text, asm, n, names).
        bnd (lift (withKey asm (e_primaryKey (sc_ent root)))) (\<lambda>asm'. ret (text, asm', names))))"

text \<open>The number of rows per parent: the request's, or 1 for a one relation with an order.\<close>

definition perParentOf :: "query \<Rightarrow> relationcontext option \<Rightarrow> int" where
  "perParentOf q rc =
     (case rc of
        None \<Rightarrow> 0
      | Some c \<Rightarrow>
          (let n = (case q_limit_per_parent q of None \<Rightarrow> 0 | Some k \<Rightarrow> k) in
           if n = 0 \<and> rc_kind c = ''one'' \<and> orEmpty (q_order q) \<noteq> [] then 1 else n))"

text \<open>The order of the rows of one parent: the request's, or the first primary key column.\<close>

definition windowOrder :: "dialect \<Rightarrow> scope \<Rightarrow> string sql" where
  "windowOrder d root =
     bnd (renderOrder d root) (\<lambda>order.
       if order \<noteq> '''' then ret order
       else bnd (lift (present (case e_primaryKey (sc_ent root) of [] \<Rightarrow> None | k # _ \<Rightarrow> Some k))) (\<lambda>pk.
         ret ('' ORDER BY '' @ qcol d root pk @ '' ASC'')))"

definition windowText :: "dialect \<Rightarrow> scope \<Rightarrow> relationcontext \<Rightarrow> string sql" where
  "windowText d root rc =
     bnd (windowOrder d root) (\<lambda>order.
       ret ('', ROW_NUMBER() OVER (PARTITION BY '' @ joinS '', '' (qualifiedCols d root (rc_childKeys rc)) @ order
         @ '') AS '' @ d_quote d ''orm_rn''))"

definition parentCondition :: "dialect \<Rightarrow> scope \<Rightarrow> relationcontext \<Rightarrow> string sql" where
  "parentCondition d root rc =
     bnd (lift (mapRes (\<lambda>key. bind_res (columnIn (sc_ent root) key) (\<lambda>c. Inr (f_type c))) (rc_childKeys rc))) (\<lambda>keyTypes.
     bnd (parentList d (rc_parentStep rc) keyTypes) (\<lambda>ph.
       ret (case rc_childKeys rc of
           [only] \<Rightarrow> qcol d root only @ '' IN ('' @ ph @ '')''
         | _ \<Rightarrow> ''('' @ joinS '', '' (qualifiedCols d root (rc_childKeys rc)) @ '') IN (('' @ ph @ ''))'')))"

text \<open>The rows of each parent, cut at \<open>n\<close>.\<close>

definition cutPerParent :: "dialect \<Rightarrow> scope \<Rightarrow> relationcontext \<Rightarrow> string list \<Rightarrow> int \<Rightarrow> string \<Rightarrow> string" where
  "cutPerParent d root rc names n sql =
     (let w = d_quote d ''orm_w'' in
      ''SELECT '' @ joinS '', '' (map (\<lambda>x. w @ ''.'' @ d_quote d x) names)
      @ '' FROM ('' @ sql @ '') AS '' @ w @ '' WHERE '' @ w @ ''.'' @ d_quote d ''orm_rn'' @ '' <= '' @ show_int n
      @ '' ORDER BY '' @ joinS '', '' (map (\<lambda>key. w @ ''.'' @ d_quote d (outName root key)) (rc_childKeys rc))
      @ '', '' @ w @ ''.'' @ d_quote d ''orm_rn'')"

definition limitPart :: "dialect \<Rightarrow> limit \<Rightarrow> string sql" where
  "limitPart d l =
     (case (l_offset_p l, l_count_p l) of
        (Some op, Some cp) \<Rightarrow>
          if d_name d = ''mysql'' then
            bnd (b_param d op ''i64'') (\<lambda>offset. bnd (b_param d cp ''i64'') (\<lambda>count. ret (d_limit d offset count)))
          else
            bnd (b_param d cp ''i64'') (\<lambda>count. bnd (b_param d op ''i64'') (\<lambda>offset. ret (d_limit d offset count)))
      | _ \<Rightarrow> ret (d_limit d (limitText (l_offset l)) (limitText (l_count l))))"

definition lockPart :: "dialect \<Rightarrow> query \<Rightarrow> string res" where
  "lockPart d q =
     (if orEmpty (q_lock q) = '''' then Inr '''' else orFail (d_rowLock d (orEmpty (q_lock q))) CAPABILITY_UNSUPPORTED)"

text \<open>Order, limit and lock of a statement that returns rows.\<close>

definition selectTail :: "dialect \<Rightarrow> scope \<Rightarrow> string \<Rightarrow> bool \<Rightarrow> string sql" where
  "selectTail d root kind isRelation =
     (let q = sc_q root in
      bnd (renderOrder d root) (\<lambda>order.
      bnd (if kind = ''one'' \<and> \<not> isRelation then ret (d_limit d ''0'' ''1'')
           else case q_limit q of None \<Rightarrow> ret '''' | Some l \<Rightarrow> limitPart d l) (\<lambda>page.
      bnd (lift (lockPart d q)) (\<lambda>lock.
        ret (order @ page @ lock)))))"

definition returnsRows :: "string \<Rightarrow> bool" where
  "returnsRows kind \<longleftrightarrow> kind = ''one'' \<or> kind = ''all'' \<or> kind = ''group_count''"

text \<open>The conditions of a select: the parents, the soft delete guard, its own and its joins'.\<close>

definition selectWhere :: "runtimemodel \<Rightarrow> dialect \<Rightarrow> scope \<Rightarrow> relationcontext option \<Rightarrow> string list sql" where
  "selectWhere m d root rc =
     bnd (case rc of None \<Rightarrow> ret [] | Some c \<Rightarrow> bnd (parentCondition d root c) (\<lambda>t. ret [t])) (\<lambda>parents.
     bnd (case nonempty (q_where (sc_q root)) of
            None \<Rightarrow> ret []
          | Some g \<Rightarrow> bnd (renderGroup m d (rootOf root) g (rc = None)) (\<lambda>t. ret [t])) (\<lambda>own.
     bnd (collectJoinWhere m d (rootOf root)) (\<lambda>joined.
       ret (parents @ softDeleteGuard d root @ own @ joined))))"

text \<open>The text of the statement up to its grouping; a grouped count counts the groups.\<close>

definition selectBody :: "dialect \<Rightarrow> scope \<Rightarrow> string \<Rightarrow> string \<Rightarrow> string \<Rightarrow> string \<Rightarrow> string list \<Rightarrow> string" where
  "selectBody d root list rowNumber table joins conditions =
     ''SELECT '' @ list @ rowNumber @ '' FROM '' @ table @ '' AS '' @ d_quote d (sc_alias root)
     @ (if orEmpty (q_force_index (sc_q root)) \<noteq> '''' then d_forceIndex d (orEmpty (q_force_index (sc_q root))) else '''')
     @ joins @ whereText conditions
     @ (if hasGroupBy (sc_q root)
        then '' GROUP BY '' @ joinS '', '' (map (qcol d root) (orEmpty (q_group_by (sc_q root)))) else '''')"

definition countGroups :: "dialect \<Rightarrow> scope \<Rightarrow> string \<Rightarrow> string \<Rightarrow> string" where
  "countGroups d root kind sql =
     (if kind = ''count'' \<and> hasGroupBy (sc_q root)
      then ''SELECT COUNT(*) FROM ('' @ sql @ '') AS '' @ d_quote d ''orm_g'' else sql)"

text \<open>The rows per parent, or the order, page and lock of a statement that returns rows.\<close>

definition finishSelect ::
    "dialect \<Rightarrow> scope \<Rightarrow> string \<Rightarrow> relationcontext option \<Rightarrow> int \<Rightarrow> string list \<Rightarrow> string \<Rightarrow> string sql" where
  "finishSelect d root kind rc perParent names sql =
     (if \<not> returnsRows kind then ret sql
      else case rc of
        Some c \<Rightarrow>
          if perParent > 0 then ret (cutPerParent d root c names perParent sql)
          else bnd (selectTail d root kind True) (\<lambda>tail. ret (sql @ tail))
      | None \<Rightarrow> bnd (selectTail d root kind False) (\<lambda>tail. ret (sql @ tail)))"

definition rowNumberText :: "dialect \<Rightarrow> scope \<Rightarrow> relationcontext option \<Rightarrow> int \<Rightarrow> string sql" where
  "rowNumberText d root rc perParent =
     (case rc of Some c \<Rightarrow> if perParent > 0 then windowText d root c else ret '''' | None \<Rightarrow> ret '''')"

definition selectSql ::
    "runtimemodel \<Rightarrow> dialect \<Rightarrow> scope \<Rightarrow> string \<Rightarrow> string \<Rightarrow> relationcontext option \<Rightarrow> (string \<times> assemble) sql" where
  "selectSql m d root kind agg rc =
     (let perParent = perParentOf (sc_q root) rc in
      bnd (selectHead m d root kind agg) (\<lambda>(list, asm, names).
      bnd (rowNumberText d root rc perParent) (\<lambda>rowNumber.
      bnd (b_table d (sc_ent root)) (\<lambda>table.
      bnd (renderJoins m d (rootOf root)) (\<lambda>joins.
      bnd (selectWhere m d root rc) (\<lambda>conditions.
      bnd (finishSelect d root kind rc perParent names
             (countGroups d root kind (selectBody d root list rowNumber table joins conditions))) (\<lambda>sql.
        ret (sql, asm))))))))"

subsection \<open>Steps\<close>

type_synonym 'a steps = "(planstep list, 'a) st"

definition addStep :: "planstep \<Rightarrow> planstep steps" where
  "addStep step =
     bnd (gets length) (\<lambda>n.
     bnd (modify (\<lambda>steps. steps @ [step\<lparr>ps_id := n\<rparr>])) (\<lambda>_. ret (step\<lparr>ps_id := n\<rparr>)))"

definition parentOf :: "query \<Rightarrow> relationcontext \<Rightarrow> parentref res" where
  "parentOf q rc =
     bind_res (keyRefs (rc_parentAsm rc) (rc_parentKeys rc)) (\<lambda>keys.
     bind_res (case q_if_parent q of
         None \<Rightarrow> Inr None
       | Some ip \<Rightarrow> bind_res (indexOf (rc_parentAsm rc) (ip_column ip)) (\<lambda>i.
           Inr (Some \<lparr>pi_column = ip_column ip, pi_index = i, pi_param = ip_p ip\<rparr>))) (\<lambda>ifParent.
       Inr \<lparr>pr_step = rc_parentStep rc, pr_keys = keys, pr_if_parent = ifParent\<rparr>))"

text \<open>The columns a relation step needs selected: its keys and the column its rows are keyed by.\<close>

definition withExtra :: "relationcontext option \<Rightarrow> scope \<Rightarrow> scope" where
  "withExtra rc root =
     (case rc of
        None \<Rightarrow> root
      | Some c \<Rightarrow> Scope (sc_ent root) (sc_alias root) (sc_q root) (sc_joins root)
          (rc_childKeys c @ (if orEmpty (q_key_by (sc_q root)) \<noteq> '''' then [orEmpty (q_key_by (sc_q root))] else [])))"

text \<open>The step of a select as it is added after \<open>n\<close> steps: its role and, for a relation, its parent.\<close>

definition selectRole ::
    "scope \<Rightarrow> string \<Rightarrow> relationcontext option \<Rightarrow> nat \<Rightarrow> assemble \<Rightarrow> string \<Rightarrow> builder \<Rightarrow> planstep res" where
  "selectRole root kind rc n asm sql b =
     (let q = sc_q root;
          step = (mainStep sql b)\<lparr>ps_lock := (if orEmpty (q_lock q) \<noteq> '''' then q_lock q else None),
            ps_assemble := (if returnsRows kind then Some asm else None)\<rparr> in
      if kind = ''count'' \<and> n > 0 then Inr (step\<lparr>ps_role := ''count''\<rparr>)
      else case rc of
        None \<Rightarrow> Inr step
      | Some c \<Rightarrow> bind_res (parentOf q c) (\<lambda>parent. Inr (step\<lparr>ps_role := ''relation'', ps_parent := Some parent\<rparr>)))"

text \<open>The step of a select without its relations, added to the steps.\<close>

definition addSelect ::
    "runtimemodel \<Rightarrow> dialect \<Rightarrow> scope \<Rightarrow> string \<Rightarrow> string \<Rightarrow> relationcontext option \<Rightarrow> (planstep \<times> assemble) steps" where
  "addSelect m d root kind agg rc =
     bnd (lift (selectSql m d root kind agg rc newBuilder)) (\<lambda>((sql, asm), b).
     bnd (gets length) (\<lambda>n.
     bnd (lift (selectRole root kind rc n asm sql b)) (\<lambda>step.
     bnd (addStep step) (\<lambda>step'. ret (step', asm)))))"

definition withChildren :: "assemble \<Rightarrow> child list \<Rightarrow> assemble" where
  "withChildren asm children =
     Assemble (as_entity asm) (as_alias asm) (as_columns asm) children (as_key asm) (as_aes_version asm)"

definition setAssemble :: "nat \<Rightarrow> assemble \<Rightarrow> planstep list \<Rightarrow> planstep list" where
  "setAssemble i asm steps = map (\<lambda>st. if ps_id st = i then st\<lparr>ps_assemble := Some asm\<rparr> else st) steps"

text \<open>The context of a relation and the child that records how its rows attach.\<close>

definition contextOf :: "nat \<Rightarrow> assemble \<Rightarrow> relation \<Rightarrow> relationcontext res" where
  "contextOf stepId asm r =
     bind_res (present (r_keys r)) (\<lambda>keys.
     bind_res (present (r_kind r)) (\<lambda>kind.
       Inr \<lparr>rc_parentStep = stepId, rc_parentAsm = asm, rc_parentKeys = map k_left keys,
            rc_childKeys = map k_right keys, rc_kind = kind\<rparr>))"

definition relationChild ::
    "runtimemodel \<Rightarrow> scope \<Rightarrow> assemble \<Rightarrow> relation \<Rightarrow> relationcontext \<Rightarrow> entity \<Rightarrow> planstep \<Rightarrow> child res" where
  "relationChild m s asm r rc target st =
     bind_res (present (ps_assemble st)) (\<lambda>assembled.
     bind_res (keyRefs asm (rc_parentKeys rc)) (\<lambda>parentKeys.
     bind_res (keyRefs assembled (rc_childKeys rc)) (\<lambda>childKeys.
     bind_res (if orEmpty (q_key_by (r_query r)) \<noteq> '''' then Inr [orEmpty (q_key_by (r_query r))]
         else bind_res (present (entityOf m (as_entity assembled))) (\<lambda>e. Inr (e_primaryKey e))) (\<lambda>keyColumns.
     bind_res (keyRefs assembled keyColumns) (\<lambda>key.
       Inr (Child (r_rel r) (rc_kind rc) (ps_id st) parentKeys childKeys key (isTrue (q_flatten (r_query r)))
         (\<not> isTrue (q_no_cascade_delete (r_query r)) \<and> rc_parentKeys rc = e_primaryKey (sc_ent s)
           \<and> rc_childKeys rc \<noteq> e_primaryKey target) None))))))"

lemma relationsSize_mem: "r \<in> set (orEmpty (q_relations (sc_q s))) \<Longrightarrow> size (r_query r) < weight s"
proof -
  assume "r \<in> set (orEmpty (q_relations (sc_q s)))"
  then have "size (r_query r) \<le> relationsSize (sc_q s)"
    unfolding relationsSize_def by (intro member_le_sum_list) auto
  then show ?thesis by (simp add: weight_eq)
qed

lemma joinScope_weight_less: "joinScope s rel = Inr js \<Longrightarrow> weight js < weight s"
  using joinScope_weight weight_joins le_less_trans by blast

function selectStep ::
    "runtimemodel \<Rightarrow> dialect \<Rightarrow> query \<Rightarrow> string \<Rightarrow> string \<Rightarrow> relationcontext option \<Rightarrow> planstep steps"
  and relationSteps :: "runtimemodel \<Rightarrow> dialect \<Rightarrow> scope \<Rightarrow> assemble \<Rightarrow> nat \<Rightarrow> assemble steps"
where
  "selectStep m d q kind agg rc =
     bnd (lift (buildScopes m q ''a'' False)) (\<lambda>root.
     bnd (addSelect m d (withExtra rc root) kind agg rc) (\<lambda>(step, asm).
       if ps_assemble step = None then ret step
       else bnd (relationSteps m d root asm (ps_id step)) (\<lambda>asm'.
         bnd (modify (setAssemble (ps_id step) asm')) (\<lambda>_. ret (step\<lparr>ps_assemble := Some asm'\<rparr>)))))"
| "relationSteps m d s asm stepId =
     bnd (foldM (\<lambda>asm r.
         bnd (lift (contextOf stepId asm r)) (\<lambda>rc.
         bnd (lift (present (entityOf m (q_entity (r_query r))))) (\<lambda>target.
         bnd (selectStep m d (r_query r) ''all'' '''' (Some rc)) (\<lambda>st.
         bnd (lift (relationChild m s asm r rc target st)) (\<lambda>child.
           ret (withChildren asm (as_children asm @ [child])))))))
       asm (orEmpty (q_relations (sc_q s)))) (\<lambda>asm.
     foldM (\<lambda>asm j.
         bnd (lift (joinScope s (j_rel j))) (\<lambda>js.
         bnd (mapM (\<lambda>ch.
             if ch_kind ch = ''join'' \<and> ch_rel ch = j_rel j then
               bnd (lift (present (ch_assemble ch))) (\<lambda>sub.
               bnd (relationSteps m d js sub stepId) (\<lambda>sub'.
                 ret (Child (ch_rel ch) (ch_kind ch) (ch_step ch) (ch_parent_keys ch) (ch_child_keys ch) (ch_key ch)
                   (ch_flatten ch) (ch_cascade ch) (Some sub'))))
             else ret ch) (as_children asm)) (\<lambda>children.
           ret (withChildren asm children))))
       asm (orEmpty (q_joins (sc_q s))))"
  by pat_completeness auto

termination
  by (relation "measure (\<lambda>x. case x of
         Inl (m, d, q, _) \<Rightarrow> 2 * size q + 1
       | Inr (m, d, s, _) \<Rightarrow> 2 * weight s)")
     (auto simp: lift_Inr_iff joinScope_weight_less less_Suc_eq_le dest: buildScopes_weight dest!: relationsSize_mem)

declare selectStep.simps [simp del] relationSteps.simps [simp del]

text \<open>The induction rule of the two, in terms of queries and scopes.\<close>

lemma steps_induct:
  fixes PS :: "query \<Rightarrow> string \<Rightarrow> string \<Rightarrow> relationcontext option \<Rightarrow> bool" and PR :: "scope \<Rightarrow> assemble \<Rightarrow> nat \<Rightarrow> bool"
  assumes select: "\<And>q kind agg rc. (\<And>root asm i. buildScopes m q ''a'' False = Inr root \<Longrightarrow> PR root asm i) \<Longrightarrow> PS q kind agg rc"
    and relations: "\<And>s asm i.
      (\<And>r rc. r \<in> set (orEmpty (q_relations (sc_q s))) \<Longrightarrow> PS (r_query r) ''all'' '''' (Some rc)) \<Longrightarrow>
      (\<And>rel js sub. joinScope s rel = Inr js \<Longrightarrow> PR js sub i) \<Longrightarrow> PR s asm i"
  shows "PS q kind agg rc" and "PR s asm i"
proof -
  have "(\<forall>q kind agg rc. 2 * size q + 1 = N \<longrightarrow> PS q kind agg rc) \<and> (\<forall>s asm i. 2 * weight s = N \<longrightarrow> PR s asm i)" for N
  proof (induction N rule: less_induct)
    case (less N)
    then have S: "2 * size q + 1 < N \<Longrightarrow> PS q kind agg rc" and R: "2 * weight s < N \<Longrightarrow> PR s asm i" for q kind agg rc s asm i
      by blast+
    show ?case
    proof (intro conjI allI impI)
      fix q :: query and kind agg rc assume N: "2 * size q + 1 = N"
      show "PS q kind agg rc"
        by (rule select, rule R) (use N in \<open>auto simp: less_Suc_eq_le dest: buildScopes_weight\<close>)
    next
      fix s :: scope and asm i assume N: "2 * weight s = N"
      show "PR s asm i"
        by (rule relations; (rule S | rule R)) (use N in \<open>auto dest: relationsSize_mem joinScope_weight_less\<close>)
    qed
  qed
  then show "PS q kind agg rc" "PR s asm i" by blast+
qed

subsection \<open>Plans\<close>

text \<open>The root query of a page runs first, then the count, then the relation steps.\<close>

definition paginateSteps :: "runtimemodel \<Rightarrow> dialect \<Rightarrow> query \<Rightarrow> unit steps" where
  "paginateSteps m d q =
     bnd (lift (buildScopes m q ''a'' False)) (\<lambda>root.
     bnd (addSelect m d root ''all'' '''' None) (\<lambda>(step, asm).
     bnd (selectStep m d q ''count'' '''' None) (\<lambda>_.
     bnd (relationSteps m d root asm (ps_id step)) (\<lambda>asm'.
       modify (setAssemble (ps_id step) asm')))))"

definition planSteps :: "runtimemodel \<Rightarrow> dialect \<Rightarrow> bool \<Rightarrow> request \<Rightarrow> unit steps" where
  "planSteps m d assigns r =
     (let kind = rq_kind r; q = rq_query r; add = (\<lambda>step. bnd (lift step) (\<lambda>st. bnd (addStep st) (\<lambda>_. ret ()))) in
      if kind \<in> {''one'', ''all'', ''count'', ''group_count'', ''sum'', ''avg''} then
        bnd (selectStep m d q kind (orEmpty (rq_agg r)) None) (\<lambda>_. ret ())
      else if kind = ''paginate'' then paginateSteps m d q
      else if kind = ''insert'' then add (insertStep m d assigns r)
      else if kind = ''update'' then add (updateStep m d r)
      else if kind = ''delete'' then add (deleteStep m d r)
      else if kind = ''restore'' then add (restoreStep m d r)
      else if kind = ''restart_identity'' then add (restartIdentityStep m d r)
      else ret ())"

definition plannerCompile :: "runtimemodel \<Rightarrow> dialect \<Rightarrow> bool \<Rightarrow> request \<Rightarrow> plan res" where
  "plannerCompile m d assigns r =
     bind_res (planSteps m d assigns r []) (\<lambda>(_, steps).
       Inr \<lparr>pl_manifest_hash = m_manifestHash m, pl_kind = rq_kind r, pl_steps = steps\<rparr>)"

lemma plannerCompile_steps: "plannerCompile m d assigns r = Inr p \<Longrightarrow> planSteps m d assigns r [] = Inr ((), pl_steps p)"
  by (auto simp: plannerCompile_def res_simps)

lemma plannerCompile_keeps:
  "keeps I (planSteps m d assigns r) \<Longrightarrow> I [] \<Longrightarrow> plannerCompile m d assigns r = Inr p \<Longrightarrow> I (pl_steps p)"
  using plannerCompile_steps unfolding keeps_def by blast

text \<open>\<open>Engine\<close>: an unknown dialect is refused, and a request is validated before it is planned.\<close>

definition compile :: "runtimemodel \<Rightarrow> string \<Rightarrow> bool \<Rightarrow> request \<Rightarrow> plan res" where
  "compile m dialectName assigns r =
     bind_res (orFail (dialectOf dialectName) DIALECT_UNKNOWN) (\<lambda>d.
     bind_res (validate m r) (\<lambda>_. plannerCompile m d assigns r))"

end
