(* ===== verification/SqlText.thy ===== *)
theory SqlText
  imports PlanSelect
begin

section \<open>Placeholders in SQL text\<close>

text \<open>
  A lexer for the text of a statement: quoted identifiers and string literals are skipped, and
  every placeholder outside them is a token, the digits after its marker. A statement is aligned
  when it ends outside quotes and its tokens are those of the placeholders \<open>1 .. n\<close> in this order,
  where \<open>n\<close> is the number of bind slots. Since the lexer reads quotes, no assumption about the
  names of tables, columns, joins or outputs is needed: a name that holds quotes or placeholder
  markers stays inside its quotes.
\<close>

subsection \<open>The lexer\<close>

definition identQuote :: "dialect \<Rightarrow> char" where
  "identQuote d = (if d_name d = ''mysql'' then CHR 96 else CHR 34)"

definition marker :: "dialect \<Rightarrow> char" where
  "marker d = (if d_name d = ''postgres'' then CHR ''$'' else CHR ''?'')"

definition isDigit :: "char \<Rightarrow> bool" where
  "isDigit c \<longleftrightarrow> c \<in> digits"

fun lexRun :: "dialect \<Rightarrow> char option \<Rightarrow> string \<Rightarrow> string list \<times> char option" where
  "lexRun d st [] = ([], st)"
| "lexRun d None (c # cs) =
     (if c = identQuote d \<or> c = CHR 39 then lexRun d (Some c) cs
      else if c = marker d then (takeWhile isDigit cs # fst (lexRun d None cs), snd (lexRun d None cs))
      else lexRun d None cs)"
| "lexRun d (Some q) (c # cs) = lexRun d (if c = q then None else Some q) cs"

text \<open>The tokens of a text, and whether it ends outside quotes.\<close>

definition placeholders :: "dialect \<Rightarrow> string \<Rightarrow> string list" where
  "placeholders d sql = fst (lexRun d None sql)"

definition balanced :: "dialect \<Rightarrow> string \<Rightarrow> bool" where
  "balanced d sql \<longleftrightarrow> snd (lexRun d None sql) = None"

text \<open>A text that can follow a placeholder without changing its number.\<close>

definition noDigit :: "string \<Rightarrow> bool" where
  "noDigit s \<longleftrightarrow> s = [] \<or> \<not> isDigit (hd s)"

text \<open>A character that no lexer treats specially.\<close>

definition plain :: "char \<Rightarrow> bool" where
  "plain c \<longleftrightarrow> c \<noteq> CHR 34 \<and> c \<noteq> CHR 96 \<and> c \<noteq> CHR 39 \<and> c \<noteq> CHR ''?'' \<and> c \<noteq> CHR ''$''"

lemma plain_char:
  "plain c \<Longrightarrow> c \<noteq> identQuote d \<and> c \<noteq> CHR 39 \<and> c \<noteq> marker d"
  by (auto simp: plain_def identQuote_def marker_def)

lemma takeWhile_noDigit: "noDigit y \<Longrightarrow> takeWhile isDigit (x @ y) = takeWhile isDigit x"
  by (induction x) (auto simp: noDigit_def takeWhile_eq_Nil_iff)

lemma lexRun_append:
  "noDigit y \<Longrightarrow> lexRun d st (x @ y) =
     (fst (lexRun d st x) @ fst (lexRun d (snd (lexRun d st x)) y), snd (lexRun d (snd (lexRun d st x)) y))"
  by (induction d st x rule: lexRun.induct) (auto simp: takeWhile_noDigit)

lemma lexRun_snd_append: "snd (lexRun d st (x @ y)) = snd (lexRun d (snd (lexRun d st x)) y)"
  by (induction d st x rule: lexRun.induct) auto

named_theorems lex_simps \<open>tokens of composed texts\<close>

lemma lex_basic [lex_simps]:
  "placeholders d [] = []" "balanced d []" "noDigit []"
  by (simp_all add: placeholders_def balanced_def noDigit_def)

lemma lex_plain [lex_simps]:
  "plain c \<Longrightarrow> placeholders d (c # s) = placeholders d s"
  "plain c \<Longrightarrow> balanced d (c # s) = balanced d s"
  "noDigit (c # s) = (\<not> isDigit c)"
  using plain_char[of c d] by (auto simp: placeholders_def balanced_def noDigit_def)

lemma lex_append [lex_simps]:
  "balanced d x \<Longrightarrow> noDigit y \<Longrightarrow> placeholders d (x @ y) = placeholders d x @ placeholders d y"
  "balanced d x \<Longrightarrow> balanced d (x @ y) = balanced d y"
  by (simp_all add: placeholders_def balanced_def lexRun_append lexRun_snd_append)

lemma noDigit_append [lex_simps]: "noDigit x \<Longrightarrow> noDigit y \<Longrightarrow> noDigit (x @ y)"
  by (cases x) (auto simp: noDigit_def)

text \<open>A text of plain characters, such as the digits of a number.\<close>

lemma lex_all_plain:
  "(\<And>c. c \<in> set x \<Longrightarrow> plain c) \<Longrightarrow> placeholders d (x @ y) = placeholders d y \<and> balanced d (x @ y) = balanced d y"
  by (induction x) (auto simp: lex_simps)

lemma plain_digit: "c \<in> digits \<Longrightarrow> plain c"
  by (auto simp: plain_def)

lemma show_int_plain: "c \<in> set (show_int i) \<Longrightarrow> plain c"
  using show_nat_digits by (fastforce simp: show_int_def plain_digit plain_def split: if_splits)

lemma limitText_plain: "c \<in> set (limitText l) \<Longrightarrow> plain c"
  by (cases l) (auto simp: limitText_def plain_def dest: show_int_plain)

text \<open>What every rendered fragment satisfies: it ends outside quotes, does not start with a digit and has these tokens.\<close>

definition fragment :: "dialect \<Rightarrow> string \<Rightarrow> string list \<Rightarrow> bool" where
  "fragment d t T \<longleftrightarrow> balanced d t \<and> noDigit t \<and> placeholders d t = T"

lemma fragmentD [dest]: "fragment d t T \<Longrightarrow> balanced d t \<and> noDigit t \<and> placeholders d t = T"
  by (simp add: fragment_def)

lemma fragment_append: "fragment d x A \<Longrightarrow> fragment d y B \<Longrightarrow> fragment d (x @ y) (A @ B)"
  by (auto simp: fragment_def lex_simps)

definition fragments :: "dialect \<Rightarrow> string list \<Rightarrow> string list \<Rightarrow> bool" where
  "fragments d ts T \<longleftrightarrow> (\<forall>t \<in> set ts. balanced d t \<and> noDigit t) \<and> concat (map (placeholders d) ts) = T"

lemma fragments_simps [lex_simps]:
  "fragments d [] T = (T = [])"
  "fragments d [t] T = fragment d t T"
  by (auto simp: fragments_def fragment_def)

lemma fragments_Cons: "fragment d t A \<Longrightarrow> fragments d ts B \<Longrightarrow> fragments d (t # ts) (A @ B)"
  by (auto simp: fragments_def fragment_def)

lemma fragments_append: "fragments d ts A \<Longrightarrow> fragments d us B \<Longrightarrow> fragments d (ts @ us) (A @ B)"
  by (auto simp: fragments_def)

text \<open>The same rules with the tokens as an equation to be solved last.\<close>

lemma fragmentI_append: "fragment d x A \<Longrightarrow> fragment d y B \<Longrightarrow> T = A @ B \<Longrightarrow> fragment d (x @ y) T"
  and fragmentsI_append: "fragments d ts A \<Longrightarrow> fragments d us B \<Longrightarrow> T = A @ B \<Longrightarrow> fragments d (ts @ us) T"
  and fragmentsI_Cons: "fragment d x A \<Longrightarrow> fragments d us B \<Longrightarrow> T = A @ B \<Longrightarrow> fragments d (x # us) T"
  by (simp_all add: fragment_append fragments_append fragments_Cons)

text \<open>Joining fragments with a separator that is a fragment without tokens.\<close>

lemma noDigit_joinS:
  "(\<And>t. t \<in> set ts \<Longrightarrow> noDigit t) \<Longrightarrow> noDigit sep \<Longrightarrow> noDigit (joinS sep ts)"
  by (induction sep ts rule: joinS.induct) (auto simp: lex_simps)

lemma joinS_lex:
  "(\<And>t. t \<in> set ts \<Longrightarrow> balanced d t \<and> noDigit t) \<Longrightarrow> fragment d sep [] \<Longrightarrow>
     balanced d (joinS sep ts) \<and> placeholders d (joinS sep ts) = concat (map (placeholders d) ts)"
proof (induction sep ts rule: joinS.induct)
  case (3 sep x y ys)
  then have "noDigit (joinS sep (y # ys))" by (intro noDigit_joinS) auto
  with 3 show ?case by (auto simp: lex_simps)
qed (auto simp: lex_simps)

lemma fragment_joinS: "fragments d ts T \<Longrightarrow> fragment d sep [] \<Longrightarrow> fragment d (joinS sep ts) T"
  using joinS_lex[of ts d sep] noDigit_joinS[of ts sep] by (auto simp: fragments_def fragment_def)

lemma fragment_concat: "fragments d ts T \<Longrightarrow> fragment d (concat ts) T"
proof (induction ts arbitrary: T)
  case (Cons t ts)
  then have "fragment d (concat ts) (concat (map (placeholders d) ts))"
    by (auto simp: fragments_def)
  with Cons.prems show ?case by (auto simp: fragments_def fragment_def lex_simps)
qed (auto simp: fragments_def fragment_def lex_simps)

text \<open>Inside a string literal nothing is a token; a character 39 ends it.\<close>

definition quotedP :: "dialect \<Rightarrow> string \<Rightarrow> string list" where
  "quotedP d s = fst (lexRun d (Some (CHR 39)) s)"

definition quotedB :: "dialect \<Rightarrow> string \<Rightarrow> bool" where
  "quotedB d s \<longleftrightarrow> snd (lexRun d (Some (CHR 39)) s) = None"

lemma lex_quote [lex_simps]:
  "placeholders d (CHR 39 # s) = quotedP d s"
  "balanced d (CHR 39 # s) = quotedB d s"
  "quotedP d (c # s) = (if c = CHR 39 then placeholders d s else quotedP d s)"
  "quotedB d (c # s) = (if c = CHR 39 then balanced d s else quotedB d s)"
  by (simp_all add: placeholders_def balanced_def quotedP_def quotedB_def)

lemma quoted_append [lex_simps]:
  assumes "CHR 39 \<notin> set x"
  shows "quotedP d (x @ y) = quotedP d y" "quotedB d (x @ y) = quotedB d y"
  using assms by (induction x) (auto simp: lex_simps)

lemmas lex_eval = lex_simps fragment_def plain_def isDigit_def

subsection \<open>Quoted identifiers and literals\<close>

text \<open>Doubling the quote inside keeps a quoted text one token of its own.\<close>

lemma lexRun_doubled:
  "lexRun d (Some q) (replaceS q [q, q] s @ q # rest) = lexRun d None rest"
  if "q = identQuote d \<or> q = CHR 39"
  using that by (induction s) (auto simp: replaceS_def)

lemma fragment_quoted:
  assumes "q = identQuote d \<or> q = CHR 39"
  shows "fragment d ([q] @ replaceS q [q, q] s @ [q]) []"
proof -
  have "lexRun d None ([q] @ replaceS q [q, q] s @ [q]) = ([], None)"
    using lexRun_doubled[OF assms, of s "[]"] assms by auto
  moreover have "\<not> isDigit q"
    using assms by (auto simp: isDigit_def identQuote_def split: if_splits)
  ultimately show ?thesis
    by (simp add: fragment_def balanced_def placeholders_def noDigit_def)
qed

lemma fragment_quoteWith: "fragment d (quoteWith (identQuote d) ident) []"
proof -
  have "fragments d (map (\<lambda>part. [identQuote d] @ replaceS (identQuote d) [identQuote d, identQuote d] part @ [identQuote d])
     (splitS CHR ''.'' ident)) []"
    using fragment_quoted[of "identQuote d" d] by (auto simp: fragments_def fragment_def simp del: append_Cons)
  moreover have "fragment d ''.'' []"
    by (simp add: fragment_def lex_simps plain_def isDigit_def)
  ultimately show ?thesis unfolding quoteWith_def by (rule fragment_joinS)
qed

lemma fragment_literal: "fragment d (literal text) []"
  unfolding literal_def by (rule fragment_quoted) simp

end
