(* ===== verification/Aligned.thy ===== *)
theory Aligned
  imports SqlText
begin

section \<open>Statements bind what they print\<close>

text \<open>
  A small program logic for computations over the builder: \<open>binds d f R\<close> says that a run of \<open>f\<close>
  only appends bind slots and that its result satisfies \<open>R\<close> with the tokens of the placeholders
  of exactly these slots. The locale \<open>sql_dialect\<close> states what the planner needs of a dialect; its
  lemmas prove every renderer aligned, and it is interpreted for the three dialects.
\<close>

subsection \<open>The logic\<close>

definition tokens :: "dialect \<Rightarrow> nat \<Rightarrow> nat \<Rightarrow> string list" where
  "tokens d i j = map (\<lambda>n. tl (d_placeholder d n)) [Suc i..<Suc j]"

definition slots :: "builder \<Rightarrow> nat" where
  "slots b = length (b_binds b)"

definition binds :: "dialect \<Rightarrow> 'a sql \<Rightarrow> ('a \<Rightarrow> string list \<Rightarrow> bool) \<Rightarrow> bool" where
  "binds d f R \<longleftrightarrow>
     (\<forall>b a b'. f b = Inr (a, b') \<longrightarrow> slots b \<le> slots b' \<and> R a (tokens d (slots b) (slots b')))"

lemma tokens_same [simp]: "tokens d i i = []"
  by (simp add: tokens_def)

lemma tokens_append: "i \<le> j \<Longrightarrow> j \<le> k \<Longrightarrow> tokens d i j @ tokens d j k = tokens d i k"
  using upt_add_eq_append[of "Suc i" "Suc j" "k - j"] by (simp add: tokens_def flip: map_append)

lemma binds_ret: "R a [] \<Longrightarrow> binds d (ret a) R"
  by (simp add: binds_def)

lemma binds_throw: "binds d (throw e) R"
  by (simp add: binds_def)

lemma binds_bnd:
  assumes f: "binds d f P" and g: "\<And>a T. P a T \<Longrightarrow> binds d (g a) (\<lambda>c U. R c (T @ U))"
  shows "binds d (bnd f g) R"
  unfolding binds_def
proof (intro allI impI)
  fix b c b2
  assume "bnd f g b = Inr (c, b2)"
  then obtain a b1 where ab: "f b = Inr (a, b1)" "g a b1 = Inr (c, b2)" by (auto simp: bnd_Inr_iff)
  from f ab(1) have 1: "slots b \<le> slots b1" "P a (tokens d (slots b) (slots b1))" by (auto simp: binds_def)
  from g[OF 1(2)] ab(2) have 2: "slots b1 \<le> slots b2"
    "R c (tokens d (slots b) (slots b1) @ tokens d (slots b1) (slots b2))" by (auto simp: binds_def)
  with 1(1) show "slots b \<le> slots b2 \<and> R c (tokens d (slots b) (slots b2))"
    by (simp add: tokens_append)
qed

lemma binds_lift: "(\<And>a. r = Inr a \<Longrightarrow> R a []) \<Longrightarrow> binds d (lift r) R"
  by (simp add: binds_def lift_Inr_iff)

lemma binds_bnd_lift: "(\<And>a. r = Inr a \<Longrightarrow> binds d (g a) R) \<Longrightarrow> binds d (bnd (lift r) g) R"
  by (cases r) (auto simp: binds_throw)

lemma binds_modify: "(\<And>b. slots (h b) = slots b) \<Longrightarrow> R () [] \<Longrightarrow> binds d (modify h) R"
  by (simp add: binds_def)

lemma binds_gets: "(\<And>b. R (h b) []) \<Longrightarrow> binds d (gets h) R"
  by (simp add: binds_def)

lemma binds_weaken: "binds d f P \<Longrightarrow> (\<And>a T. P a T \<Longrightarrow> R a T) \<Longrightarrow> binds d f R"
  by (auto simp: binds_def)

lemma binds_mapM:
  assumes "\<And>x. x \<in> set xs \<Longrightarrow> binds d (f x) R"
  shows "binds d (mapM f xs) (\<lambda>ys T. \<exists>Ts. list_all2 R ys Ts \<and> concat Ts = T)"
  using assms
proof (induction xs)
  case Nil
  show ?case unfolding mapM.simps by (rule binds_ret) simp
next
  case (Cons x xs)
  have 1: "binds d (f x) R" using Cons.prems by simp
  have 2: "binds d (mapM f xs) (\<lambda>ys T. \<exists>Ts. list_all2 R ys Ts \<and> concat Ts = T)" using Cons by simp
  show ?case
    by (auto intro!: binds_bnd[OF 1] binds_bnd[OF 2] binds_ret)
qed

lemma list_all2_fragments:
  "list_all2 (fragment d) ts Ts \<Longrightarrow> fragments d ts (concat Ts)"
  by (induction ts Ts rule: list_all2_induct) (auto simp: fragments_def fragment_def)

lemma list_all2_concat_fragments:
  "list_all2 (fragments d) ts Ts \<Longrightarrow> fragments d (concat ts) (concat Ts)"
  by (induction ts Ts rule: list_all2_induct) (auto simp: fragments_def)

lemma binds_mapM_fragments:
  "(\<And>x. x \<in> set xs \<Longrightarrow> binds d (f x) (fragment d)) \<Longrightarrow> binds d (mapM f xs) (fragments d)"
  by (rule binds_weaken[OF binds_mapM[where R = "fragment d"]]) (auto dest: list_all2_fragments)

lemma binds_mapM_concat:
  "(\<And>x. x \<in> set xs \<Longrightarrow> binds d (f x) (fragments d)) \<Longrightarrow>
     binds d (mapM f xs) (\<lambda>ys T. fragments d (concat ys) T)"
  by (rule binds_weaken[OF binds_mapM[where R = "fragments d"]]) (auto dest: list_all2_concat_fragments)

lemma binds_foldM:
  assumes "R c T" and "\<And>c x T. x \<in> set xs \<Longrightarrow> R c T \<Longrightarrow> binds d (f c x) (\<lambda>c' U. R c' (T @ U))"
  shows "binds d (foldM f c xs) (\<lambda>c' U. R c' (T @ U))"
  using assms
proof (induction xs arbitrary: c T)
  case (Cons x xs)
  have 1: "binds d (f c x) (\<lambda>c' U. R c' (T @ U))" using Cons.prems by simp
  show ?case
    using Cons.IH[of _ "T @ _"] Cons.prems by (auto intro!: binds_bnd[OF 1])
qed (auto intro: binds_ret)

subsection \<open>The promises of a dialect\<close>

lemma lexRun_fragment:
  "fragment d x A \<Longrightarrow> noDigit y \<Longrightarrow>
     lexRun d None (x @ y) = (A @ fst (lexRun d None y), snd (lexRun d None y))"
  "fragment d x A \<Longrightarrow> lexRun d None x = (A, None)"
  by (auto simp: lexRun_append fragment_def balanced_def placeholders_def prod_eq_iff)

locale sql_dialect =
  fixes d :: dialect
  assumes quote: "fragment d (d_quote d n) []"
    and placeholder: "fragment d (d_placeholder d i) [tl (d_placeholder d i)]"
    and like: "fragment d a A \<Longrightarrow> fragment d b B \<Longrightarrow> fragment d (d_like d a b) (A @ B)"
    and limit_literal: "\<forall>c \<in> set ofs \<union> set cnt. plain c \<Longrightarrow> fragment d (d_limit d ofs cnt) []"
    and limit_first: "d_name d = ''mysql'' \<Longrightarrow> fragment d a A \<Longrightarrow> fragment d b B \<Longrightarrow> fragment d (d_limit d a b) (A @ B)"
    and limit_last: "d_name d \<noteq> ''mysql'' \<Longrightarrow> fragment d a A \<Longrightarrow> fragment d b B \<Longrightarrow> fragment d (d_limit d a b) (B @ A)"
    and forceIndex: "fragment d (d_forceIndex d n) []"
    and upsert: "fragment d a A \<Longrightarrow> fragment d (d_upsert d key a) A"
    and readExpr: "fragment d a A \<Longrightarrow> fragment d (d_readExpr d a stages) A"
    and writeExpr: "fragment d a A \<Longrightarrow> fragment d (d_writeExpr d a stages) A"
    and readTime: "fragment d a A \<Longrightarrow> fragment d (d_readTime d a p) A"
    and writeTime: "fragment d a A \<Longrightarrow> fragment d (d_writeTime d a) A"
    and readUuid: "fragment d a A \<Longrightarrow> fragment d (d_readUuid d a) A"
    and writeUuid: "fragment d a A \<Longrightarrow> fragment d (d_writeUuid d a) A"
    and now: "fragment d (d_now d p) []"
    and clockOperand: "fragment d a A \<Longrightarrow> fragment d (d_clockOperand d a p) A"
    and rowLock: "d_rowLock d lock = Some t \<Longrightarrow> fragment d t []"
    and columnFunction: "fragment d a [] \<Longrightarrow>
      binds d (d_columnFunction d name a arg) (\<lambda>r T. \<forall>t. r = Some t \<longrightarrow> fragment d t T)"
    and valueFunction: "binds d arg1 (fragment d) \<Longrightarrow> binds d clk (fragment d) \<Longrightarrow>
      binds d (d_valueFunction d name arg1 clk) (\<lambda>r T. \<forall>t. r = Some t \<longrightarrow> fragment d t T)"
    and containsBinary: "fragment d a [] \<Longrightarrow> (\<And>tr. binds d (val tr) (fragment d)) \<Longrightarrow>
      binds d (d_containsBinary d a val) (fragment d)"
    and fulltext: "fragments d cols [] \<Longrightarrow> (\<And>tr. binds d (val tr) (fragment d)) \<Longrightarrow>
      binds d (d_fulltext d cols val boolean) (\<lambda>r T. \<forall>t. r = Some t \<longrightarrow> fragment d t T)"
    and tupleIn: "fragments d cols [] \<Longrightarrow> list_all2 (fragments d) rows Ts \<Longrightarrow>
      fragment d (d_tupleIn d cols rows negate) (concat Ts)"
    and random: "fragment d (d_random d) []"
    and nullsOrder: "fragment d (d_nullsOrder d desc) []"
    and restartIdentity: "fragment d (d_restartIdentity d table column) []"

subsection \<open>The three dialects keep the promises\<close>

lemma fragment_lockSuffix: "lockSuffix mode = Some t \<Longrightarrow> fragment d t []"
  by (auto simp: lockSuffix_def lex_eval split: if_splits)

lemma fragment_castTo: "fragment d a A \<Longrightarrow> c \<in> {'''', ''double precision'', ''bigint''} \<Longrightarrow> fragment d (castTo c a) A"
  by (auto simp: castTo_def lex_eval)

lemma intervalBounds_plain: "unit \<in> {''second'', ''minute'', ''hour'', ''day'', ''month''} \<Longrightarrow> c \<in> set (intervalBounds unit) \<Longrightarrow> plain c"
  by (auto simp: intervalBounds_def plain_def)

lemma binds_guardInterval:
  assumes "binds d arg (fragment d)" "c \<in> {'''', ''double precision'', ''bigint''}"
    and "unit \<in> {''second'', ''minute'', ''hour'', ''day'', ''month''}"
  shows "binds d (guardInterval unit c arg) (fragment d)"
  unfolding guardInterval_def
  apply (rule binds_bnd[OF assms(1)], rule binds_bnd[OF assms(1)], rule binds_ret)
  using fragment_castTo[of d _ _ c] assms(2,3)
  apply (auto simp: lex_eval intervalBounds_def)
  done

lemma binds_guardResult:
  assumes "binds d val (fragment d)"
  shows "binds d (guardResult val) (fragment d)"
  unfolding guardResult_def
  apply (rule binds_bnd[OF assms(1)], rule binds_bnd[OF assms(1)], rule binds_ret)
  apply (auto simp: lex_eval)
  done

lemma fragment_asciiLower: "fragment d a A \<Longrightarrow> fragment d (asciiLower a) A"
  by (auto simp: asciiLower_def lex_eval numeral_eq_Suc)

lemma fragment_comma: "fragment d '', '' []"
  by (simp add: lex_eval)

lemma fragment_tupleIn:
  assumes "fragments d cols []" "list_all2 (fragments d) rows Ts"
  shows "fragment d (tupleIn cols rows negate values) (concat Ts)"
proof -
  have row: "fragment d (''('' @ joinS '', '' row @ '')'') T" if "fragments d row T" for row T
    using fragment_joinS[OF that fragment_comma] by (auto simp: lex_eval)
  have "list_all2 (fragment d) (map (\<lambda>row. ''('' @ joinS '', '' row @ '')'') rows) Ts"
    using assms(2) row by (simp add: list_all2_map1 list_all2_mono)
  from fragment_joinS[OF list_all2_fragments[OF this] fragment_comma]
  have "fragment d (joinS '', '' (map (\<lambda>row. ''('' @ joinS '', '' row @ '')'') rows)) (concat Ts)" .
  moreover from fragment_joinS[OF assms(1) fragment_comma] have "fragment d (joinS '', '' cols) []" .
  ultimately show ?thesis by (auto simp: tupleIn_def Let_def lex_eval)
qed

lemma fragment_conflictUpsert:
  assumes "identQuote d = CHR 34" "fragment d a A"
  shows "fragment d (conflictUpsert key a) A"
proof -
  have "fragments d (map (quoteWith (CHR 34)) key) []"
    using fragment_quoteWith[of d] assms(1) by (auto simp: fragments_def fragment_def)
  from fragment_joinS[OF this fragment_comma] assms(2) show ?thesis
    by (auto simp: conflictUpsert_def lex_eval)
qed

lemma valueFunctionUnits_units:
  "valueFunctionUnits name = Some unit \<Longrightarrow> unit \<in> {''second'', ''minute'', ''hour'', ''day'', ''month''}"
  by (auto simp: valueFunctionUnits_def split: if_splits)

lemma binds_Some: "binds d f (fragment d) \<Longrightarrow> binds d (bnd f (\<lambda>v. ret (Some v))) (\<lambda>r T. \<forall>t. r = Some t \<longrightarrow> fragment d t T)"
  by (erule binds_bnd) (auto intro!: binds_ret)

lemma binds_None: "binds d (ret None) (\<lambda>r T. \<forall>t. r = Some t \<longrightarrow> fragment d t T)"
  by (rule binds_ret) simp

lemma fragment_foldr: "(\<And>s x. fragment d x A \<Longrightarrow> fragment d (f s x) A) \<Longrightarrow> fragment d x A \<Longrightarrow> fragment d (foldr f xs x) A"
  by (induction xs) auto

lemma fragment_fold: "(\<And>s x. fragment d x A \<Longrightarrow> fragment d (f s x) A) \<Longrightarrow> fragment d x A \<Longrightarrow> fragment d (fold f xs x) A"
  by (induction xs arbitrary: x) auto

lemma lex_show_nat:
  "placeholders d (show_nat n @ y) = placeholders d y" "balanced d (show_nat n @ y) = balanced d y"
  using lex_all_plain[of "show_nat n" d y] show_nat_digits[of n] plain_digit by blast+

lemma fragment_limit:
  assumes "\<forall>c \<in> set ofs \<union> set cnt. plain c"
  shows "fragment d ('' LIMIT '' @ ofs @ '', '' @ cnt) []" "fragment d ('' LIMIT '' @ ofs @ '' OFFSET '' @ cnt) []"
proof -
  have *: "placeholders d (ofs @ x) = placeholders d x" "balanced d (ofs @ x) = balanced d x" for x
    using lex_all_plain[of ofs] assms by blast+
  have **: "placeholders d cnt = []" "balanced d cnt"
    using lex_all_plain[of cnt d "[]"] assms by (auto simp: lex_simps)
  show "fragment d ('' LIMIT '' @ ofs @ '', '' @ cnt) []" "fragment d ('' LIMIT '' @ ofs @ '' OFFSET '' @ cnt) []"
    by (simp_all add: lex_eval * **)
qed

subsubsection \<open>MySQL\<close>

lemma mysql_columnFunction_fragment:
  "mysql_columnFunction name a = Some t \<Longrightarrow> fragment d a [] \<Longrightarrow> fragment d t []"
  by (auto simp: mysql_columnFunction_def lex_eval split: if_splits)

lemma mysql_valueFunction_binds:
  assumes "binds d arg (fragment d)"
  shows "binds d (mysql_valueFunction name arg clk) (\<lambda>r T. \<forall>t. r = Some t \<longrightarrow> fragment d t T)"
proof (cases "valueFunctionUnits name")
  case None
  then show ?thesis by (auto simp: mysql_valueFunction_def lex_eval intro!: binds_ret)
next
  case (Some unit)
  have "binds d (bnd (guardInterval unit '''' arg) (\<lambda>interval.
      ret ((if endsWith name ''_later'' then ''DATE_ADD'' else ''DATE_SUB'')
        @ ''(NOW(6), INTERVAL '' @ interval @ '' '' @ upperUnit unit @ '')''))) (fragment d)"
    using valueFunctionUnits_units[OF Some]
    by (intro binds_bnd[OF binds_guardInterval[OF assms]] binds_ret) (auto simp: upperUnit_def lex_eval)
  from binds_Some[OF binds_guardResult[OF this]] Some show ?thesis
    by (auto simp: mysql_valueFunction_def lex_eval intro!: binds_ret)
qed

lemma mysql_fulltext_binds:
  assumes "fragments d cols []" "\<And>tr. binds d (val tr) (fragment d)"
  shows "binds d (mysql_fulltext cols val boolean) (\<lambda>r T. \<forall>t. r = Some t \<longrightarrow> fragment d t T)"
  unfolding mysql_fulltext_def
  by (rule binds_bnd[OF assms(2)], rule binds_ret)
     (use fragment_joinS[OF assms(1) fragment_comma] in \<open>auto simp: lex_eval\<close>)

interpretation mysql_sql: sql_dialect mysql
proof (unfold_locales, goal_cases)
  case 1 show ?case using fragment_quoteWith[of mysql] by (simp add: identQuote_def)
next
  case (2 i) show ?case by (simp add: fragment_def lex_simps noDigit_def isDigit_def placeholders_def balanced_def marker_def identQuote_def)
next
  case (3 a A b B) then show ?case
    using fragment_asciiLower[OF 3(1)] fragment_asciiLower[OF 3(2)] by (auto simp: lex_eval)
next
  case (4 ofs cnt) then show ?case
    using fragment_limit(1)[OF 4] by simp
next
  case 7 show ?case using fragment_quoteWith[of mysql] by (auto simp: lex_eval identQuote_def)
next
  case (9 a A st) then show ?case
    unfolding mysql_simps mysql_readExpr_def by (rule fragment_foldr[rotated]) (auto simp: lex_eval)
next
  case (10 a A st) then show ?case
    unfolding mysql_simps mysql_writeExpr_def by (rule fragment_fold[rotated]) (auto simp: lex_eval)
next
  case (15 p)
  show ?case using lex_show_nat[of mysql p "'')''"] by (simp add: lex_eval)
next
  case 17 then show ?case by (simp add: fragment_lockSuffix)
next
  case 18 then show ?case unfolding mysql_simps by (intro binds_ret) (simp add: mysql_columnFunction_fragment)
next
  case 19 then show ?case by (simp add: mysql_valueFunction_binds)
next
  case (20 a val) then show ?case unfolding mysql_simps by (intro binds_bnd[OF 20(2)] binds_ret) (auto simp: lex_eval)
next
  case 21 then show ?case by (simp add: mysql_fulltext_binds)
next
  case 22 then show ?case by (simp add: fragment_tupleIn)
next
  case 25 show ?case using fragment_quoteWith[of mysql] by (auto simp: lex_eval identQuote_def)
qed (auto simp: lex_eval)

subsubsection \<open>PostgreSQL\<close>

lemma postgres_columnFunction_fragment:
  "postgres_columnFunction name a = Some t \<Longrightarrow> fragment d a [] \<Longrightarrow> fragment d t []"
  by (auto simp: postgres_columnFunction_def lex_eval split: if_splits)

lemma show_nat_isDigit: "c \<in> set (show_nat n) \<Longrightarrow> isDigit c"
  unfolding isDigit_def using show_nat_digits by blast

lemma fragment_dollar: "marker d = CHR ''$'' \<Longrightarrow> fragment d (CHR ''$'' # show_nat n) [show_nat n]"
  using lex_show_nat[of d n "[]"] show_nat_isDigit[of _ n]
  by (auto simp: fragment_def placeholders_def balanced_def noDigit_def isDigit_def identQuote_def takeWhile_eq_all_conv)

lemma postgres_clock_binds: "binds d clk (fragment d) \<Longrightarrow> binds d (postgres_clock clk) (fragment d)"
  unfolding postgres_clock_def by (erule binds_bnd, rule binds_ret) (auto simp: lex_eval)

lemma postgres_valueFunction_binds:
  assumes "binds d arg (fragment d)" "binds d clk (fragment d)"
  shows "binds d (postgres_valueFunction name arg clk) (\<lambda>r T. \<forall>t. r = Some t \<longrightarrow> fragment d t T)"
proof (cases "valueFunctionUnits name")
  case None
  then show ?thesis
    using binds_Some[OF postgres_clock_binds[OF assms(2)]]
    by (auto simp: postgres_valueFunction_def lex_eval intro!: binds_ret)
next
  case (Some unit)
  note unit = valueFunctionUnits_units[OF Some]
  then obtain field where field: "intervalField unit = Some field" "field \<in> {''secs'', ''mins'', ''hours'', ''days'', ''months''}"
    by (auto simp: intervalField_def)
  define cast where "cast = (if field = ''secs'' then ''double precision'' else ''integer'')"
  define operand where "operand = (if cast = ''double precision'' then cast else ''bigint'')"
  have op: "operand \<in> {'''', ''double precision'', ''bigint''}" by (simp add: operand_def)
  have "binds d (bnd (postgres_clock clk) (\<lambda>clock.
      bnd (guardInterval unit operand arg) (\<lambda>interval.
        ret (''('' @ clock @ (if endsWith name ''_later'' then '' + '' else '' - '')
          @ ''make_interval('' @ field @ '' => CAST('' @ interval @ '' AS '' @ cast @ '')))'')))) (fragment d)"
    using field(2)
    by (intro binds_bnd[OF postgres_clock_binds[OF assms(2)]] binds_bnd[OF binds_guardInterval[OF assms(1) op unit]] binds_ret)
      (auto simp: cast_def lex_eval)
  from binds_Some[OF binds_guardResult[OF this]] binds_Some[OF postgres_clock_binds[OF assms(2)]] Some field(1)
  show ?thesis
    by (auto simp: postgres_valueFunction_def lex_eval Let_def cast_def operand_def intro!: binds_ret)
qed

lemma postgres_fulltext_binds:
  assumes "fragments d cols []" "\<And>tr. binds d (val tr) (fragment d)"
  shows "binds d (postgres_fulltext cols val boolean) (\<lambda>r T. \<forall>t. r = Some t \<longrightarrow> fragment d t T)"
proof -
  have "fragments d (map (\<lambda>c. ''coalesce('' @ c @ '', '' @ [CHR 39, CHR 39] @ '')'') cols) []"
    using assms(1) by (auto simp: fragments_def lex_eval)
  moreover have "fragment d ('' || '' @ [CHR 39, CHR 32, CHR 39] @ '' || '') []"
    by (simp add: lex_eval)
  ultimately have "fragment d (joinS ('' || '' @ [CHR 39, CHR 32, CHR 39] @ '' || '')
      (map (\<lambda>c. ''coalesce('' @ c @ '', '' @ [CHR 39, CHR 39] @ '')'') cols)) []" by (rule fragment_joinS)
  then show ?thesis
    unfolding postgres_fulltext_def
    by (intro binds_bnd[OF assms(2)] binds_ret) (auto simp: lex_eval simp del: append_Cons)
qed

interpretation postgres_sql: sql_dialect postgres
proof (unfold_locales, goal_cases)
  case 1 show ?case using fragment_quoteWith[of postgres] by (simp add: identQuote_def)
next
  case (2 i) show ?case using fragment_dollar[of postgres i] by (simp add: marker_def)
next
  case (4 ofs cnt) then show ?case using fragment_limit(2)[of cnt ofs postgres] by auto
next
  case 8 then show ?case by (simp add: fragment_conflictUpsert identQuote_def)
next
  case (11 a A p) then show ?case
    using lex_show_nat[of postgres "9 + p" "'')''"] by (auto simp: postgres_readTime_def lex_eval)
next
  case 17 then show ?case by (simp add: fragment_lockSuffix)
next
  case 18 then show ?case unfolding postgres_simps by (intro binds_ret) (simp add: postgres_columnFunction_fragment)
next
  case 19 then show ?case by (simp add: postgres_valueFunction_binds)
next
  case (20 a val) then show ?case unfolding postgres_simps by (intro binds_bnd[OF 20(2)] binds_ret) (auto simp: lex_eval)
next
  case 21 then show ?case by (simp add: postgres_fulltext_binds)
next
  case 22 then show ?case by (simp add: fragment_tupleIn)
next
  case 25 show ?case
    using fragment_quoteWith[of postgres] fragment_literal[of postgres]
    by (auto simp: postgres_restartIdentity_def lex_eval identQuote_def)
qed (auto simp: lex_eval)

subsubsection \<open>SQLite\<close>

lemma sqlite_columnFunction_fragment:
  "sqlite_columnFunction name a = Some t \<Longrightarrow> fragment d a [] \<Longrightarrow> fragment d t []"
  by (auto simp: sqlite_columnFunction_def lex_eval split: if_splits)

lemma sqlite_valueFunction_binds:
  assumes "binds d arg (fragment d)" "binds d clk (fragment d)"
  shows "binds d (sqlite_valueFunction name arg clk) (\<lambda>r T. \<forall>t. r = Some t \<longrightarrow> fragment d t T)"
proof (cases "valueFunctionUnits name")
  case None
  then show ?thesis
    using binds_Some[OF assms(2)]
    by (auto simp: sqlite_valueFunction_def lex_eval intro!: binds_ret binds_bnd[OF assms(2)])
next
  case (Some unit)
  have "binds d (bnd clk (\<lambda>clock. bnd arg (\<lambda>a. bnd clk (\<lambda>n.
      ret (''(datetime('' @ clock @ '', ''
        @ (if endsWith name ''_later'' then [CHR 39, CHR ''+'', CHR 39] else [CHR 39, CHR ''-'', CHR 39])
        @ '' || CAST('' @ a @ '' AS TEXT) || ' '' @ unit @ ''s''
        @ [CHR 39] @ (if unit = ''month'' then '', '' @ [CHR 39] @ ''floor'' @ [CHR 39] else '''')
        @ '') || substr('' @ n @ '', 20))''))))) (fragment d)"
    using valueFunctionUnits_units[OF Some]
    by (intro binds_bnd[OF assms(2)] binds_bnd[OF assms(1)] binds_ret) (auto simp: lex_eval)
  from binds_Some[OF binds_guardResult[OF this]] binds_Some[OF assms(2)] Some show ?thesis
    by (auto simp: sqlite_valueFunction_def lex_eval intro!: binds_ret binds_bnd[OF assms(2)])
qed

interpretation sqlite_sql: sql_dialect sqlite
proof (unfold_locales, goal_cases)
  case 1 show ?case using fragment_quoteWith[of sqlite] by (simp add: identQuote_def sqlite_quote_def)
next
  case (2 i) show ?case by (simp add: fragment_def lex_simps noDigit_def isDigit_def placeholders_def balanced_def marker_def identQuote_def)
next
  case (4 ofs cnt) then show ?case using fragment_limit(2)[of cnt ofs sqlite] by auto
next
  case 7 show ?case using fragment_quoteWith[of sqlite] by (auto simp: lex_eval identQuote_def)
next
  case 8 then show ?case by (simp add: fragment_conflictUpsert identQuote_def)
next
  case (16 a A p) then show ?case by (auto simp: sqlite_clockOperand_def lex_eval)
next
  case 17 then show ?case by (auto simp: lex_eval split: if_splits)
next
  case 18 then show ?case unfolding sqlite_simps by (intro binds_ret) (simp add: sqlite_columnFunction_fragment)
next
  case 19 then show ?case by (simp add: sqlite_valueFunction_binds)
next
  case (20 a val) then show ?case unfolding sqlite_simps by (intro binds_bnd[OF 20(2)] binds_ret) (auto simp: lex_eval)
next
  case 21 show ?case by (simp add: binds_None)
next
  case 22 then show ?case by (simp add: fragment_tupleIn)
next
  case 25 show ?case
    using fragment_quoteWith[of sqlite] fragment_literal[of sqlite]
    by (auto simp: sqlite_restartIdentity_def lex_eval identQuote_def)
qed (auto simp: lex_eval)

end
