(* ===== verification/AlignedPlan.thy ===== *)
theory AlignedPlan
  imports Aligned
begin

section \<open>Every statement of the planner is aligned\<close>

text \<open>
  The lemmas of the locale \<open>sql_dialect\<close> follow the planner from the builder's methods over the
  expressions, conditions and joins to whole statements and plans. The last section reads them
  off for the three dialects.
\<close>

subsection \<open>Rules for the statements of the source\<close>

lemma binds_if: "(c \<Longrightarrow> binds d f R) \<Longrightarrow> (\<not> c \<Longrightarrow> binds d g R) \<Longrightarrow> binds d (if c then f else g) R"
  by simp

lemma binds_option:
  "(x = None \<Longrightarrow> binds d f R) \<Longrightarrow> (\<And>a. x = Some a \<Longrightarrow> binds d (g a) R) \<Longrightarrow>
     binds d (case x of None \<Rightarrow> f | Some a \<Rightarrow> g a) R"
  by (cases x) auto

lemma binds_prod: "(\<And>a b. x = (a, b) \<Longrightarrow> binds d (f a b) R) \<Longrightarrow> binds d (case x of (a, b) \<Rightarrow> f a b) R"
  by (cases x) auto

lemma slots_simps [simp]:
  "slots (b\<lparr>b_subs := n\<rparr>) = slots b" "slots (b\<lparr>b_tables := t\<rparr>) = slots b"
  "slots (b\<lparr>b_binds := bs\<rparr>) = length bs"
  by (simp_all add: slots_def)

lemmas binds_rules = binds_if binds_option binds_prod binds_throw binds_bnd_lift

lemma binds_setLastHost: "binds d (setLastHost host) (\<lambda>_ T. T = [])"
  by (auto simp: setLastHost_def binds_def bnd_def slots_def split: if_splits)

lemma binds_markAssigned: "binds d (markAssigned start col) (\<lambda>_ T. T = [])"
  by (auto simp: markAssigned_def binds_def slots_def min_def)

lemma cmp_fragment: "cmp op = Inr c \<Longrightarrow> fragment d c []"
  by (auto simp: cmp_def lex_eval split: if_splits)

text \<open>A step whose text is balanced and has the placeholders of its bind slots, in order.\<close>

definition aligned :: "dialect \<Rightarrow> planstep \<Rightarrow> bool" where
  "aligned d st \<longleftrightarrow>
     balanced d (ps_sql st) \<and> placeholders d (ps_sql st) = tokens d 0 (length (ps_bind_slots st))"

context sql_dialect
begin

lemma binds_push: "binds d (push d s) (fragment d)"
  using placeholder
  by (auto simp: push_def binds_def bnd_def slots_def tokens_def)

lemma binds_typed: "binds d (typed d s) (fragment d)"
  unfolding typed_def by (intro binds_rules binds_push)

lemma binds_values:
  "binds d (b_param d i type) (fragment d)" "binds d (transformed d i tr) (fragment d)"
  "binds d (colParam d i col tr) (fragment d)" "binds d (b_config d name type) (fragment d)"
  "binds d (b_now d precision) (fragment d)" "binds d (parentList d step types) (fragment d)"
  unfolding b_param_def transformed_def colParam_def b_config_def b_now_def parentList_def
  by (rule binds_typed binds_push)+

lemma binds_audit: "binds d (b_audit d ent) (fragment d)"
  unfolding b_audit_def by (intro binds_rules binds_typed)

lemma binds_table: "binds d (b_table d ent) (\<lambda>t T. fragment d t [] \<and> T = [])"
  unfolding b_table_def
  by (rule binds_bnd[OF binds_modify[where R = "\<lambda>_ T. T = []"]]) (auto intro!: binds_ret quote)

lemma fragment_qcol: "fragment d (qcol d s c) []"
  using quote[of "sc_alias s"] quote[of c] by (auto simp: qcol_def lex_eval)

lemma fragments_qualified: "fragments d (qualifiedCols d s cols) []"
  using fragment_qcol by (auto simp: qualifiedCols_def fragments_def fragment_def)

lemma fragment_readColumn: "fragment d q [] \<Longrightarrow> fragment d (readColumn d q col) []"
  by (auto simp: readColumn_def Let_def intro: readExpr readUuid readTime)

subsection \<open>Values and predicates\<close>

lemma binds_renderValue: "binds d (renderValue d col i) (fragment d)"
  unfolding renderValue_def Let_def
  by (rule binds_bnd[where P = "fragment d"], (intro binds_if binds_values)+,
      rule binds_bnd[OF binds_setLastHost], rule binds_ret)
     (auto intro: writeTime writeUuid writeExpr)

lemma binds_renderBlindIndexValue: "binds d (renderBlindIndexValue d ind i) (fragment d)"
  unfolding renderBlindIndexValue_def
  by (intro binds_bnd[OF binds_values(1)] binds_bnd[OF binds_setLastHost] binds_ret) auto

lemma binds_columnFunction: "binds d (columnFunction d s column f) (fragment d)"
  unfolding columnFunction_def
  by (rule binds_bnd[OF columnFunction[OF fragment_qcol]], rule binds_lift) auto

lemma binds_renderTuple: "binds d (renderTuple d s pr) (fragment d)"
proof -
  have "binds d (mapM (\<lambda>(k, name).
              bnd (lift (columnIn (sc_ent s) name)) (\<lambda>col.
              bnd (lift (present (if k < length row then Some (row ! k) else None))) (\<lambda>i.
                renderValue d col i))) xs) (fragments d)" for row xs
    by (rule binds_mapM_fragments) (auto intro!: binds_bnd_lift binds_renderValue)
  then show ?thesis
    unfolding renderTuple_def
    by (intro binds_bnd_lift binds_if binds_throw binds_bnd[OF binds_mapM[where R = "fragments d"]] binds_ret)
       (auto intro: tupleIn fragments_qualified)
qed

lemma binds_renderFulltext: "binds d (renderFulltext d s pr) (fragment d)"
  unfolding renderFulltext_def
  by (intro binds_bnd_lift binds_bnd[OF fulltext] fragments_qualified binds_values binds_lift) auto

lemma binds_renderValuePred:
  assumes "fragment d lhs []"
  shows "binds d (renderValuePred d s pr col lhs f) (fragment d)"
  unfolding renderValuePred_def
  by (rule binds_bnd[OF valueFunction], (intro binds_bnd_lift binds_values)+, rule binds_ret)
     (use assms clockOperand cmp_fragment[of "orEmpty (p_op pr)" _ d] in \<open>auto simp: lex_eval\<close>)

lemma binds_renderFunctionPred: "binds d (renderFunctionPred d s pr col column f) (fragment d)"
  unfolding renderFunctionPred_def Let_def
  by (intro binds_bnd[OF binds_columnFunction] binds_if binds_bnd_lift binds_prod
       binds_bnd[OF binds_mapM_fragments] binds_bnd[OF binds_values(1)] binds_values binds_ret)
     (auto simp: lex_eval dest!: fragment_joinS[OF _ fragment_comma] cmp_fragment[where d = d])

lemma binds_renderColumnPred:
  assumes "fragment d lhs []"
  shows "binds d (renderColumnPred d pl pr col lhs) (fragment d)"
proof -
  have list: "binds d (bnd (lift r) (\<lambda>_. bnd (mapM f xs) (\<lambda>values. ret (qcol d (pl_here pl) x, values))))
      (\<lambda>(l, vs) T. fragment d l [] \<and> fragments d vs T)"
    if "\<And>x. binds d (f x) (fragment d)" for r and f :: "int \<Rightarrow> string sql" and xs x
    by (intro binds_bnd_lift binds_bnd[OF binds_mapM_fragments] that binds_ret) (simp add: fragment_qcol)
  have list': "binds d (bnd (mapM f xs) (\<lambda>values. ret (lhs, values))) (\<lambda>(l, vs) T. fragment d l [] \<and> fragments d vs T)"
    if "\<And>x. binds d (f x) (fragment d)" for f :: "int \<Rightarrow> string sql" and xs
    by (intro binds_bnd[OF binds_mapM_fragments] that binds_ret) (simp add: assms)
  show ?thesis
    unfolding renderColumnPred_def Let_def
    by (intro binds_if binds_throw binds_bnd_lift binds_prod binds_bnd[OF binds_renderBlindIndexValue]
      binds_bnd[OF binds_renderValue] binds_ret binds_bnd[OF binds_values(3)] containsBinary binds_values assms
      binds_bnd[OF binds_if, OF list list'] binds_renderBlindIndexValue binds_renderValue)
      (use assms fragment_qcol like[OF assms] in
      \<open>auto simp: lex_eval dest!: fragment_joinS[OF _ fragment_comma] cmp_fragment[where d = d]\<close>)
qed

lemma binds_orderItem: "binds d (renderOrderItem d s ord) (fragment d)"
  unfolding renderOrderItem_def
  by (intro binds_if binds_bnd_lift binds_ret random binds_bnd[where P = "fragment d"] binds_option binds_columnFunction fragment_qcol)
     (use nullsOrder in \<open>auto simp: lex_eval\<close>)

lemma binds_orderParts: "binds d (orderParts d s) (fragments d)"
proof (induction s rule: measure_induct_rule[of size])
  case (less s)
  have own: "binds d (mapM (renderOrderItem d s) (orEmpty (q_order (sc_q s)))) (fragments d)"
    by (rule binds_mapM_fragments) (rule binds_orderItem)
  have joined: "binds d (mapM (\<lambda>j. bnd (lift (joinScope s (j_rel j))) (\<lambda>js. orderParts d js)) (orEmpty (q_joins (sc_q s))))
      (\<lambda>ys T. fragments d (concat ys) T)"
    by (rule binds_mapM_concat, rule binds_bnd_lift, rule less) (rule joinScope_size)
  show ?case
    by (subst orderParts.simps, rule binds_bnd[OF own], rule binds_bnd[OF joined], rule binds_ret)
       (simp add: fragments_append)
qed

lemma binds_renderOrder: "binds d (renderOrder d root) (fragment d)"
  unfolding renderOrder_def
  by (rule binds_bnd[OF binds_orderParts], rule binds_ret)
     (auto simp: lex_eval dest!: fragment_joinS[OF _ fragment_comma])

subsection \<open>Conditions, joins and subqueries\<close>

lemma binds_renderPlainPred: "binds d (renderPlainPred d pl pr col column) (fragment d)"
  unfolding renderPlainPred_def Let_def
  by (intro binds_option binds_renderValuePred binds_renderFunctionPred binds_renderColumnPred fragment_qcol)

lemma fragments_itemParts:
  "list_all2 (\<lambda>(conn, text) T. fragment d text T) parts Ts \<Longrightarrow>
     fragments d (concat (map (\<lambda>(i, conn, text).
       if 0 < i then [if conn = ''or'' then ''OR'' else ''AND'', text] else [text]) (enumerate k parts))) (concat Ts)"
proof (induction parts arbitrary: k Ts)
  case (Cons p parts)
  then obtain T Ts' where Ts: "Ts = T # Ts'" "fragment d (snd p) T" "list_all2 (\<lambda>(conn, text) T. fragment d text T) parts Ts'"
    by (auto simp: list_all2_Cons1 split: prod.splits)
  have "fragments d (if 0 < k then [if fst p = ''or'' then ''OR'' else ''AND'', snd p] else [snd p]) T"
    using Ts(2) by (auto simp: fragments_def lex_eval)
  from fragments_append[OF this Cons.IH[OF Ts(3), of "Suc k"]] show ?case
    by (simp only: Ts(1) enumerate_simps list.map concat.simps case_prod_beta fst_conv snd_conv)
qed (simp add: fragments_def)

lemma fragment_groupText:
  assumes "list_all2 (\<lambda>(conn, text) T. fragment d text T) parts Ts"
  shows "fragment d (groupText g atTop parts) (concat Ts)"
proof -
  have "fragment d '' '' []" by (simp add: lex_eval)
  from fragment_joinS[OF fragments_itemParts[OF assms] this]
  have "fragment d (joinItems parts) (concat Ts)" by (simp add: joinItems_def)
  then show ?thesis by (auto simp: groupText_def Let_def lex_eval)
qed

lemma subHead_fragment: "subHead d root sub = Inr t \<Longrightarrow> fragment d t []"
  using fragment_qcol[of root] by (auto simp: subHead_def Let_def lex_eval res_simps split: if_splits)

lemma fragment_limitText: "fragment d (d_limit d (limitText a) (limitText b)) []"
  by (rule limit_literal) (auto dest: limitText_plain)

lemma fragment_empty: "fragment d '''' []"
  by (simp add: lex_eval)

lemma binds_subTail: "binds d (subTail d root sub) (fragment d)"
  unfolding subTail_def
  by (intro binds_option binds_if binds_throw binds_bnd[OF binds_renderOrder] binds_ret fragment_empty
       fragment_append fragment_limitText)
     (auto intro: fragment_append fragment_limitText)

lemma binds_joinHead: "binds d (joinHead d s js j) (fragment d)"
  unfolding joinHead_def Let_def
  by (intro binds_bnd_lift binds_bnd[OF binds_table] binds_ret)
     (use fragment_qcol quote[of "sc_alias js"] forceIndex in \<open>auto simp: lex_eval\<close>)

lemma fragment_whereText: "fragments d ts T \<Longrightarrow> fragment d (whereText ts) T"
  using fragment_joinS[of d ts T "'' AND ''"] by (auto simp: whereText_def lex_eval)

lemma fragments_softDelete: "fragments d (softDeleteGuard d root) []"
  using fragment_qcol by (auto simp: softDeleteGuard_def lex_eval)

lemma renderGroup_step:
  assumes "\<And>it p. it \<in> set (g_items g) \<Longrightarrow> i_pred it = Some p \<Longrightarrow> binds d (renderPred m d pl p) (fragment d)"
    and "\<And>it g'. it \<in> set (g_items g) \<Longrightarrow> i_group it = Some g' \<Longrightarrow> binds d (renderGroup m d pl g' False) (fragment d)"
    and "\<And>it j js g'. it \<in> set (g_items g) \<Longrightarrow> i_joined it = Some j \<Longrightarrow> joinScope (pl_here pl) (jr_join j) = Inr js \<Longrightarrow>
         q_where (sc_q js) = Some g' \<Longrightarrow> binds d (renderGroup m d (joinedPlace pl js) g' False) (fragment d)"
  shows "binds d (renderGroup m d pl g t) (fragment d)"
  by (subst renderGroup.simps,
      rule binds_bnd[OF binds_mapM[where R = "\<lambda>(conn, text) T. fragment d text T"]],
      rule binds_bnd[where P = "fragment d"], intro binds_option binds_bnd_lift)
     (use assms in \<open>auto intro!: binds_ret fragment_groupText\<close>)

lemma renderPred_step:
  assumes "\<And>sub. p_sub pr = Some sub \<Longrightarrow> binds d (subSelect m d pl sub) (fragment d)"
  shows "binds d (renderPred m d pl pr) (fragment d)"
  unfolding renderPred.simps Let_def
  by (intro binds_if binds_renderTuple binds_renderFulltext binds_bnd_lift binds_option binds_renderPlainPred
       binds_bnd[OF assms] binds_ret)
     (use fragment_qcol[of "pl_here pl"] in \<open>auto simp: lex_eval\<close>)

lemma subSelect_step:
  assumes "\<And>al root. buildScopes m (s_query sub) al False = Inr root \<Longrightarrow> binds d (renderJoins m d (Place root root (Some pl))) (fragment d)"
    and "\<And>al root g. buildScopes m (s_query sub) al False = Inr root \<Longrightarrow> q_where (s_query sub) = Some g \<Longrightarrow>
         binds d (renderGroup m d (Place root root (Some pl)) g True) (fragment d)"
    and "\<And>al root. buildScopes m (s_query sub) al False = Inr root \<Longrightarrow> binds d (collectJoinWhere m d (Place root root (Some pl))) (fragments d)"
  shows "binds d (subSelect m d pl sub) (fragment d)"
proof -
  have own: "binds d (case nonempty (q_where (s_query sub)) of None \<Rightarrow> ret []
       | Some g \<Rightarrow> bnd (renderGroup m d (Place root root (Some pl)) g True) (\<lambda>text. ret [text])) (fragments d)"
    if "buildScopes m (s_query sub) al False = Inr root" for al root
    by (intro binds_option binds_bnd[OF assms(2)[OF that]] binds_ret) (auto simp: lex_simps dest: nonempty_Some)
  show ?thesis
    apply (subst subSelect.simps)
    apply (rule binds_bnd[OF binds_modify[where R = "\<lambda>_ T. T = []"]], simp, simp)
    apply (rule binds_bnd[OF binds_gets[where R = "\<lambda>_ T. T = []"]], simp)
    apply (intro binds_bnd_lift)
    apply (rule binds_bnd[OF binds_table], rule binds_bnd[OF assms(1)], assumption)
    apply (rule binds_bnd[OF own], assumption, rule binds_bnd[OF assms(3)], assumption)
    apply (rule binds_bnd[OF binds_subTail], rule binds_ret)
    subgoal premises prems for _ _ _ _ root t1 t T1 j TJ own TO col TC tail TT
      using prems fragment_whereText[OF fragments_append[OF fragments_softDelete[of root] fragments_append[of d own TO col TC]]]
        subHead_fragment[of root sub] quote[of "sc_alias root"]
      apply (auto simp: lex_eval)
      done
    done
qed

lemma renderJoins_step:
  assumes "\<And>rel js g. joinScope (pl_here pl) rel = Inr js \<Longrightarrow> q_on (sc_q js) = Some g \<Longrightarrow>
         binds d (renderGroup m d (joinedPlace pl js) g True) (fragment d)"
    and "\<And>rel js. joinScope (pl_here pl) rel = Inr js \<Longrightarrow> binds d (renderJoins m d (joinedPlace pl js)) (fragment d)"
  shows "binds d (renderJoins m d pl) (fragment d)"
proof -
  have on: "binds d (case nonempty (q_on (sc_q js)) of None \<Rightarrow> ret ''''
       | Some g \<Rightarrow> bnd (renderGroup m d (joinedPlace pl js) g True) (\<lambda>text. ret ('' AND '' @ text))) (fragment d)"
    if "joinScope (pl_here pl) rel = Inr js" for rel js
    by (intro binds_option binds_bnd[OF assms(1)[OF that]] binds_ret) (auto simp: lex_eval dest: nonempty_Some)
  show ?thesis
    by (subst renderJoins.simps, rule binds_bnd[OF binds_mapM_fragments], rule binds_bnd_lift,
        rule binds_bnd[OF binds_joinHead], rule binds_bnd[OF on], assumption, rule binds_bnd[OF assms(2)], assumption)
       (auto intro!: binds_ret fragment_concat fragment_append simp del: append_assoc)
qed

lemma collectJoinWhere_step:
  assumes "\<And>rel js g. joinScope (pl_here pl) rel = Inr js \<Longrightarrow> q_where (sc_q js) = Some g \<Longrightarrow>
         binds d (renderGroup m d (joinedPlace pl js) g False) (fragment d)"
    and "\<And>rel js. joinScope (pl_here pl) rel = Inr js \<Longrightarrow> binds d (collectJoinWhere m d (joinedPlace pl js)) (fragments d)"
  shows "binds d (collectJoinWhere m d pl) (fragments d)"
proof -
  have own: "binds d (if rel \<in> X then ret [] else case nonempty (q_where (sc_q js)) of None \<Rightarrow> ret []
       | Some g \<Rightarrow> bnd (renderGroup m d (joinedPlace pl js) g False) (\<lambda>text. ret [text])) (fragments d)"
    if "joinScope (pl_here pl) rel = Inr js" for rel js X
    by (intro binds_if binds_option binds_bnd[OF assms(1)[OF that]] binds_ret) (auto simp: lex_simps dest: nonempty_Some)
  show ?thesis
    by (subst collectJoinWhere.simps, rule binds_bnd[OF binds_mapM_concat], rule binds_bnd_lift,
        rule binds_bnd[OF own], assumption, rule binds_bnd[OF assms(2)], assumption)
       (auto intro!: binds_ret fragments_append)
qed

lemmas render_steps = renderGroup_step renderPred_step subSelect_step renderJoins_step collectJoinWhere_step

lemma binds_render:
  "binds d (renderGroup m d pl g t) (fragment d)" "binds d (subSelect m d pl sb) (fragment d)"
  "binds d (renderJoins m d pl) (fragment d)" "binds d (collectJoinWhere m d pl) (fragments d)"
  by (rule render_induct[where m = m and PG = "\<lambda>pl g t. binds d (renderGroup m d pl g t) (fragment d)"
        and PP = "\<lambda>pl pr. binds d (renderPred m d pl pr) (fragment d)"
        and PS = "\<lambda>pl sb. binds d (subSelect m d pl sb) (fragment d)"
        and PJ = "\<lambda>pl. binds d (renderJoins m d pl) (fragment d)"
        and PC = "\<lambda>pl. binds d (collectJoinWhere m d pl) (fragments d)"]; (rule render_steps; blast)?)+

subsection \<open>Statements that write\<close>

lemma binds_length: "binds d (gets (\<lambda>b. length (b_binds b))) (\<lambda>_ T. T = [])"
  by (rule binds_gets) simp

lemma binds_renderAssign: "binds d (renderAssign d ent col a) (fragment d)"
  unfolding renderAssign_def Let_def
  by (intro binds_if binds_option binds_throw binds_bnd[OF binds_length] binds_bnd_lift
       binds_bnd[OF binds_renderBlindIndexValue] binds_bnd[OF binds_renderValue] binds_bnd[OF binds_values(3)]
       binds_bnd[OF binds_markAssigned] binds_ret)
     (use quote in \<open>auto simp: lex_eval\<close>)

lemma binds_clock: "binds d (clock d col) (fragment d)"
  unfolding clock_def by (intro binds_if binds_values binds_ret now)

lemma binds_auditAssignment: "binds d (auditAssignment d ent) (fragments d)"
  unfolding auditAssignment_def
  by (intro binds_if binds_bnd[OF binds_audit] binds_ret) (use quote in \<open>auto simp: lex_eval\<close>)

lemma binds_renderSets: "binds d (renderSets d ent asg) (fragments d)"
  unfolding renderSets_def
  by (intro binds_mapM_fragments binds_bnd_lift binds_bnd[OF binds_renderAssign] binds_ret)
     (use quote in \<open>auto simp: lex_eval\<close>)

lemma binds_versionAssignment: "binds d (versionAssignment d ent c) (fragments d)"
  unfolding versionAssignment_def
  by (intro binds_if binds_bnd_lift binds_bnd[OF binds_values(4)] binds_ret)
     (use quote in \<open>auto simp: lex_eval\<close>)

lemma binds_managed: "v \<in> set (map snd (managedInsertColumns d ent asg)) \<Longrightarrow> binds d v (fragment d)"
  by (auto simp: managedInsertColumns_def Let_def intro!: binds_bnd_lift binds_values binds_audit split: if_splits)

lemma binds_insertValue: "binds d (insertValue d ent load a) (fragment d)"
  unfolding insertValue_def by (intro binds_bnd_lift binds_if binds_throw binds_renderAssign)

lemma fragment_list: "fragments d ts T \<Longrightarrow> fragment d (joinS '', '' ts) T"
  by (rule fragment_joinS[OF _ fragment_comma])

lemma fragment_row: "fragments d ts T \<Longrightarrow> fragment d ('', ('' @ joinS '', '' ts @ '')'') T"
  using fragment_list[of ts T] by (auto simp: lex_eval)

lemma binds_insertRow:
  assumes "\<And>v. v \<in> set managed \<Longrightarrow> binds d v (fragment d)"
  shows "binds d (insertRow d ent asg sources managed row) (fragment d)"
  unfolding insertRow_def rowValue_def
  by (intro binds_bnd[OF binds_mapM_fragments] binds_bnd_lift binds_renderAssign binds_ret assms)
     (auto intro: fragment_row fragments_append simp del: append_assoc append_Cons)

lemma binds_upsertText: "binds d (upsertText d ent asg dup) (fragment d)"
proof -
  have id: "fragments d (if e_identity ent \<noteq> '''' \<and> \<not> d_insertReturningId d
      then [d_quote d (e_identity ent) @ '' = LAST_INSERT_ID('' @ d_quote d (e_identity ent) @ '')''] else []) []"
    using quote by (auto simp: lex_eval)
  show ?thesis
    unfolding upsertText_def Let_def
    by (intro binds_bnd_lift binds_prod binds_bnd[OF binds_renderSets] binds_bnd[OF binds_versionAssignment]
         binds_bnd[OF binds_auditAssignment] binds_ret upsert fragment_joinS fragment_comma fragments_append id)
       auto
qed

lemma returning_fragment: "returningText d assigns ent = Inr t \<Longrightarrow> fragment d t []"
  using quote by (auto simp: returningText_def lex_eval res_simps split: if_splits)

lemma fragments_quoted: "fragments d (map (d_quote d) names) []"
  using quote by (auto simp: fragments_def fragment_def)

lemma fragment_insert:
  assumes "fragment d table []" "fragments d vals T"
  shows "fragment d (''INSERT INTO '' @ table @ '' ('' @ joinS '', '' (map (d_quote d) names) @ '') VALUES (''
     @ joinS '', '' vals @ '')'') T"
  using fragment_list[OF assms(2)] fragment_list[OF fragments_quoted[of names]] assms(1) by (auto simp: lex_eval)

lemma binds_own: "binds d (mapM snd (managedInsertColumns d ent asg)) (fragments d)"
  by (rule binds_mapM_fragments) (use binds_managed in force)

lemma binds_insertHead: "binds d (insertHead d ent r asg) (fragment d)"
  unfolding insertHead_def Let_def
  by (intro binds_bnd[OF binds_mapM_fragments[OF binds_insertValue]] binds_bnd[OF binds_own] binds_bnd[OF binds_table] binds_ret)
     (auto intro: fragment_insert fragments_append simp del: append_Cons map_append)

lemma binds_insertTail: "binds d (insertTail d assigns ent r asg sources) (fragment d)"
proof -
  have up: "binds d (if dup \<noteq> [] then upsertText d ent asg dup else ret '''') (fragment d)" for dup
    by (intro binds_if binds_upsertText binds_ret fragment_empty)
  have row: "binds d (insertRow d ent asg sources (map snd (managedInsertColumns d ent asg)) row) (fragment d)" for row
    by (rule binds_insertRow) (rule binds_managed)
  show ?thesis
    unfolding insertTail_def Let_def
    by (intro binds_if binds_bnd[OF binds_mapM_fragments[OF row]] binds_bnd[OF up] binds_bnd_lift binds_ret)
       (auto intro: fragment_concat fragmentI_append[OF _ returning_fragment])
qed

lemma binds_insertSql: "binds d (insertSql d assigns ent r asg sources) (fragment d)"
  unfolding insertSql_def
  by (intro binds_bnd[OF binds_insertHead] binds_bnd[OF binds_insertTail] binds_ret) (simp add: fragment_append)

text \<open>The shape of every update.\<close>

lemma fragment_update:
  assumes "fragment d table []" "fragments d sets S" "fragment d cond W" "T = S @ W"
  shows "fragment d (''UPDATE '' @ table @ '' SET '' @ joinS '', '' sets @ '' WHERE '' @ cond) T"
  using assms fragment_list[OF assms(2)] by (auto simp: lex_eval)

lemma fragment_set: "fragment d v T \<Longrightarrow> fragment d (d_quote d c @ '' = '' @ v) T"
  using quote[of c] by (auto simp: lex_eval)

lemma fragment_null:
  "fragment d ('' AND '' @ qcol d s c @ '' IS NULL'') []" "fragment d ('' AND '' @ qcol d s c @ '' IS NOT NULL'') []"
  using fragment_qcol[of s c] by (auto simp: lex_eval)

lemma binds_updated:
  "binds d (if c then bnd (lift x) (\<lambda>f. bnd (clock d f) (\<lambda>now. ret [d_quote d n @ '' = '' @ now])) else ret []) (fragments d)"
  by (intro binds_if binds_bnd_lift binds_bnd[OF binds_clock] binds_ret) (simp_all add: fragment_set lex_simps del: append_Cons)

lemma binds_optimistic:
  "binds d (case opt of None \<Rightarrow> ret '''' | Some op \<Rightarrow> bnd (lift (columnIn e (op_column op))) (\<lambda>c.
     bnd (colParam d (op_p op) c '''') (\<lambda>ph. ret ('' AND '' @ qcol d s (op_column op) @ '' = '' @ ph)))) (fragment d)"
  by (intro binds_option binds_bnd_lift binds_bnd[OF binds_values(3)] binds_ret fragment_empty)
     (use fragment_qcol[of s] in \<open>auto simp: lex_eval\<close>)

lemma fragment_guard:
  "fragment d (if e_softDelete ent \<noteq> '''' then '' AND '' @ qcol d s (e_softDelete ent) @ '' IS NULL'' else '''') []"
  using fragment_null(1) fragment_empty by simp

lemma binds_updateSql: "binds d (updateSql m d ent r asg root) (fragment d)"
  unfolding updateSql_def
  apply (rule binds_bnd[OF binds_renderSets], rule binds_bnd[OF binds_versionAssignment], rule binds_bnd[OF binds_updated],
      rule binds_bnd[OF binds_auditAssignment], rule binds_bnd_lift, rule binds_bnd[OF binds_render(1)],
      rule binds_bnd[OF binds_optimistic], rule binds_bnd[OF binds_table], rule binds_ret)
  subgoal premises p
    using p(8)
    by (intro fragment_update[OF _ fragments_append[OF p(1) fragments_append[OF p(2) fragments_append[OF p(3) p(4)]]]
      fragment_append[OF p(6) fragment_append[OF p(7) fragment_guard]]]) auto
  done

lemma binds_deleteSql: "binds d (deleteSql m d ent r root) (fragment d)"
proof (cases "e_softDelete ent = ''''")
  case True
  then show ?thesis
    unfolding deleteSql_def
    by (auto intro!: binds_bnd_lift binds_bnd[OF binds_table] binds_bnd[OF binds_render(1)] binds_ret simp: lex_eval)
next
  case False
  show ?thesis
    unfolding deleteSql_def if_not_P[OF False]
    apply (intro binds_bnd_lift binds_bnd[OF binds_clock] binds_bnd[OF binds_auditAssignment] binds_bnd[OF binds_render(1)]
         binds_bnd[OF binds_table] binds_ret)
    subgoal premises p
      using p(6)
      by (intro fragment_update[OF _ fragments_Cons[OF fragment_set[OF p(2)] p(3)] fragment_append[OF p(5) fragment_null(1)]]) auto
    done
qed

lemma binds_restoreSql: "binds d (restoreSql m d ent w asg root) (fragment d)"
  unfolding restoreSql_def
  apply (intro binds_bnd[OF binds_renderSets] binds_bnd[OF binds_versionAssignment] binds_bnd[OF binds_auditAssignment]
       binds_bnd[OF binds_render(1)] binds_bnd[OF binds_table] binds_ret)
  subgoal premises p
  proof -
    have "fragments d [d_quote d (e_softDelete ent) @ '' = NULL''] []"
      using quote[of "e_softDelete ent"] by (auto simp: lex_eval)
    note sets = fragments_append[OF p(1) fragments_append[OF p(2) fragments_append[OF this p(3)]]]
    show ?thesis
      using p(5) by (intro fragment_update[OF _ sets fragment_append[OF p(4) fragment_null(2)]]) auto
  qed
  done

subsection \<open>Statements that read\<close>

lemma binds_selectExpr: "binds d (selectExpr m d pl c) (\<lambda>(expr, type, styles) T. fragment d expr T)"
proof -
  have "fragment d t T \<Longrightarrow> fragment d (''('' @ t @ '')'') T" for t T by (auto simp: lex_eval)
  then show ?thesis
    unfolding selectExpr_def Let_def
    by (intro binds_option binds_bnd_lift binds_bnd[OF binds_columnFunction] binds_bnd[OF binds_render(2)] binds_ret)
       (auto intro: fragment_readColumn fragment_qcol simp del: append_Cons)
qed

lemma binds_selectColumn: "binds d (selectColumn m d pl n ic) (\<lambda>(text, col) T. fragment d text T)"
  unfolding selectColumn_def
  by (cases ic, simp only: prod.case, rule binds_bnd[OF binds_selectExpr])
     (use quote in \<open>auto intro!: binds_ret simp: lex_eval\<close>)

lemma version_fragments: "versionColumn d s n aes cols = Inr (ts, hidden, v) \<Longrightarrow> fragments d ts []"
  using quote fragment_qcol
  by (auto simp: versionColumn_def lex_eval res_simps split: if_splits option.splits)

lemma list_all2_fst: "list_all2 (\<lambda>(t, c) T. fragment d t T) ps Ts \<Longrightarrow> fragments d (map fst ps) (concat Ts)"
  by (induction ps Ts rule: list_all2_induct) (auto simp: fragments_def fragment_def)

lemma binds_ownList: "binds d (ownList m d pl n) (\<lambda>(text, cols, v) T. fragment d text T)"
  unfolding ownList_def Let_def
  by (intro binds_bnd_lift binds_bnd[OF binds_mapM[OF binds_selectColumn]] binds_prod binds_ret)
     (auto intro!: fragment_list fragmentsI_append[OF list_all2_fst version_fragments])

lemma binds_selectList: "binds d (selectList m d pl n) (\<lambda>(text, asm, k, names) T. fragment d text T)"
proof (induction "size (pl_here pl)" arbitrary: pl n rule: less_induct)
  case less
  let ?R = "\<lambda>(sql :: string, children :: child list, k :: nat, names :: string list) T. fragment d sql T"
  have step: "binds d ((\<lambda>(sql, children, k, names) j.
         bnd (lift (joinScope (pl_here pl) (j_rel j))) (\<lambda>js.
         bnd (selectList m d (joinedPlace pl js) k) (\<lambda>(joined, asm, k', names').
           ret (if joined = '''' then sql else if sql = '''' then joined else sql @ '', '' @ joined,
                children @ [joinChild (j_rel j) asm], k', names @ names')))) c j) (\<lambda>c' U. ?R c' (T @ U))"
    if "?R c T" for c j T
    using that
    by (auto intro!: binds_bnd_lift binds_bnd[OF less] binds_ret simp: joinScope_size lex_eval)
  show ?case
    unfolding selectList.simps[of m d pl n] Let_def
    by (rule binds_bnd[OF binds_ownList], rule binds_prod, rule binds_prod,
        rule binds_bnd[OF binds_foldM[where R = ?R, OF _ step]])
       (auto intro!: binds_bnd_lift binds_ret)
qed

lemma groupCount_fragment:
  assumes "selectGroupCountList d s = Inr (sql, asm, names)"
  shows "fragment d sql []"
proof -
  from assms obtain parts where parts: "mapRes (\<lambda>(i, name).
          bind_res (orFail (fieldOf (sc_ent s) name) COLUMN_UNKNOWN) (\<lambda>col.
            Inr (readColumn d (qcol d s name) col @ '' AS '' @ d_quote d (outName s name),
                 \<lparr>oc_index = i, oc_name = name, oc_column = name, oc_type = f_type col,
                  oc_styles = clientStyles d (f_stages col), oc_hidden = False\<rparr>))) (enumerate 0 (orEmpty (q_group_by (sc_q s)))) = Inr parts"
    and sql: "sql = joinS '', '' (map fst parts @ [''COUNT(*) AS '' @ d_quote d (outName s ''row_count'')])"
    by (auto simp: selectGroupCountList_def Let_def res_simps)
  have part: "fragment d (readColumn d (qcol d s name) col @ '' AS '' @ d_quote d (outName s name)) []" for name col
    using fragment_readColumn[OF fragment_qcol, of s name col] quote by (auto simp: lex_eval)
  have "fragments d (map fst parts) []"
    using mapRes_cases[OF parts] part by (fastforce simp: fragments_def fragment_def res_simps)
  then show ?thesis
    unfolding sql by (intro fragment_list fragmentsI_append) (use quote in \<open>auto simp: lex_eval\<close>)
qed

lemma binds_selectHead:
  "binds d (selectHead m d root kind agg) (\<lambda>(sql, asm, names) T. balanced d sql \<and> placeholders d sql = T)"
  unfolding selectHead_def Let_def
  by (intro binds_if binds_bnd_lift binds_bnd[OF binds_selectList] binds_prod binds_ret)
     (use fragment_qcol[of root agg] in \<open>auto simp: lex_eval dest: groupCount_fragment intro!: binds_bnd_lift binds_ret\<close>)

lemma binds_windowText: "binds d (windowText d root rc) (fragment d)"
proof -
  have "binds d (windowOrder d root) (fragment d)"
    unfolding windowOrder_def
    by (intro binds_bnd[OF binds_renderOrder] binds_if binds_bnd_lift binds_ret)
       (use fragment_qcol[of root] in \<open>auto simp: lex_eval\<close>)
  then show ?thesis
    unfolding windowText_def
    by (elim binds_bnd, intro binds_ret)
       (use fragment_list[OF fragments_qualified[of root "rc_childKeys rc"]] quote[of "''orm_rn''"] in \<open>auto simp: lex_eval\<close>)
qed

lemma binds_parentCondition: "binds d (parentCondition d root rc) (fragment d)"
  unfolding parentCondition_def
  by (intro binds_bnd_lift binds_bnd[OF binds_values(6)] binds_ret)
     (use fragment_list[OF fragments_qualified[of root "rc_childKeys rc"]] fragment_qcol[of root] in
       \<open>auto simp: lex_eval split: list.split\<close>)

lemma fragment_cutPerParent:
  assumes "fragment d sql T"
  shows "fragment d (cutPerParent d root rc names n sql) T"
proof -
  have out: "fragment d (w @ ''.'' @ d_quote d x) []" if "fragment d w []" for w x
    using that quote[of x] by (auto simp: lex_eval)
  have list: "fragments d (map (\<lambda>x. d_quote d w @ ''.'' @ d_quote d (f x)) xs) []" for w f and xs :: "string list"
    using out[OF quote] by (auto simp: fragments_def fragment_def simp del: append_Cons)
  have num: "placeholders d (show_int n @ y) = placeholders d y \<and> balanced d (show_int n @ y) = balanced d y" for y
    by (rule lex_all_plain) (rule show_int_plain)
  show ?thesis
    unfolding cutPerParent_def Let_def
    using assms quote[of "''orm_w''"] quote[of "''orm_rn''"]
      fragment_list[OF list[of "''orm_w''" "\<lambda>x. x" names]]
      fragment_list[OF list[of "''orm_w''" "outName root" "rc_childKeys rc"]] num
    by (auto simp: lex_eval)
qed

lemma binds_limitPart: "binds d (limitPart d l) (fragment d)"
  unfolding limitPart_def
  by (cases "l_offset_p l"; cases "l_count_p l")
     (auto intro!: binds_if binds_bnd[OF binds_values(1)] binds_ret intro: limit_first limit_last fragment_limitText)

lemma binds_selectTail: "binds d (selectTail d root kind rel) (fragment d)"
proof -
  have lock: "lockPart d q = Inr t \<Longrightarrow> fragment d t []" for q t
    using rowLock by (auto simp: lockPart_def lex_simps fragment_def split: if_splits)
  have one: "fragment d (d_limit d ''0'' ''1'') []"
    by (rule limit_literal) (simp add: plain_def)
  have page: "binds d (if c then ret (d_limit d ''0'' ''1'') else case q_limit q of None \<Rightarrow> ret '''' | Some l \<Rightarrow> limitPart d l) (fragment d)"
    for c q by (intro binds_if binds_option binds_ret one fragment_empty binds_limitPart)
  show ?thesis
    unfolding selectTail_def Let_def
    by (intro binds_bnd[OF binds_renderOrder] binds_bnd[OF page] binds_bnd_lift binds_ret)
       (auto intro!: fragmentI_append dest: lock)
qed

lemma binds_selectWhere: "binds d (selectWhere m d root rc) (fragments d)"
proof -
  have parents: "binds d (case rc of None \<Rightarrow> ret [] | Some c \<Rightarrow> bnd (parentCondition d root c) (\<lambda>t. ret [t])) (fragments d)"
    by (intro binds_option binds_bnd[OF binds_parentCondition] binds_ret) (simp_all add: lex_simps)
  have own: "binds d (case nonempty (q_where (sc_q root)) of None \<Rightarrow> ret []
      | Some g \<Rightarrow> bnd (renderGroup m d (rootOf root) g top') (\<lambda>t. ret [t])) (fragments d)" for top'
    by (intro binds_option binds_bnd[OF binds_render(1)] binds_ret) (simp_all add: lex_simps)
  show ?thesis
    unfolding selectWhere_def
    apply (intro binds_bnd[OF parents] binds_bnd[OF own] binds_bnd[OF binds_render(4)] binds_ret)
    subgoal premises p
      using fragments_append[OF p(1) fragments_append[OF fragments_softDelete fragments_append[OF p(2) p(3)]]] by simp
    done
qed

lemma fragment_selectBody:
  assumes "balanced d list" "placeholders d list = L" "fragment d w W" "fragment d table []" "fragment d joins J" "fragments d conds C"
  shows "fragment d (selectBody d root list w table joins conds) (L @ W @ J @ C)"
proof -
  have index: "fragment d (if i \<noteq> '''' then d_forceIndex d i else '''') []" for i
    using forceIndex fragment_empty by simp
  have "fragments d (map (qcol d root) cols) []" for cols
    using fragments_qualified[of root cols] by (simp add: qualifiedCols_def)
  from fragment_list[OF this]
  have grouped: "fragment d (if c then '' GROUP BY '' @ joinS '', '' (map (qcol d root) cols) else '''') []" for c cols
    by (auto simp: lex_eval)
  have *: "fragment d (w @ '' FROM '' @ table @ '' AS '' @ d_quote d (sc_alias root) @ i @ joins @ whereText conds @ g) (W @ J @ C)"
    if "fragment d i []" "fragment d g []" for i g
    using assms(3-5) fragment_whereText[OF assms(6)] quote[of "sc_alias root"] that by (auto simp: lex_eval)
  show ?thesis
    unfolding selectBody_def using *[OF index grouped] assms(1,2) by (auto simp: lex_eval simp del: if_split)
qed

lemma binds_rowNumber: "binds d (rowNumberText d root rc n) (fragment d)"
  unfolding rowNumberText_def by (intro binds_option binds_if binds_windowText binds_ret fragment_empty)

lemma fragment_countGroups: "fragment d sql T \<Longrightarrow> fragment d (countGroups d root kind sql) T"
  using quote[of "''orm_g''"] by (auto simp: countGroups_def lex_eval)

lemma binds_finishSelect:
  assumes "fragment d sql T"
  shows "binds d (finishSelect d root kind rc n names sql) (\<lambda>t U. fragment d t (T @ U))"
  unfolding finishSelect_def
  by (intro binds_if binds_option binds_bnd[OF binds_selectTail] binds_ret)
     (use assms fragment_cutPerParent[OF assms] in \<open>auto intro: fragment_append\<close>)

lemma binds_selectSql: "binds d (selectSql m d root kind agg rc) (\<lambda>(sql, asm) T. fragment d sql T)"
  unfolding selectSql_def Let_def
  apply (rule binds_bnd[OF binds_selectHead], rule binds_prod, rule binds_prod, rule binds_bnd[OF binds_rowNumber],
      rule binds_bnd[OF binds_table], rule binds_bnd[OF binds_render(3)], rule binds_bnd[OF binds_selectWhere])
  subgoal premises p for a L list aa asm names w W table X joins J conds C
  proof -
    have "fragment d (countGroups d root kind (selectBody d root list w table joins conds)) (L @ W @ J @ C)"
      using p by (intro fragment_countGroups fragment_selectBody) auto
    from binds_finishSelect[OF this, of root kind rc "perParentOf (sc_q root) rc" names] show ?thesis
      by (rule binds_bnd) (use p in \<open>auto intro!: binds_ret\<close>)
  qed
  done

subsection \<open>Steps\<close>

lemma aligned_main:
  assumes "binds d f R" and "f newBuilder = Inr (x, b)" and "\<And>T. R x T \<Longrightarrow> fragment d sql T"
  shows "aligned d (mainStep sql b)"
proof -
  have "R x (tokens d 0 (slots b))"
    using assms(1)[unfolded binds_def, rule_format, OF assms(2)] by (simp add: newBuilder_def slots_def)
  then show ?thesis
    using assms(3) by (auto simp: aligned_def mainStep_def slots_def fragment_def)
qed

lemma aligned_run: "binds d f (fragment d) \<Longrightarrow> f newBuilder = Inr (sql, b) \<Longrightarrow> aligned d (mainStep sql b)"
  by (rule aligned_main)

lemma aligned_writes:
  "insertStep m d assigns r = Inr st \<Longrightarrow> aligned d st"
  "updateStep m d r = Inr st \<Longrightarrow> aligned d st"
  "deleteStep m d r = Inr st \<Longrightarrow> aligned d st"
  "restoreStep m d r = Inr st \<Longrightarrow> aligned d st"
  by (auto simp: insertStep_def updateStep_def deleteStep_def restoreStep_def res_simps
       dest: aligned_run[OF binds_insertSql] aligned_run[OF binds_updateSql]
         aligned_run[OF binds_deleteSql] aligned_run[OF binds_restoreSql])

lemma aligned_restart: "restartIdentityStep m d r = Inr st \<Longrightarrow> aligned d st"
  using restartIdentity by (auto simp: restartIdentityStep_def res_simps aligned_def mainStep_def fragment_def)

lemma keeps_addStep: "aligned d st \<Longrightarrow> keeps (\<lambda>steps. \<forall>s \<in> set steps. aligned d s) (addStep st)"
  unfolding addStep_def by (intro keeps_bnd keeps_basic keeps_modify) (auto simp: aligned_def)

lemma selectRole_aligned:
  "selectRole root kind rc n asm sql b = Inr st \<Longrightarrow> aligned d (mainStep sql b) \<Longrightarrow> aligned d st"
  by (auto simp: selectRole_def Let_def aligned_def res_simps split: if_splits option.splits)

lemma keeps_addSelect: "keeps (\<lambda>steps. \<forall>s \<in> set steps. aligned d s) (addSelect m d root kind agg rc)"
  unfolding addSelect_def case_prod_beta
  by (intro keeps_bnd_lift keeps_bnd keeps_basic keeps_addStep)
     (auto intro: selectRole_aligned aligned_main[OF binds_selectSql])

lemma keeps_setAssemble: "keeps (\<lambda>steps. \<forall>s \<in> set steps. aligned d s) (modify (setAssemble i asm))"
  by (rule keeps_modify) (auto simp: setAssemble_def aligned_def)

lemma keeps_relations:
  shows keeps_selectStep: "keeps (\<lambda>steps. \<forall>s \<in> set steps. aligned d s) (selectStep m d q kind agg rc)"
    and keeps_relationSteps: "keeps (\<lambda>steps. \<forall>s \<in> set steps. aligned d s) (relationSteps m d s asm i)"
proof (induction q kind agg rc and s asm i rule: steps_induct[where m = m])
  case (1 q kind agg rc)
  show ?case
    unfolding selectStep.simps[of m d q] case_prod_beta
    by (intro keeps_bnd_lift keeps_bnd[OF keeps_addSelect] keeps_if keeps_basic keeps_bnd keeps_setAssemble 1)
next
  case (2 s asm i)
  show ?case
    unfolding relationSteps.simps[of m d s]
    by (intro keeps_bnd keeps_foldM keeps_bnd_lift keeps_basic keeps_mapM keeps_if 2)
qed

lemma keeps_planSteps: "keeps (\<lambda>steps. \<forall>s \<in> set steps. aligned d s) (planSteps m d assigns r)"
proof -
  have add: "keeps (\<lambda>steps. \<forall>s \<in> set steps. aligned d s) (bnd (lift x) (\<lambda>st. bnd (addStep st) (\<lambda>_. ret ())))"
    if "\<And>st. x = Inr st \<Longrightarrow> aligned d st" for x
    by (intro keeps_bnd_lift keeps_bnd keeps_addStep keeps_basic that)
  have page: "keeps (\<lambda>steps. \<forall>s \<in> set steps. aligned d s) (paginateSteps m d q)" for q
    unfolding paginateSteps_def case_prod_beta
    by (intro keeps_bnd_lift keeps_bnd keeps_addSelect keeps_selectStep keeps_relationSteps keeps_setAssemble)
  show ?thesis
    unfolding planSteps_def Let_def
    by (intro keeps_if add page keeps_bnd keeps_selectStep keeps_basic) (auto dest: aligned_writes aligned_restart)
qed

lemma plan_aligned: "plannerCompile m d assigns r = Inr p \<Longrightarrow> st \<in> set (pl_steps p) \<Longrightarrow> aligned d st"
  using plannerCompile_keeps[OF keeps_planSteps] by simp

end

subsection \<open>The three dialects\<close>

lemma compiled_aligned:
  assumes "dialectOf name = Some d" and "compile m name assigns r = Inr p" and "st \<in> set (pl_steps p)"
  shows "aligned d st"
proof -
  have "plannerCompile m d assigns r = Inr p"
    using assms(1,2) by (simp add: compile_def res_simps)
  with assms(1,3) show ?thesis
    by (auto simp: dialectOf_def split: if_splits
      dest: mysql_sql.plan_aligned postgres_sql.plan_aligned sqlite_sql.plan_aligned)
qed

end
