(* ===== verification/Text.thy ===== *)
theory Text
  imports Prelude
begin

section \<open>Numbers, bytes and UTF-8 in text\<close>

text \<open>
  What the sources use of the JavaScript standard library on texts: decimal and hexadecimal
  numbers and the decoding of bytes. A text is the list of its UTF-8 bytes, so
  \<open>Buffer.byteLength\<close> is the length and \<open>Buffer.from\<close> the identity.
\<close>

subsection \<open>Decimal numbers\<close>

definition digitVal :: "char \<Rightarrow> nat" where
  "digitVal c = of_char c - 48"

text \<open>\<open>Number(s)\<close> of a text of digits\<close>

definition read_nat :: "string \<Rightarrow> nat" where
  "read_nat s = foldl (\<lambda>a c. 10 * a + digitVal c) 0 s"

lemma digitVal_digit_char: "n < 10 \<Longrightarrow> digitVal (digit_char n) = n"
  by (auto simp: digitVal_def digit_char_def less_Suc_eq numeral_eq_Suc)

lemma read_nat_snoc: "read_nat (s @ [c]) = 10 * read_nat s + digitVal c"
  by (simp add: read_nat_def)

lemma read_show_nat [simp]: "read_nat (show_nat n) = n"
proof (induction n rule: show_nat.induct)
  case (1 n)
  show ?case
  proof (cases "n < 10")
    case True
    then show ?thesis
      by (subst show_nat.simps) (simp add: read_nat_def digitVal_digit_char)
  next
    case False
    with 1 have "read_nat (show_nat (n div 10)) = n div 10" by blast
    with False show ?thesis
      by (subst show_nat.simps) (simp add: read_nat_snoc digitVal_digit_char)
  qed
qed

lemma show_nat_inject [simp]: "show_nat m = show_nat n \<longleftrightarrow> m = n"
  by (metis read_show_nat)

lemma show_nat_no_char: "c \<notin> digits \<Longrightarrow> c \<notin> set (show_nat n)"
  using show_nat_digits by blast

lemma show_int_inject [simp]: "show_int i = show_int j \<longleftrightarrow> i = j"
proof -
  have "hd (show_nat n) \<noteq> CHR ''-''" for n
    using show_nat_no_char[of "CHR ''-''" n] hd_in_set[OF show_nat_nonempty[of n]] by fastforce
  then have "show_nat n \<noteq> CHR ''-'' # s" for n s by (metis list.sel(1))
  then show ?thesis
    by (auto simp: show_int_def nat_eq_iff2 dest: sym)
qed

subsection \<open>Hexadecimal bytes\<close>

definition hexDigits :: string where
  "hexDigits = ''0123456789abcdef''"

definition hexByte :: "string \<Rightarrow> char \<Rightarrow> string" where
  "hexByte alphabet c = [alphabet ! (of_char c div 16), alphabet ! (of_char c mod 16)]"

text \<open>\<open>Buffer.toString('hex')\<close>\<close>

definition toHex :: "string \<Rightarrow> string \<Rightarrow> string" where
  "toHex alphabet bs = concat (map (hexByte alphabet) bs)"

lemma of_char_less_256: "(of_char c :: nat) < 256"
  by (rule nat_of_char_less_256)

lemma hexByte_inject:
  assumes "distinct alphabet" and "length alphabet = 16"
  shows "hexByte alphabet c = hexByte alphabet d \<longleftrightarrow> c = d"
proof
  assume "hexByte alphabet c = hexByte alphabet d"
  then have eq: "alphabet ! (of_char c div 16) = alphabet ! (of_char d div 16)"
      "alphabet ! (of_char c mod 16) = alphabet ! (of_char d mod 16)"
    by (simp_all add: hexByte_def)
  have less: "(of_char c :: nat) div 16 < 16" "(of_char d :: nat) div 16 < 16"
    using of_char_less_256[of c] of_char_less_256[of d] by (simp_all add: less_mult_imp_div_less)
  have "(of_char c :: nat) div 16 = of_char d div 16" "(of_char c :: nat) mod 16 = of_char d mod 16"
    using eq less assms by (simp_all add: nth_eq_iff_index_eq)
  then have "(of_char c :: nat) = of_char d" by (metis div_mult_mod_eq)
  then show "c = d" by simp
qed simp

lemma toHex_inject:
  assumes "distinct alphabet" and "length alphabet = 16"
  shows "toHex alphabet a = toHex alphabet b \<longleftrightarrow> a = b"
proof (induction a arbitrary: b)
  case Nil
  then show ?case by (cases b) (auto simp: toHex_def hexByte_def)
next
  case (Cons c a)
  then show ?case
    using hexByte_inject[OF assms] by (cases b) (auto simp: toHex_def hexByte_def)
qed

lemma hexDigits_alphabet: "distinct hexDigits" "length hexDigits = 16"
  by (simp_all add: hexDigits_def)

subsection \<open>UTF-8\<close>

text \<open>
  \<open>Buffer.toString()\<close>: bytes that are no UTF-8 are replaced with U+FFFD, one for each longest
  start of a sequence (WHATWG, the UTF-8 decoder).
\<close>

definition codeIn :: "nat \<Rightarrow> nat \<Rightarrow> char \<Rightarrow> bool" where
  "codeIn a b c \<longleftrightarrow> a \<le> of_char c \<and> of_char c \<le> b"

abbreviation continuation :: "char \<Rightarrow> bool" where
  "continuation \<equiv> codeIn 128 191"

definition replacement :: string where
  "replacement = [CHR 0xEF, CHR 0xBF, CHR 0xBD]"

text \<open>The range of the second byte after a first byte of a sequence of three or four.\<close>

definition second :: "char \<Rightarrow> char \<Rightarrow> bool" where
  "second c = codeIn (if c = CHR 0xE0 then 160 else if c = CHR 0xF0 then 144 else 128)
     (if c = CHR 0xED then 159 else if c = CHR 0xF4 then 143 else 191)"

fun utf8Lossy :: "string \<Rightarrow> string" where
  "utf8Lossy [] = []"
| "utf8Lossy (c # cs) =
     (if codeIn 0 127 c then c # utf8Lossy cs
      else if codeIn 194 223 c then
        (case cs of d # ds \<Rightarrow> if continuation d then c # d # utf8Lossy ds else replacement @ utf8Lossy cs
         | [] \<Rightarrow> replacement)
      else if codeIn 224 239 c then
        (case cs of d # ds \<Rightarrow>
           if second c d then
             (case ds of e # es \<Rightarrow> if continuation e then c # d # e # utf8Lossy es else replacement @ utf8Lossy ds
              | [] \<Rightarrow> replacement)
           else replacement @ utf8Lossy cs
         | [] \<Rightarrow> replacement)
      else if codeIn 240 244 c then
        (case cs of d # ds \<Rightarrow>
           if second c d then
             (case ds of e # es \<Rightarrow>
                if continuation e then
                  (case es of f # fs \<Rightarrow>
                     if continuation f then c # d # e # f # utf8Lossy fs else replacement @ utf8Lossy es
                   | [] \<Rightarrow> replacement)
                else replacement @ utf8Lossy ds
              | [] \<Rightarrow> replacement)
           else replacement @ utf8Lossy cs
         | [] \<Rightarrow> replacement)
      else replacement @ utf8Lossy cs)"

text \<open>Text is what decodes to itself.\<close>

definition isUtf8 :: "string \<Rightarrow> bool" where
  "isUtf8 s \<longleftrightarrow> utf8Lossy s = s"

lemma ascii_isUtf8: "(\<And>c. c \<in> set s \<Longrightarrow> codeIn 0 127 c) \<Longrightarrow> isUtf8 s"
  by (induction s) (auto simp: isUtf8_def)

end
