(* ===== verification/Keys.thy ===== *)
theory Keys
  imports Text IR
begin

section \<open>Keys of rows (\<open>database.ts\<close>)\<close>

text \<open>
  Rows of a relation meet their parents by the text of their key, and rows of a split query are
  merged by it. A value of a row or a parameter is one of the kinds the source tells apart: SQL
  NULL or an absent cell, a boolean, an integer (a bigint or an integral number), another number
  by its text, a text, bytes, a date by its ISO text, the date of a datetime column by its whole
  instant (\<open>DatetimeKey\<close>), and any other value by its JSON text.
\<close>

datatype jsvalue =
    VNull
  | VBool bool
  | VInt int
  | VFloat string
  | VStr string
  | VBytes string
  | VDate string
  | VInstant string
  | VOther string

definition cell :: "jsvalue list \<Rightarrow> nat \<Rightarrow> jsvalue" where
  "cell row i = (if i < length row then row ! i else VNull)"

subsection \<open>Texts of values\<close>

text \<open>A date and time without the trailing zeros of its milliseconds.\<close>

definition trimZeros :: "string \<Rightarrow> string" where
  "trimZeros s = rev (dropWhile (\<lambda>c. c = CHR ''0'') (rev s))"

definition dateKeyText :: "string \<Rightarrow> string" where
  "dateKeyText isoText =
     (let n = length isoText - 5; frac = take 3 (drop (n + 1) isoText) in
      if 5 \<le> length isoText \<and> isoText ! n = CHR ''.'' \<and> set frac \<subseteq> digits \<and> endsWith isoText ''Z'' then
        take n isoText @ (if trimZeros frac = [] then ''Z'' else ''.'' @ trimZeros frac @ ''Z'')
      else isoText)"

fun scalarKey :: "jsvalue \<Rightarrow> string" where
  "scalarKey VNull = [CHR 0x00]"
| "scalarKey (VBool b) = (if b then ''1'' else ''0'')"
| "scalarKey (VBytes bs) = utf8Lossy bs"
| "scalarKey (VStr s) = s"
| "scalarKey (VInt i) = show_int i"
| "scalarKey (VFloat t) = t"
| "scalarKey (VDate isoText) = [CHR 34] @ isoText @ [CHR 34]"
| "scalarKey (VInstant t) = [CHR 34] @ t @ [CHR 34]"
| "scalarKey (VOther json) = json"

text \<open>One part of a composite key: a tag, the length of the payload, and the payload.\<close>

definition framed :: "string \<Rightarrow> string \<Rightarrow> string" where
  "framed tag payload = tag @ show_nat (length payload) @ '':'' @ payload"

fun compositeKeyPart :: "jsvalue \<Rightarrow> string" where
  "compositeKeyPart (VBool b) = framed ''t'' (if b then ''1'' else ''0'')"
| "compositeKeyPart (VInt i) = framed ''i'' (show_int i)"
| "compositeKeyPart (VStr s) = framed ''s'' s"
| "compositeKeyPart (VBytes bs) = framed ''b'' (toHex hexDigits bs)"
| "compositeKeyPart (VDate isoText) = framed ''d'' (dateKeyText isoText)"
| "compositeKeyPart (VInstant t) = framed ''d'' t"
| "compositeKeyPart v = framed '''' (scalarKey v)"

fun keyText :: "jsvalue \<Rightarrow> string res" where
  "keyText VNull = fail CODEC_DECODE"
| "keyText (VInt i) = Inr (''n:'' @ show_int i)"
| "keyText (VFloat t) = Inr (''n:'' @ t)"
| "keyText (VBool b) = Inr (if b then ''b:1'' else ''b:0'')"
| "keyText (VBytes bs) = Inr (''x:'' @ toHex hexDigits bs)"
| "keyText (VDate isoText) = Inr (''d:'' @ dateKeyText isoText)"
| "keyText (VInstant t) = Inr (''d:'' @ t)"
| "keyText v = Inr (''s:'' @ scalarKey v)"

definition keyOfValues :: "jsvalue list \<Rightarrow> string res" where
  "keyOfValues vs = (case vs of [v] \<Rightarrow> keyText v | _ \<Rightarrow> Inr (concat (map compositeKeyPart vs)))"

subsection \<open>Keys of rows\<close>

definition rowKey :: "jsvalue list \<Rightarrow> keyref list \<Rightarrow> string option res" where
  "rowKey row refs =
     (let vs = map (\<lambda>r. cell row (kr_index r)) refs in
      if VNull \<in> set vs then Inr None else bind_res (keyOfValues vs) (\<lambda>k. Inr (Some k)))"

definition splitRowKey :: "jsvalue list \<Rightarrow> keyref list \<Rightarrow> string res" where
  "splitRowKey row refs = bind_res (rowKey row refs) (\<lambda>k. orFail k CODEC_DECODE)"

subsection \<open>Keys tell values apart\<close>

text \<open>The kinds that a key column holds: a boolean, an integer, a text, bytes or an instant.\<close>

fun typedKey :: "jsvalue \<Rightarrow> bool" where
  "typedKey (VBool b) = True"
| "typedKey (VInt i) = True"
| "typedKey (VStr s) = True"
| "typedKey (VBytes bs) = True"
| "typedKey (VInstant t) = True"
| "typedKey _ = False"

lemma digits_prefix_eq:
  assumes "c \<notin> digits" and "set a \<subseteq> digits" and "set b \<subseteq> digits" and "a @ c # r = b @ c # s"
  shows "a = b \<and> r = s"
proof -
  have "takeWhile (\<lambda>x. x \<in> digits) (a @ c # r) = a" "takeWhile (\<lambda>x. x \<in> digits) (b @ c # s) = b"
    using assms(1-3) by (auto simp: takeWhile_append subset_iff)
  with assms(4) have "a = b" by metis
  with assms(4) show ?thesis by simp
qed

lemma framed_eq:
  "framed [t] p @ r = framed [u] q @ s \<longleftrightarrow> t = u \<and> p = q \<and> r = s"
proof
  assume eq: "framed [t] p @ r = framed [u] q @ s"
  then have "t = u" and "show_nat (length p) @ CHR '':'' # (p @ r) = show_nat (length q) @ CHR '':'' # (q @ s)"
    by (simp_all add: framed_def)
  from digits_prefix_eq[OF _ show_nat_digits show_nat_digits this(2)]
  have "length p = length q" "p @ r = q @ s" by auto
  with \<open>t = u\<close> show "t = u \<and> p = q \<and> r = s" by simp
qed simp

lemma compositeKeyPart_eq:
  "typedKey v \<Longrightarrow> typedKey w \<Longrightarrow>
     compositeKeyPart v @ r = compositeKeyPart w @ s \<longleftrightarrow> v = w \<and> r = s"
  using toHex_inject[OF hexDigits_alphabet]
  by (cases v; cases w) (auto simp: framed_eq)

lemma compositeKeyPart_nonempty: "compositeKeyPart v \<noteq> []"
  by (cases v) (simp_all add: framed_def)

lemma concat_parts_eq:
  "\<forall>v \<in> set vs. typedKey v \<Longrightarrow> \<forall>w \<in> set ws. typedKey w \<Longrightarrow>
     concat (map compositeKeyPart vs) = concat (map compositeKeyPart ws) \<longleftrightarrow> vs = ws"
proof (induction vs arbitrary: ws)
  case Nil
  then show ?case by (cases ws) (auto simp: compositeKeyPart_nonempty)
next
  case (Cons v vs)
  then show ?case by (cases ws) (auto simp: compositeKeyPart_eq compositeKeyPart_nonempty)
qed

lemma keyText_eq:
  "typedKey v \<Longrightarrow> typedKey w \<Longrightarrow> keyText v = keyText w \<longleftrightarrow> v = w"
  using toHex_inject[OF hexDigits_alphabet] by (cases v; cases w) auto

text \<open>The second character of a single key is a colon, that of a composite one a digit.\<close>

lemma keyText_second: "typedKey v \<Longrightarrow> keyText v = Inr k \<Longrightarrow> k ! 1 = CHR '':'' \<and> 2 \<le> length k"
  by (cases v) auto

lemma compositeKeyPart_second:
  assumes "typedKey v"
  shows "(compositeKeyPart v @ r) ! 1 \<noteq> CHR '':''"
proof -
  have "(framed [t] p @ r) ! 1 = hd (show_nat (length p))" for t p
    by (cases "show_nat (length p)") (auto simp: framed_def)
  moreover have "hd (show_nat n) \<noteq> CHR '':''" for n
    using show_nat_no_char[of "CHR '':''" n] hd_in_set[OF show_nat_nonempty[of n]] by fastforce
  ultimately show ?thesis using assms by (cases v) simp_all
qed

lemma single_neq_composite:
  assumes "typedKey v" and "\<forall>w \<in> set ws. typedKey w"
  shows "keyText v \<noteq> Inr (concat (map compositeKeyPart ws))"
proof
  assume eq: "keyText v = Inr (concat (map compositeKeyPart ws))"
  from keyText_second[OF assms(1) this] have "concat (map compositeKeyPart ws) ! 1 = CHR '':''"
      "ws \<noteq> []" by auto
  then show False
    using compositeKeyPart_second assms(2) by (cases ws) auto
qed

lemma keyOfValues_eq:
  assumes "\<forall>v \<in> set vs. typedKey v" and "\<forall>w \<in> set ws. typedKey w"
  shows "keyOfValues vs = keyOfValues ws \<longleftrightarrow> vs = ws"
proof (cases "\<exists>v. vs = [v]")
  case True
  then obtain v where v: "vs = [v]" by auto
  show ?thesis
  proof (cases "\<exists>w. ws = [w]")
    case False
    then have "keyOfValues ws = Inr (concat (map compositeKeyPart ws))"
      by (simp add: keyOfValues_def split: list.splits)
    with v False assms show ?thesis
      using single_neq_composite[of v ws] by (simp add: keyOfValues_def) blast
  qed (use v assms in \<open>auto simp: keyOfValues_def keyText_eq\<close>)
next
  case False
  then have vs: "keyOfValues vs = Inr (concat (map compositeKeyPart vs))"
    by (simp add: keyOfValues_def split: list.splits)
  show ?thesis
  proof (cases "\<exists>w. ws = [w]")
    case True
    then obtain w where "ws = [w]" by auto
    with vs False assms show ?thesis
      using single_neq_composite[of w vs] by (auto simp: keyOfValues_def)
  next
    case False
    then have "keyOfValues ws = Inr (concat (map compositeKeyPart ws))"
      by (simp add: keyOfValues_def split: list.splits)
    with vs assms show ?thesis by (simp add: concat_parts_eq)
  qed
qed

lemma keyOfValues_typed: "\<forall>v \<in> set vs. typedKey v \<Longrightarrow> \<exists>k. keyOfValues vs = Inr k"
proof -
  have "typedKey v \<Longrightarrow> \<exists>k. keyText v = Inr k" for v by (cases v) auto
  then show "\<forall>v \<in> set vs. typedKey v \<Longrightarrow> ?thesis"
    by (auto simp: keyOfValues_def split: list.splits)
qed

end
