(* ===== verification/Execute.thy ===== *)
theory Execute
  imports AlignedPlan Keys Bucket
begin

section \<open>The execution of a read (\<open>database.ts\<close>)\<close>

text \<open>
  The pure part of running a plan: the values that a relation step binds for its parents, the
  chunks that keep a statement within the bind limit of the driver, the statement with its parent
  placeholder expanded, and the rows of each relation grouped by key. The statement itself, which
  a driver runs and whose cells the codecs decode, is an argument \<open>select\<close>.
\<close>

definition driverLimit :: "string \<Rightarrow> int" where
  "driverLimit driver = (if driver = ''sqlite'' then 999 else 65535)"

text \<open>The lock of a read: its own, or the first of its relations, depth first.\<close>

function requestLock :: "query \<Rightarrow> string" where
  "requestLock q =
     (if orEmpty (q_lock q) \<noteq> '''' then orEmpty (q_lock q)
      else case filter (\<lambda>l. l \<noteq> '''') (map (\<lambda>r. requestLock (r_query r)) (orEmpty (q_relations q))) of
        [] \<Rightarrow> '''' | l # _ \<Rightarrow> l)"
  by pat_completeness auto
termination by (relation "measure size") (auto dest: size_query_relations)

declare requestLock.simps [simp del]

definition checkLock :: "bool \<Rightarrow> query \<Rightarrow> unit res" where
  "checkLock inTransaction q = refuse (requestLock q \<noteq> '''' \<and> \<not> inTransaction) CONFIG"

definition mainStepOf :: "plan \<Rightarrow> planstep res" where
  "mainStepOf p = present (case pl_steps p of [] \<Rightarrow> None | st # _ \<Rightarrow> Some st)"

subsection \<open>The values of the parents\<close>

definition cellAt :: "jsvalue list \<Rightarrow> int \<Rightarrow> jsvalue" where
  "cellAt row i = (if 0 \<le> i then cell row (nat i) else VNull)"

definition skipsParent :: "parentref \<Rightarrow> jsvalue list \<Rightarrow> jsvalue list \<Rightarrow> bool" where
  "skipsParent pref params row =
     (case pr_if_parent pref of
        None \<Rightarrow> False
      | Some ip \<Rightarrow> scalarKey (cell row (pi_index ip)) \<noteq> scalarKey (cellAt params (pi_param ip)))"

definition keyValues :: "keyref list \<Rightarrow> jsvalue list \<Rightarrow> jsvalue list" where
  "keyValues refs row = map (\<lambda>r. cell row (kr_index r)) refs"

definition addParent ::
    "parentref \<Rightarrow> jsvalue list \<Rightarrow> string list \<times> jsvalue list \<Rightarrow> jsvalue list \<Rightarrow> (string list \<times> jsvalue list) res" where
  "addParent pref params acc row =
     (if skipsParent pref params row then Inr acc
      else bind_res (rowKey row (pr_keys pref)) (\<lambda>key.
        case key of
          None \<Rightarrow> Inr acc
        | Some k \<Rightarrow> if k \<in> set (fst acc) then Inr acc
            else Inr (fst acc @ [k], snd acc @ keyValues (pr_keys pref) row)))"

definition parentValues :: "planstep \<Rightarrow> jsvalue list list \<Rightarrow> jsvalue list \<Rightarrow> jsvalue list res" where
  "parentValues step parents params =
     bind_res (present (ps_parent step)) (\<lambda>pref.
     bind_res (foldRes (addParent pref params) ([], []) parents) (\<lambda>acc. Inr (snd acc)))"

subsection \<open>Chunks\<close>

text \<open>\<open>while (size * 2 <= max) size *= 2\<close>\<close>

function doubleBelow :: "nat \<Rightarrow> nat \<Rightarrow> nat" where
  "doubleBelow most sz = (if 0 < sz \<and> sz * 2 \<le> most then doubleBelow most (sz * 2) else sz)"
  by pat_completeness auto
termination by (relation "measure (\<lambda>(most, sz). most - sz)") auto

declare doubleBelow.simps [simp del]

text \<open>A relation has at least one key; with none the quotient is infinite and the loop never ends.\<close>

definition relationChunks :: "planstep \<Rightarrow> 'v list \<Rightarrow> string \<Rightarrow> 'v list list res" where
  "relationChunks step values driver =
     bind_res (present (ps_parent step)) (\<lambda>pref.
       let width = length (pr_keys pref);
           nonParent = length (filter (\<lambda>s. bs_from s \<noteq> ''parent'') (ps_bind_slots step));
           most = (driverLimit driver - int nonParent) div int width in
       if width = 0 then Inl NoReturn
       else if most < 1 then fail IR_INVALID
       else Inr (chunks (doubleBelow (nat most) 1 * width) values))"

subsection \<open>The expanded statement\<close>

definition parentText :: "nat \<Rightarrow> nat \<Rightarrow> (nat \<Rightarrow> string) \<Rightarrow> string" where
  "parentText width n f =
     concat (map (\<lambda>m. (if m = 0 then '''' else if width > 1 \<and> m mod width = 0 then ''), ('' else '', '') @ f m) [0..<n])"

text \<open>\<open>sql.replace(/\$(\d+)/g, ...)\<close> and \<open>sql.replace(/\?/g, ...)\<close> with a running slot\<close>

function replaceDollar :: "(nat \<Rightarrow> string) \<Rightarrow> string \<Rightarrow> string" where
  "replaceDollar f [] = []"
| "replaceDollar f (c # cs) =
     (if c = CHR ''$'' \<and> takeWhile isDigit cs \<noteq> []
      then f (read_nat (takeWhile isDigit cs)) @ replaceDollar f (dropWhile isDigit cs)
      else c # replaceDollar f cs)"
  by pat_completeness auto
termination
  by (relation "measure (\<lambda>(f, s). length s)") (auto simp: le_imp_less_Suc length_dropWhile_le)

fun replaceMark :: "(nat \<Rightarrow> string) \<Rightarrow> nat \<Rightarrow> string \<Rightarrow> string" where
  "replaceMark f k [] = []"
| "replaceMark f k (c # cs) =
     (if c = CHR ''?'' then f k @ replaceMark f (Suc k) cs else c # replaceMark f k cs)"

fun includesS :: "string \<Rightarrow> string \<Rightarrow> bool" where
  "includesS [] p = (p = [])"
| "includesS (c # cs) p = (startsWith (c # cs) p \<or> includesS cs p)"

definition parentSlot :: "bindslot list \<Rightarrow> nat option" where
  "parentSlot bs =
     (case filter (\<lambda>(i, s). bs_from s = ''parent'') (enumerate 0 bs) of [] \<Rightarrow> None | (i, _) # _ \<Rightarrow> Some i)"

text \<open>The statement for \<open>n\<close> parent values.\<close>

definition expandSql :: "planstep \<Rightarrow> nat \<Rightarrow> nat \<Rightarrow> string" where
  "expandSql step width n =
     (if includesS (ps_sql step) ''$1'' then
        (let parent = (case parentSlot (ps_bind_slots step) of None \<Rightarrow> 0 | Some i \<Rightarrow> i + 1) in
         replaceDollar (\<lambda>k.
           if k = parent then parentText width n (\<lambda>m. ''$'' @ show_nat (k + m))
           else ''$'' @ show_nat (if k > parent then k + n - 1 else k)) (ps_sql step))
      else
        replaceMark (\<lambda>k.
           if k < length (ps_bind_slots step) \<and> bs_from (ps_bind_slots step ! k) = ''parent''
           then parentText width n (\<lambda>_. ''?'') else ''?'') 0 (ps_sql step))"

text \<open>
  The values are whole tuples of the parent's keys. With no tuple the loop that repeats the last
  one never ends; it is only called with some.
\<close>

definition expandParent :: "planstep \<Rightarrow> 'v list \<Rightarrow> (string \<times> 'v list) res" where
  "expandParent step source =
     bind_res (present (ps_parent step)) (\<lambda>pref.
       let width = length (pr_keys pref); tuples = length source div width in
       case bucket tuples of
         None \<Rightarrow> Inl NoReturn
       | Some sz \<Rightarrow>
           if source = [] \<and> width > 0 then Inl NoReturn
           else Inr (expandSql step width (sz * width),
             source @ concat (replicate (sz - tuples) (take width (drop ((tuples - 1) * width) source)))))"

subsection \<open>Relations\<close>

fun findChild :: "nat \<Rightarrow> assemble \<Rightarrow> keyref list option"
  and findChildren :: "nat \<Rightarrow> child list \<Rightarrow> keyref list option" where
  "findChild stepId (Assemble e a columns children key version) = findChildren stepId children"
| "findChildren stepId [] = None"
| "findChildren stepId (Child rel kind step parentKeys childKeys key flat cascade asm # rest) =
     (if kind \<noteq> ''join'' \<and> step = stepId then Some childKeys
      else case asm of
        None \<Rightarrow> findChildren stepId rest
      | Some a \<Rightarrow>
          (case (if kind = ''join'' then findChild stepId a else None) of
             Some found \<Rightarrow> Some found
           | None \<Rightarrow> findChildren stepId rest))"

definition childKeys :: "plan \<Rightarrow> nat \<Rightarrow> keyref list res" where
  "childKeys p stepId =
     orFail (case List.map_filter (\<lambda>st. Option.bind (ps_assemble st) (findChild stepId)) (pl_steps p) of
        [] \<Rightarrow> None | found # _ \<Rightarrow> Some found) INTERNAL"

record stepdata =
  sd_step :: planstep
  sd_data :: "jsvalue list list"
  sd_byKey :: "(string \<times> nat list) list"

text \<open>The indexes of the rows of each key, in the order of the rows; a row with a NULL has no key.\<close>

definition addRow ::
    "keyref list \<Rightarrow> (string \<times> nat list) list \<Rightarrow> nat \<times> jsvalue list \<Rightarrow> (string \<times> nat list) list res" where
  "addRow keys byKey ir =
     bind_res (rowKey (snd ir) keys) (\<lambda>key.
       case key of
         None \<Rightarrow> Inr byKey
       | Some k \<Rightarrow> Inr (map_set k ((case map_of byKey k of None \<Rightarrow> [] | Some is \<Rightarrow> is) @ [fst ir]) byKey))"

definition groupRows :: "keyref list \<Rightarrow> jsvalue list list \<Rightarrow> (string \<times> nat list) list res" where
  "groupRows keys data = foldRes (addRow keys) [] (enumerate 0 data)"

text \<open>The rows of one relation step: one statement for each chunk of its parents' keys.\<close>

definition relationData ::
    "(planstep \<Rightarrow> jsvalue list \<Rightarrow> jsvalue list list res) \<Rightarrow> planstep \<Rightarrow> jsvalue list \<Rightarrow> string \<Rightarrow> jsvalue list list res" where
  "relationData select step values driver =
     (if values = [] then Inr []
      else bind_res (relationChunks step values driver) (\<lambda>cs.
        bind_res (mapRes (select step) cs) (\<lambda>parts. Inr (concat parts))))"

definition relationStep ::
    "(planstep \<Rightarrow> jsvalue list \<Rightarrow> jsvalue list list res) \<Rightarrow> plan \<Rightarrow> jsvalue list \<Rightarrow> string \<Rightarrow> jsvalue list list
       \<Rightarrow> (nat \<times> stepdata) list \<Rightarrow> planstep \<Rightarrow> (nat \<times> stepdata) list res" where
  "relationStep select p params driver main out step =
     (if ps_role step \<noteq> ''relation'' then Inr out
      else
        bind_res (present (ps_parent step)) (\<lambda>pref.
        bind_res (parentValues step
           (if pr_step pref = 0 then main else case map_of out (pr_step pref) of None \<Rightarrow> [] | Some sd \<Rightarrow> sd_data sd)
           params) (\<lambda>values.
        bind_res (relationData select step values driver) (\<lambda>data.
        bind_res (childKeys p (ps_id step)) (\<lambda>keys.
        bind_res (groupRows keys data) (\<lambda>byKey.
          Inr (map_set (ps_id step) \<lparr>sd_step = step, sd_data = data, sd_byKey = byKey\<rparr> out)))))))"

definition relations ::
    "(planstep \<Rightarrow> jsvalue list \<Rightarrow> jsvalue list list res) \<Rightarrow> plan \<Rightarrow> jsvalue list \<Rightarrow> string \<Rightarrow> jsvalue list list
       \<Rightarrow> (nat \<times> stepdata) list res" where
  "relations select p params driver main =
     foldRes (relationStep select p params driver main) [] (tl (pl_steps p))"

subsection \<open>Chunks stay within the bind limit\<close>

lemma doubleBelow_power:
  "2 ^ i \<le> most \<Longrightarrow> \<exists>j. doubleBelow most (2 ^ i) = 2 ^ j \<and> 2 ^ j \<le> most \<and> most < 2 * 2 ^ j"
proof (induction "most - 2 ^ i" arbitrary: i rule: less_induct)
  case less
  show ?case
  proof (cases "2 * 2 ^ i \<le> most")
    case True
    have "most - 2 * p < most - p" if "2 * p \<le> most" "0 < p" for p :: nat using that by arith
    from this[OF True] True have "2 ^ Suc i \<le> most" "most - 2 ^ Suc i < most - 2 ^ i" by simp_all
    from less(1)[OF this(2,1)] True show ?thesis
      by (subst doubleBelow.simps) (simp add: mult.commute)
  next
    case False
    with less(2) show ?thesis by (subst doubleBelow.simps) (auto intro: exI[of _ i])
  qed
qed

lemma power2_le: "(2::nat) ^ i < 2 * 2 ^ j \<Longrightarrow> 2 ^ i \<le> (2::nat) ^ j"
proof -
  assume "(2::nat) ^ i < 2 * 2 ^ j"
  then have "i < Suc j" using power_less_imp_less_exp[of "2::nat" i "Suc j"] by simp
  then show ?thesis using power_increasing[of i j "2::nat"] by simp
qed

lemma expandParent_values:
  assumes parent: "ps_parent step = Some pref" and width: "width = length (pr_keys pref)" "0 < width"
    and source: "source \<noteq> []" "width dvd length source" "length source \<le> 2 ^ j * width" "j \<le> 30"
  shows "\<exists>sz vs. expandParent step source = Inr (expandSql step width (sz * width), vs) \<and> 0 < sz \<and> sz \<le> 2 ^ j
    \<and> length vs = sz * width \<and> take (length source) vs = source \<and> set vs = set source"
proof -
  obtain tuples where tuples: "length source = tuples * width" using source(2) by (metis dvd_def mult.commute)
  have pos: "0 < tuples" using source(1) tuples by (cases tuples) auto
  have le: "tuples \<le> 2 ^ j" using source(3) tuples width(2) by simp
  have "tuples \<le> 2 ^ 30" using le source(4) power_increasing[of j 30 "2::nat"] by linarith
  then obtain i where i: "bucket tuples = Some (2 ^ i)" "tuples \<le> 2 ^ i" "2 ^ i = (1::nat) \<or> 2 ^ i < 2 * tuples"
    using bucket_Some by blast
  have sz: "2 ^ i \<le> (2::nat) ^ j"
  proof (cases "2 ^ i = (1::nat)")
    case False
    then have "2 ^ i < 2 * (2::nat) ^ j" using i(3) le by linarith
    then show ?thesis by (rule power2_le)
  qed simp
  let ?last = "take width (drop ((tuples - 1) * width) source)"
  let ?vs = "source @ concat (replicate (2 ^ i - tuples) ?last)"
  have "length ?last = width"
    using tuples pos by (simp add: diff_mult_distrib)
  then have "length ?vs = 2 ^ i * width"
    using tuples i(2) by (simp add: length_concat sum_list_replicate diff_mult_distrib)
  moreover have "set ?vs = set source"
    by (auto simp: set_replicate_conv_if split: if_splits dest!: in_set_takeD in_set_dropD)
  moreover have "expandParent step source = Inr (expandSql step width (2 ^ i * width), ?vs)"
    using parent width source(1) tuples i(1) by (simp add: expandParent_def Let_def)
  ultimately show ?thesis using sz by (intro exI[of _ "2 ^ i"] exI[of _ ?vs]) simp
qed

lemma relationChunks_eq:
  assumes parent: "ps_parent step = Some pref" and width: "width = length (pr_keys pref)"
    and eq: "relationChunks step values driver = Inr cs"
  shows "\<exists>j<16. 0 < width \<and> cs = chunks (2 ^ j * width) values \<and>
    int (length (filter (\<lambda>s. bs_from s \<noteq> ''parent'') (ps_bind_slots step)) + 2 ^ j * width) \<le> driverLimit driver"
proof -
  let ?np = "length (filter (\<lambda>s. bs_from s \<noteq> ''parent'') (ps_bind_slots step))"
  define most where "most = (driverLimit driver - int ?np) div int width"
  from eq parent have w: "0 < width" and most: "1 \<le> most" and cs: "cs = chunks (doubleBelow (nat most) 1 * width) values"
    by (auto simp: relationChunks_def Let_def width most_def split: if_splits)
  obtain j where j: "doubleBelow (nat most) 1 = 2 ^ j" "2 ^ j \<le> nat most"
    using doubleBelow_power[of 0 "nat most"] most by (auto simp: le_nat_iff)
  have limit: "most * int width \<le> driverLimit driver - int ?np"
    unfolding most_def minus_mod_eq_div_mult[symmetric] using w by simp
  have le: "int (2 ^ j) \<le> most" using j(2) most by linarith
  have "most \<le> most * int width" using most w by (simp add: mult_le_cancel_left1)
  also have "\<dots> \<le> 65535" using limit by (simp add: driverLimit_def split: if_splits)
  finally have "int (2 ^ j) \<le> int 65535" using le by linarith
  then have "(2::nat) ^ j \<le> 65535" unfolding of_nat_le_iff .
  then have "(2::nat) ^ j < 2 ^ 16" by simp
  then have "j < 16" using power_less_imp_less_exp[of "2::nat" j 16] by simp
  moreover have "int (2 ^ j) * int width \<le> most * int width"
    using le by (rule mult_right_mono) simp
  then have "int (?np + 2 ^ j * width) \<le> driverLimit driver" using limit unfolding of_nat_add of_nat_mult by linarith
  ultimately show ?thesis using w cs j(1) by auto
qed

lemma relationChunks_limit:
  assumes parent: "ps_parent step = Some pref" and width: "width = length (pr_keys pref)"
    and eq: "relationChunks step values driver = Inr cs" and dvd: "width dvd length values"
    and c: "c \<in> set cs"
  shows "\<exists>sql vs. expandParent step c = Inr (sql, vs) \<and> set vs = set c \<and> take (length c) vs = c
    \<and> int (length (filter (\<lambda>s. bs_from s \<noteq> ''parent'') (ps_bind_slots step)) + length vs) \<le> driverLimit driver"
proof -
  obtain j where j: "j < 16" "0 < width" "cs = chunks (2 ^ j * width) values"
      "int (length (filter (\<lambda>s. bs_from s \<noteq> ''parent'') (ps_bind_slots step)) + 2 ^ j * width) \<le> driverLimit driver"
    using relationChunks_eq[OF parent width eq] by blast
  have "c \<noteq> []" "length c \<le> 2 ^ j * width" "width dvd length c"
    using chunks_mem[of c] chunks_dvd[of width "2 ^ j * width" "values" c] dvd c j(3) by auto
  then obtain sz vs where v: "expandParent step c = Inr (expandSql step width (sz * width), vs)"
      "sz \<le> 2 ^ j" "length vs = sz * width" "take (length c) vs = c" "set vs = set c"
    using expandParent_values[OF parent width j(2), of c j] j(1) by auto
  have "length vs \<le> 2 ^ j * width" using v(2,3) by (simp add: mult_right_mono)
  then have "int (length (filter (\<lambda>s. bs_from s \<noteq> ''parent'') (ps_bind_slots step)) + length vs) \<le> driverLimit driver"
    using j(4) by linarith
  with v show ?thesis by blast
qed

lemma relationChunks_concat:
  assumes "relationChunks step values driver = Inr cs"
  shows "concat cs = values"
proof -
  from assms obtain pref where "ps_parent step = Some pref" by (auto simp: relationChunks_def res_simps)
  from relationChunks_eq[OF this refl assms] obtain j where
    "0 < length (pr_keys pref)" "cs = chunks (2 ^ j * length (pr_keys pref)) values" by blast
  then show ?thesis by (simp add: concat_chunks)
qed

end
