(* ===== verification/Decimal.thy ===== *)
theory Decimal
  imports Text
begin

section \<open>Exact decimals (\<open>decimal.ts\<close>)\<close>

text \<open>
  A decimal value is a text. It is checked and padded to the scale of its field before it is
  bound, and SQLite stores it as a scaled integer. The lemmas show that a text is accepted exactly
  when its value fits, that the normal form is a function of the value, and that the stored
  integer reads back as it.
\<close>

definition isDigits :: "string \<Rightarrow> bool" where
  "isDigits s \<longleftrightarrow> s \<noteq> [] \<and> set s \<subseteq> digits"

definition isSign :: "char \<Rightarrow> bool" where
  "isSign c \<longleftrightarrow> c = CHR ''+'' \<or> c = CHR ''-''"

definition unsigned :: "string \<Rightarrow> string" where
  "unsigned s = (case s of c # cs \<Rightarrow> if isSign c then cs else s | [] \<Rightarrow> [])"

text \<open>The parts of \<open>unsigned.split('.')\<close>, and the test \<open>/^[+-]?[0-9]+(?:\.[0-9]+)?$/\<close>\<close>

definition wholePart :: "string \<Rightarrow> string" where
  "wholePart s = takeWhile (\<lambda>c. c \<noteq> CHR ''.'') (unsigned s)"

definition fractionPart :: "string \<Rightarrow> string" where
  "fractionPart s = drop 1 (dropWhile (\<lambda>c. c \<noteq> CHR ''.'') (unsigned s))"

definition isDecimal :: "string \<Rightarrow> bool" where
  "isDecimal s \<longleftrightarrow> isDigits (wholePart s) \<and> (CHR ''.'' \<in> set (unsigned s) \<longrightarrow> isDigits (fractionPart s))"

definition stripZeros :: "string \<Rightarrow> string" where
  "stripZeros w = (let r = dropWhile (\<lambda>c. c = CHR ''0'') w in if r = [] then ''0'' else r)"

definition padEnd :: "nat \<Rightarrow> string \<Rightarrow> string" where
  "padEnd n s = s @ replicate (n - length s) (CHR ''0'')"

definition padStart :: "nat \<Rightarrow> string \<Rightarrow> string" where
  "padStart n s = replicate (n - length s) (CHR ''0'') @ s"

definition normalizeDecimal :: "string \<Rightarrow> int \<Rightarrow> int \<Rightarrow> string res" where
  "normalizeDecimal input precision scale =
     (if precision < 1 \<or> precision > 18 \<or> scale < 0 \<or> scale > precision then fail CODEC_ENCODE
      else if \<not> isDecimal input then fail CODEC_ENCODE
      else
        (let whole = stripZeros (wholePart input) in
         if int (length (fractionPart input)) > scale then fail CODEC_ENCODE
         else if int (if whole = ''0'' then 0 else length whole) + scale > precision then fail CODEC_ENCODE
         else
           (let fraction = padEnd (nat scale) (fractionPart input);
                negative = startsWith input ''-'' \<and> \<not> (whole = ''0'' \<and> set fraction \<subseteq> {CHR ''0''}) in
            Inr ((if negative then ''-'' else '''') @ whole @ (if scale = 0 then '''' else ''.'' @ fraction)))))"

text \<open>\<open>BigInt\<close> of a decimal numeral\<close>

definition bigInt :: "string \<Rightarrow> int" where
  "bigInt s = (if startsWith s ''-'' then - int (read_nat (unsigned s)) else int (read_nat (unsigned s)))"

definition decimalScaled :: "string \<Rightarrow> int \<Rightarrow> int \<Rightarrow> int res" where
  "decimalScaled input precision scale =
     bind_res (normalizeDecimal input precision scale) (\<lambda>t. Inr (bigInt (remove1 (CHR ''.'') t)))"

text \<open>A cell that is a bigint, or another one; \<open>slice(-scale)\<close> of a scale of zero is not reached.\<close>

definition scaledText :: "int \<Rightarrow> nat \<Rightarrow> string" where
  "scaledText raw scale =
     (let ds = padStart (scale + 1) (show_nat (nat \<bar>raw\<bar>)) in
      (if raw < 0 then ''-'' else '''') @
      (if 0 < scale then take (length ds - scale) ds @ ''.'' @ drop (length ds - scale) ds else ds))"

definition decimalFromScaled :: "int option \<Rightarrow> int \<Rightarrow> int \<Rightarrow> string res" where
  "decimalFromScaled raw precision scale =
     (case raw of
        None \<Rightarrow> fail CODEC_DECODE
      | Some n \<Rightarrow>
          (case normalizeDecimal (scaledText n (nat scale)) precision scale of
             Inl _ \<Rightarrow> fail CODEC_DECODE
           | Inr t \<Rightarrow> Inr t))"

subsection \<open>Digits\<close>

text \<open>The value of a decimal text as an integer at a scale that holds its fraction.\<close>

definition scaledValue :: "nat \<Rightarrow> string \<Rightarrow> int" where
  "scaledValue scale s =
     (if startsWith s ''-'' then -1 else 1) * int (read_nat (wholePart s @ padEnd scale (fractionPart s)))"

lemma digit_char_digitVal: "c \<in> digits \<Longrightarrow> digit_char (digitVal c) = c \<and> digitVal c < 10"
  by (auto simp: digit_char_def digitVal_def)

lemma digitVal_0: "digitVal (CHR ''0'') = 0"
  by (simp add: digitVal_def)

lemma digitVal_eq_0: "c \<in> digits \<Longrightarrow> digitVal c = 0 \<longleftrightarrow> c = CHR ''0''"
  by (auto simp: digitVal_def)

lemma read_nat_append: "read_nat (a @ b) = read_nat a * 10 ^ length b + read_nat b"
proof (induction b rule: rev_induct)
  case (snoc c b)
  have "read_nat (a @ b @ [c]) = read_nat ((a @ b) @ [c])" by simp
  then show ?case unfolding read_nat_snoc snoc by (simp add: read_nat_snoc[of b c] algebra_simps)
qed (simp add: read_nat_def)

lemma read_nat_less: "set s \<subseteq> digits \<Longrightarrow> read_nat s < 10 ^ length s"
proof (induction s rule: rev_induct)
  case (snoc c s)
  then have "read_nat s < 10 ^ length s" "digitVal c < 10" using digit_char_digitVal[of c] by auto
  then show ?case by (simp add: read_nat_snoc)
qed (simp add: read_nat_def)

lemma read_nat_zeros: "set s \<subseteq> {CHR ''0''} \<Longrightarrow> read_nat s = 0"
  by (induction s rule: rev_induct) (auto simp: read_nat_def digitVal_0)

lemma read_nat_eq_0: "set s \<subseteq> digits \<Longrightarrow> read_nat s = 0 \<longleftrightarrow> set s \<subseteq> {CHR ''0''}"
proof (induction s rule: rev_induct)
  case (snoc c s)
  then show ?case using digitVal_eq_0[of c] by (auto simp: read_nat_snoc)
qed (simp add: read_nat_def)

lemma read_nat_strip: "read_nat (dropWhile (\<lambda>c. c = CHR ''0'') s) = read_nat s"
proof -
  have "read_nat (takeWhile (\<lambda>c. c = CHR ''0'') s) = 0"
    by (rule read_nat_zeros) (auto dest: set_takeWhileD)
  then show ?thesis
    using read_nat_append[of "takeWhile (\<lambda>c. c = CHR ''0'') s" "dropWhile (\<lambda>c. c = CHR ''0'') s"] by simp
qed

lemma show_read_nat:
  "set s \<subseteq> digits \<Longrightarrow> s \<noteq> [] \<Longrightarrow> hd s \<noteq> CHR ''0'' \<Longrightarrow> show_nat (read_nat s) = s"
proof (induction s rule: rev_induct)
  case (snoc c s)
  from snoc.prems have c: "digit_char (digitVal c) = c" "digitVal c < 10" using digit_char_digitVal[of c] by auto
  show ?case
  proof (cases s)
    case Nil
    with c show ?thesis by (subst show_nat.simps) (simp add: read_nat_def)
  next
    case (Cons d ds)
    with snoc.prems have "read_nat s \<noteq> 0" using read_nat_eq_0[of s] by auto
    then have "\<not> read_nat (s @ [c]) < 10" by (simp add: read_nat_snoc)
    moreover have "read_nat (s @ [c]) div 10 = read_nat s" "read_nat (s @ [c]) mod 10 = digitVal c"
      using c by (simp_all add: read_nat_snoc)
    moreover have "show_nat (read_nat s) = s" using snoc Cons by simp
    ultimately show ?thesis using c by (subst show_nat.simps) simp
  qed
qed simp

lemma show_nat_0: "show_nat 0 = ''0''"
  by (subst show_nat.simps) (simp add: digit_char_def)

lemma stripZeros_show:
  assumes w: "isDigits w"
  shows "stripZeros w = show_nat (read_nat w)"
proof (cases "dropWhile (\<lambda>c. c = CHR ''0'') w = []")
  case True
  then have "set w \<subseteq> {CHR ''0''}" by auto
  then show ?thesis using True by (simp add: stripZeros_def read_nat_zeros show_nat_0)
next
  case False
  let ?r = "dropWhile (\<lambda>c. c = CHR ''0'') w"
  have "set ?r \<subseteq> digits" using w set_dropWhileD[of _ "\<lambda>c. c = CHR ''0''" w] unfolding isDigits_def by blast
  moreover have "hd ?r \<noteq> CHR ''0''" using False by (rule hd_dropWhile)
  ultimately have "show_nat (read_nat ?r) = ?r" using False by (intro show_read_nat)
  then show ?thesis unfolding stripZeros_def Let_def read_nat_strip if_not_P[OF False] by (rule sym)
qed

text \<open>The last \<open>n\<close> digits of a number.\<close>

primrec fixedDigits :: "nat \<Rightarrow> nat \<Rightarrow> string" where
  "fixedDigits 0 m = []"
| "fixedDigits (Suc n) m = fixedDigits n (m div 10) @ [digit_char (m mod 10)]"

lemma length_fixedDigits [simp]: "length (fixedDigits n m) = n"
  by (induction n arbitrary: m) simp_all

lemma fixedDigits_digits: "set (fixedDigits n m) \<subseteq> digits"
proof (induction n arbitrary: m)
  case (Suc n)
  have "digit_char (m mod 10) \<in> digits" by (rule digit_char_digits) simp
  with Suc show ?case by simp
qed simp

lemma read_nat_padStart: "read_nat (padStart n s) = read_nat s"
proof -
  have "read_nat (replicate k (CHR ''0'')) = 0" for k by (rule read_nat_zeros) auto
  then show ?thesis by (simp add: padStart_def read_nat_append)
qed

lemma fixedDigits_read: "set f \<subseteq> digits \<Longrightarrow> fixedDigits (length f) (m * 10 ^ length f + read_nat f) = f"
proof (induction f arbitrary: m rule: rev_induct)
  case (snoc c f)
  then have c: "digit_char (digitVal c) = c" "digitVal c < 10" using digit_char_digitVal[of c] by auto
  have m: "m * 10 ^ length (f @ [c]) + read_nat (f @ [c]) = 10 * (m * 10 ^ length f + read_nat f) + digitVal c"
    by (simp add: read_nat_snoc algebra_simps)
  have step: "fixedDigits (Suc n) (10 * k + digitVal c) = fixedDigits n k @ [c]" for n k using c by simp
  have "length (f @ [c]) = Suc (length f)" by simp
  then show ?case unfolding m by (simp only: step) (use snoc in simp)
qed simp

lemma padStart_show: "padStart (Suc n) (show_nat m) = show_nat (m div 10 ^ n) @ fixedDigits n m"
proof (induction n arbitrary: m)
  case 0
  have "Suc 0 \<le> length (show_nat m)" by (simp add: Suc_le_eq)
  then show ?case by (simp add: padStart_def)
next
  case (Suc n)
  have IH: "padStart (Suc n) (show_nat (m div 10)) @ [digit_char (m mod 10)] =
      show_nat (m div 10 ^ Suc n) @ fixedDigits (Suc n) m"
    using Suc[of "m div 10"] by (simp add: div_mult2_eq)
  have "padStart (Suc (Suc n)) (show_nat m) = padStart (Suc n) (show_nat (m div 10)) @ [digit_char (m mod 10)]"
  proof (cases "m < 10")
    case True
    have "show_nat m = [digit_char m]" "show_nat 0 = ''0''"
      using True by (subst show_nat.simps; simp add: digit_char_def)+
    with True show ?thesis by (simp add: padStart_def replicate_append_same)
  next
    case False
    then have "show_nat m = show_nat (m div 10) @ [digit_char (m mod 10)]" by (subst show_nat.simps) simp
    then show ?thesis by (simp add: padStart_def)
  qed
  with IH show ?case by simp
qed

subsection \<open>The normal form is the text of the value\<close>

lemma show_nat_length: "0 < n \<Longrightarrow> n < 10 ^ k \<longleftrightarrow> length (show_nat n) \<le> k"
proof (induction n arbitrary: k rule: show_nat.induct)
  case (1 n)
  show ?case
  proof (cases "n < 10")
    case True
    then have "length (show_nat n) = 1" by (subst show_nat.simps) simp
    moreover have "n < 10 ^ Suc k'" for k' using True one_le_power[of "10::nat" k'] by (simp, linarith)
    ultimately show ?thesis using 1(2) by (cases k) auto
  next
    case False
    then have l: "length (show_nat n) = Suc (length (show_nat (n div 10)))" by (subst show_nat.simps) simp
    show ?thesis
    proof (cases k)
      case 0
      with l False show ?thesis by simp
    next
      case (Suc k')
      have "n < 10 ^ Suc k' \<longleftrightarrow> n div 10 < 10 ^ k'" by (simp add: div_less_iff_less_mult mult.commute)
      also have "\<dots> \<longleftrightarrow> length (show_nat (n div 10)) \<le> k'" using 1(1)[of k'] False by simp
      finally show ?thesis using Suc l by simp
    qed
  qed
qed

lemma fractionPart_digits: "isDecimal s \<Longrightarrow> set (fractionPart s) \<subseteq> digits"
proof (cases "CHR ''.'' \<in> set (unsigned s)")
  case False
  then have d: "dropWhile (\<lambda>c. c \<noteq> CHR ''.'') (unsigned s) = []" by auto
  show ?thesis unfolding fractionPart_def d by simp
qed (simp add: isDecimal_def isDigits_def)

lemma padEnd_digits: "set f \<subseteq> digits \<Longrightarrow> set (padEnd n f) \<subseteq> digits"
  by (auto simp: padEnd_def)

lemma padEnd_length: "length f \<le> n \<Longrightarrow> length (padEnd n f) = n"
  by (simp add: padEnd_def)

lemma scaledText_parts:
  assumes "set f \<subseteq> digits" and n: "nat \<bar>n\<bar> = W * 10 ^ length f + read_nat f"
  shows "scaledText n (length f) = (if n < 0 then ''-'' else '''') @ show_nat W @ (if f = [] then '''' else ''.'' @ f)"
proof -
  have "(W * 10 ^ length f + read_nat f) div 10 ^ length f = W"
    using read_nat_less[OF assms(1)] by simp
  then have "padStart (length f + 1) (show_nat (nat \<bar>n\<bar>)) = show_nat W @ f"
    using padStart_show[of "length f" "nat \<bar>n\<bar>"] fixedDigits_read[OF assms(1), of W] by (simp add: n)
  then show ?thesis by (simp add: scaledText_def)
qed

text \<open>What is accepted, and the result: both depend on the value alone.\<close>

definition validScale :: "int \<Rightarrow> int \<Rightarrow> bool" where
  "validScale precision scale \<longleftrightarrow> 1 \<le> precision \<and> precision \<le> 18 \<and> 0 \<le> scale \<and> scale \<le> precision"

lemma normalizeDecimal_value:
  assumes "validScale p s" and "isDecimal x" and "int (length (fractionPart x)) \<le> s"
  shows "normalizeDecimal x p s =
    (if \<bar>scaledValue (nat s) x\<bar> < 10 ^ nat p then Inr (scaledText (scaledValue (nat s) x) (nat s)) else fail CODEC_ENCODE)"
proof -
  define f where "f = padEnd (nat s) (fractionPart x)"
  define W where "W = read_nat (wholePart x)"
  have f: "set f \<subseteq> digits" "length f = nat s"
    using padEnd_digits[OF fractionPart_digits[OF assms(2)]] assms(3) by (simp_all add: f_def padEnd_length)
  have whole: "stripZeros (wholePart x) = show_nat W"
    using stripZeros_show assms(2) by (simp add: W_def isDecimal_def)
  have zero: "show_nat W = ''0'' \<longleftrightarrow> W = 0" using show_nat_inject[of W 0] by (simp add: show_nat_0)
  have "\<bar>scaledValue (nat s) x\<bar> = int (read_nat (wholePart x @ f))"
    by (simp add: scaledValue_def f_def)
  then have abs: "nat \<bar>scaledValue (nat s) x\<bar> = W * 10 ^ length f + read_nat f"
    unfolding read_nat_append W_def by (simp only: nat_int)
  have fits: "\<bar>scaledValue (nat s) x\<bar> < 10 ^ nat p \<longleftrightarrow> W < 10 ^ (nat p - nat s)"
  proof -
    have p: "(10::nat) ^ nat p = 10 ^ (nat p - nat s) * 10 ^ nat s"
      using assms(1) by (simp add: validScale_def nat_mono flip: power_add)
    have "\<bar>scaledValue (nat s) x\<bar> < 10 ^ nat p \<longleftrightarrow> nat \<bar>scaledValue (nat s) x\<bar> < 10 ^ nat p"
      by (simp add: nat_less_iff)
    also have "\<dots> \<longleftrightarrow> (W * 10 ^ nat s + read_nat f) div 10 ^ nat s < 10 ^ (nat p - nat s)"
      unfolding abs p f(2) by (simp only: div_less_iff_less_mult zero_less_power zero_less_numeral)
    also have "(W * 10 ^ nat s + read_nat f) div 10 ^ nat s = W"
      using read_nat_less[OF f(1)] f(2) by simp
    finally show ?thesis .
  qed
  have len: "int (if W = 0 then 0 else length (show_nat W)) + s > p \<longleftrightarrow> \<not> W < 10 ^ (nat p - nat s)"
    using show_nat_length[of W "nat p - nat s"] assms(1) by (auto simp: validScale_def)
  have "read_nat (wholePart x @ f) = 0 \<longleftrightarrow> W = 0 \<and> set f \<subseteq> {CHR ''0''}"
    unfolding read_nat_append W_def[symmetric] using read_nat_eq_0[OF f(1)] by simp
  then have neg: "scaledValue (nat s) x < 0 \<longleftrightarrow> startsWith x ''-'' \<and> \<not> (W = 0 \<and> set f \<subseteq> {CHR ''0''})"
    unfolding scaledValue_def f_def[symmetric] by auto
  have "scaledText (scaledValue (nat s) x) (nat s) =
      (if scaledValue (nat s) x < 0 then ''-'' else '''') @ show_nat W @ (if s = 0 then '''' else ''.'' @ f)"
    using scaledText_parts[OF f(1) abs] f(2) assms(1) by (auto simp: validScale_def)
  then show ?thesis
    using assms whole zero len fits neg
    by (simp add: normalizeDecimal_def Let_def validScale_def f_def[symmetric])
qed

text \<open>An accepted text.\<close>

lemma normalizeDecimal_Inr:
  assumes "normalizeDecimal x p s = Inr y"
  shows "validScale p s" "isDecimal x" "int (length (fractionPart x)) \<le> s"
    "y = scaledText (scaledValue (nat s) x) (nat s)" "\<bar>scaledValue (nat s) x\<bar> < 10 ^ nat p"
proof -
  show v: "validScale p s" "isDecimal x" "int (length (fractionPart x)) \<le> s"
    using assms by (auto simp: normalizeDecimal_def validScale_def Let_def split: if_splits)
  from normalizeDecimal_value[OF this] assms
  show "y = scaledText (scaledValue (nat s) x) (nat s)" "\<bar>scaledValue (nat s) x\<bar> < 10 ^ nat p"
    by (auto split: if_splits)
qed

text \<open>The text of a scaled integer reads as it.\<close>

lemma signed_text:
  assumes "t \<noteq> []" and "hd t \<in> digits"
  shows "unsigned ((if neg then ''-'' else '''') @ t) = t" "startsWith ((if neg then ''-'' else '''') @ t) ''-'' \<longleftrightarrow> neg"
  using assms by (cases t; auto simp: unsigned_def isSign_def startsWith_def)+

lemma scaledText_reads:
  "isDecimal (scaledText n s) \<and> length (fractionPart (scaledText n s)) = s \<and> scaledValue s (scaledText n s) = n"
proof -
  let ?m = "nat \<bar>n\<bar>"
  define f where "f = fixedDigits s ?m"
  define w where "w = show_nat (?m div 10 ^ s)"
  define t where "t = w @ (if s = 0 then '''' else ''.'' @ f)"
  have f: "set f \<subseteq> digits" "length f = s"
    unfolding f_def using fixedDigits_digits by auto
  have w: "isDigits w" using show_nat_digits unfolding w_def isDigits_def by simp
  have ds: "padStart (s + 1) (show_nat ?m) = w @ f"
    using padStart_show[of s ?m] by (simp add: w_def f_def)
  have sct: "scaledText n s = (if n < 0 then ''-'' else '''') @ t"
    unfolding scaledText_def Let_def ds t_def using f(2) by auto
  have hd: "t \<noteq> []" "hd t \<in> digits" using w by (cases w; simp add: t_def isDigits_def)+
  have u: "unsigned (scaledText n s) = t" unfolding sct by (rule signed_text(1)[OF hd])
  have dot: "CHR ''.'' \<notin> set w" using w unfolding isDigits_def by auto
  have parts: "wholePart (scaledText n s) = w" "fractionPart (scaledText n s) = f"
    unfolding wholePart_def fractionPart_def u t_def
    using dot f(2) by (auto simp: takeWhile_append dropWhile_append)
  have "isDecimal (scaledText n s)"
    unfolding isDecimal_def parts u using w f dot by (auto simp: t_def isDigits_def)
  moreover have "startsWith (scaledText n s) ''-'' \<longleftrightarrow> n < 0"
    unfolding sct by (rule signed_text(2)[OF hd])
  moreover have "padEnd s f = f" using f(2) by (simp add: padEnd_def)
  moreover have "read_nat (w @ f) = ?m"
    using read_nat_padStart[of "s + 1" "show_nat ?m"] unfolding ds by simp
  ultimately show ?thesis unfolding scaledValue_def parts using f(2) by auto
qed

lemma scaledText_inject [simp]: "scaledText n s = scaledText m s \<longleftrightarrow> n = m"
  by (metis scaledText_reads)

lemma normalizeDecimal_scaledText:
  assumes "validScale p s" and "\<bar>n\<bar> < 10 ^ nat p"
  shows "normalizeDecimal (scaledText n (nat s)) p s = Inr (scaledText n (nat s))"
  using normalizeDecimal_value[OF assms(1), of "scaledText n (nat s)"] scaledText_reads[of n "nat s"] assms
  by (simp add: validScale_def)

lemma bigInt_scaledText: "bigInt (remove1 (CHR ''.'') (scaledText n s)) = n"
proof -
  let ?m = "nat \<bar>n\<bar>" and ?sign = "if n < 0 then ''-'' else ''''"
  have ds: "padStart (s + 1) (show_nat ?m) = show_nat (?m div 10 ^ s) @ fixedDigits s ?m"
    using padStart_show[of s ?m] by simp
  define t where "t = show_nat (?m div 10 ^ s) @ fixedDigits s ?m"
  have "CHR ''.'' \<notin> set ?sign" "CHR ''.'' \<notin> set (show_nat (?m div 10 ^ s))"
    using show_nat_no_char[of "CHR ''.''"] by auto
  then have rm: "remove1 (CHR ''.'') (scaledText n s) = ?sign @ t"
    unfolding scaledText_def Let_def ds t_def by (auto simp: remove1_append remove1_idem)
  have hd: "t \<noteq> []" "hd t \<in> digits"
    using show_nat_digits[of "?m div 10 ^ s"] by (cases "show_nat (?m div 10 ^ s)"; auto simp: t_def)+
  note signed_text[OF this, of "n < 0"]
  moreover have "read_nat t = ?m"
    using read_nat_padStart[of "s + 1" "show_nat ?m"] unfolding ds t_def by simp
  ultimately show ?thesis unfolding rm bigInt_def by (cases "n < 0") simp_all
qed

lemma decimalScaled_value:
  "decimalScaled x p s = bind_res (normalizeDecimal x p s) (\<lambda>t. Inr (scaledValue (nat s) x))"
proof (cases "normalizeDecimal x p s")
  case (Inr y)
  from normalizeDecimal_Inr(4)[OF this] Inr show ?thesis
    by (simp add: decimalScaled_def bigInt_scaledText)
qed (simp add: decimalScaled_def)

lemma decimalFromScaled_value:
  assumes "validScale p s"
  shows "decimalFromScaled (Some n) p s =
    (if \<bar>n\<bar> < 10 ^ nat p then Inr (scaledText n (nat s)) else fail CODEC_DECODE)"
  using normalizeDecimal_value[OF assms, of "scaledText n (nat s)"] scaledText_reads[of n "nat s"] assms
  by (simp add: decimalFromScaled_def validScale_def)

end
