(* ===== verification/Calendar.thy ===== *)
theory Calendar
  imports Decimal
begin

section \<open>The calendar of \<open>Date\<close>\<close>

text \<open>
  What the sources use of the \<open>Date\<close> of JavaScript (ECMA-262, 21.4.1): a time value counts the
  milliseconds since 1970, the year, the month and the day of the month follow from it, and
  arguments that are out of range carry over. The time values stay far inside the range of \<open>Date\<close>.
  The lemmas show that it is the Gregorian calendar: a day has one date, and a date one day.
\<close>

definition isLeap :: "int \<Rightarrow> bool" where
  "isLeap y \<longleftrightarrow> y mod 4 = 0 \<and> (y mod 100 \<noteq> 0 \<or> y mod 400 = 0)"

definition dayFromYear :: "int \<Rightarrow> int" where
  "dayFromYear y = 365 * (y - 1970) + (y - 1969) div 4 - (y - 1901) div 100 + (y - 1601) div 400"

text \<open>The day of the year on which the month starts; months count from zero.\<close>

definition monthStart :: "bool \<Rightarrow> nat \<Rightarrow> int" where
  "monthStart leap m =
     [0, 31, 59, 90, 120, 151, 181, 212, 243, 273, 304, 334, 365] ! m + (if leap \<and> 2 \<le> m then 1 else 0)"

definition makeDay :: "int \<Rightarrow> int \<Rightarrow> int \<Rightarrow> int" where
  "makeDay y m d =
     (let ym = y + m div 12 in dayFromYear ym + monthStart (isLeap ym) (nat (m mod 12)) + d - 1)"

definition dateUTC :: "int \<Rightarrow> int \<Rightarrow> int \<Rightarrow> int \<Rightarrow> int \<Rightarrow> int \<Rightarrow> int" where
  "dateUTC y m d h mi s =
     (makeDay (if 0 \<le> y \<and> y \<le> 99 then 1900 + y else y) m d * 86400 + h * 3600 + mi * 60 + s) * 1000"

definition yearFromDay :: "int \<Rightarrow> int" where
  "yearFromDay n =
     (let y = 1970 + (400 * n) div 146097 in
      if n < dayFromYear y then y - 1 else if dayFromYear (y + 1) \<le> n then y + 1 else y)"

definition monthFromDay :: "int \<Rightarrow> nat" where
  "monthFromDay n =
     (let y = yearFromDay n in length (filter (\<lambda>m. monthStart (isLeap y) m \<le> n - dayFromYear y) [1..<12]))"

definition dateFromDay :: "int \<Rightarrow> int" where
  "dateFromDay n = (let y = yearFromDay n in n - dayFromYear y - monthStart (isLeap y) (monthFromDay n) + 1)"

abbreviation dayOf :: "int \<Rightarrow> int" where
  "dayOf t \<equiv> t div 86400000"

definition setUTCFullYear :: "int \<Rightarrow> int \<Rightarrow> int" where
  "setUTCFullYear t y = makeDay y (int (monthFromDay (dayOf t))) (dateFromDay (dayOf t)) * 86400000 + t mod 86400000"

lemma div_bounds:
  fixes a q :: int
  assumes "0 < q"
  shows "q * (a div q) \<le> a" "a < q * (a div q) + q"
  using assms pos_mod_bound[OF assms, of a] by (simp_all add: mult_div_mod_eq[symmetric] minus_mod_eq_mult_div[symmetric])

lemma dayFromYear_bounds:
  shows "146097 * (y - 1970) - 506 \<le> 400 * dayFromYear y \<and> 400 * dayFromYear y \<le> 146097 * (y - 1970) + 589"
  using div_bounds[of 4 "y - 1969"] div_bounds[of 100 "y - 1901"] div_bounds[of 400 "y - 1601"]
  unfolding dayFromYear_def by auto

lemma yearFromDay_bounds: "dayFromYear (yearFromDay n) \<le> n \<and> n < dayFromYear (yearFromDay n + 1)"
proof -
  define k where "k = (400 * n) div 146097"
  have k: "146097 * k \<le> 400 * n" "400 * n < 146097 * k + 146097"
    using div_bounds[of 146097 "400 * n"] by (simp_all add: k_def)
  have y: "yearFromDay n = (if n < dayFromYear (1970 + k) then 1969 + k
      else if dayFromYear (1971 + k) \<le> n then 1971 + k else 1970 + k)"
    by (simp add: yearFromDay_def k_def Let_def algebra_simps)
  have "dayFromYear (1969 + k) \<le> n" "n < dayFromYear (1972 + k)"
    using k dayFromYear_bounds[of "1969 + k"] dayFromYear_bounds[of "1972 + k"] by simp_all
  then show ?thesis unfolding y by (auto simp: algebra_simps)
qed

text \<open>A year has 365 days or 366.\<close>

lemma div_step:
  fixes q y :: int
  assumes "0 < q"
  shows "y div q = (y - 1) div q + (if y mod q = 0 then 1 else 0)"
proof -
  have r: "y = q * (y div q) + y mod q" "0 \<le> y mod q" "y mod q < q" using assms by simp_all
  show ?thesis
  proof (cases "y mod q = 0")
    case True
    have "(y - 1) div q = y div q - 1"
      by (rule int_div_pos_eq[of _ _ _ "q - 1"]) (use r True assms in \<open>simp_all add: algebra_simps\<close>)
    with True show ?thesis by simp
  next
    case False
    have "(y - 1) div q = y div q"
      by (rule int_div_pos_eq[of _ _ _ "y mod q - 1"]) (use r False in simp_all)
    with False show ?thesis by simp
  qed
qed

lemma leap_count:
  assumes "d \<longrightarrow> c" and "c \<longrightarrow> b"
  shows "(if b \<and> (\<not> c \<or> d) then 1 else 0) = (if b then 1 else 0) - (if c then 1 else 0) + (if d then 1 else (0::int))"
  using assms by (cases b; cases c; cases d) simp_all

lemma div_shift:
  fixes q y c :: int
  assumes "0 < q" and "q dvd c"
  shows "(y - c) div q = (y - (c + 1)) div q + (if y mod q = 0 then 1 else 0)"
proof -
  have "(y - c) mod q = y mod q" using assms(2) by (simp add: mod_eq_dvd_iff)
  then show ?thesis using div_step[OF assms(1), of "y - c"] by (simp add: diff_diff_eq)
qed

lemma year_steps:
  "(y - 1968) div 4 = (y - 1969) div 4 + (if y mod 4 = 0 then 1 else (0::int))"
  "(y - 1900) div 100 = (y - 1901) div 100 + (if y mod 100 = 0 then 1 else (0::int))"
  "(y - 1600) div 400 = (y - 1601) div 400 + (if y mod 400 = 0 then 1 else (0::int))"
  by (rule div_shift[where c = 1968, simplified] div_shift[where c = 1900, simplified] div_shift[where c = 1600, simplified]; simp)+

lemma isLeap_count:
  "(if isLeap y then 1 else 0) = (if y mod 4 = 0 then 1 else 0)
      - (if y mod 100 = 0 then 1 else 0) + (if y mod 400 = 0 then 1 else (0::int))"
  unfolding isLeap_def
proof (rule leap_count)
  show "y mod 400 = 0 \<longrightarrow> y mod 100 = 0" using mod_mod_cancel[of 100 400 y] by auto
  show "y mod 100 = 0 \<longrightarrow> y mod 4 = 0" using mod_mod_cancel[of 4 100 y] by auto
qed

lemma dayFromYear_Suc: "dayFromYear (y + 1) = dayFromYear y + (if isLeap y then 366 else 365)"
proof -
  have next_year: "y + 1 - 1969 = y - 1968" "y + 1 - 1901 = y - 1900" "y + 1 - 1601 = y - 1600" "y + 1 - 1970 = y - 1970 + 1"
    by simp_all
  have "dayFromYear (y + 1) = dayFromYear y + 365 + (if isLeap y then 1 else 0)"
    unfolding dayFromYear_def next_year year_steps isLeap_count distrib_left by (simp only: algebra_simps mult_1_right)
  then show ?thesis by simp
qed

lemma dayFromYear_mono: "a \<le> b \<Longrightarrow> dayFromYear a \<le> dayFromYear b"
proof (induction b rule: int_ge_induct)
  case (step b)
  then show ?case by (simp add: dayFromYear_Suc)
qed simp

lemma yearFromDay_eq: "dayFromYear y \<le> n \<Longrightarrow> n < dayFromYear (y + 1) \<Longrightarrow> yearFromDay n = y"
proof -
  assume n: "dayFromYear y \<le> n" "n < dayFromYear (y + 1)"
  have "\<not> y + 1 \<le> yearFromDay n"
    using n yearFromDay_bounds[of n] dayFromYear_mono[of "y + 1" "yearFromDay n"] by linarith
  moreover have "\<not> yearFromDay n + 1 \<le> y"
    using n yearFromDay_bounds[of n] dayFromYear_mono[of "yearFromDay n + 1" y] by linarith
  ultimately show ?thesis by simp
qed

text \<open>The days of a month, counted from one, and the dates of the calendar.\<close>

definition daysInMonth :: "int \<Rightarrow> nat \<Rightarrow> int" where
  "daysInMonth y m =
     (if m = 2 then if isLeap y then 29 else 28 else if m \<in> {4, 6, 9, 11} then 30 else 31)"

definition isDate :: "int \<Rightarrow> int \<Rightarrow> int \<Rightarrow> bool" where
  "isDate y m d \<longleftrightarrow> 1 \<le> m \<and> m \<le> 12 \<and> 1 \<le> d \<and> d \<le> daysInMonth y (nat m)"

lemma less_12: "m < 12 \<longleftrightarrow> m \<in> {0, 1, 2, 3, 4, 5, 6, 7, 8, 9, 10, 11}" for m :: nat
  by (simp, arith)

lemma monthStart_Suc: "m < 12 \<Longrightarrow> monthStart (isLeap y) (Suc m) = monthStart (isLeap y) m + daysInMonth y (Suc m)"
  unfolding less_12 by (auto simp: monthStart_def daysInMonth_def)

lemma monthStart_mono: "m \<le> k \<Longrightarrow> k \<le> 12 \<Longrightarrow> monthStart (isLeap y) m \<le> monthStart (isLeap y) k"
proof (induction k rule: dec_induct)
  case (step k)
  have "0 \<le> daysInMonth y (Suc k)" by (simp add: daysInMonth_def)
  with step show ?case using monthStart_Suc[of k y] by linarith
qed simp

lemma monthStart_ends: "monthStart (isLeap y) 0 = 0" "monthStart (isLeap y) 12 = (if isLeap y then 366 else 365)"
  by (simp_all add: monthStart_def)

lemma monthFromDay_eq:
  assumes "yearFromDay n = y" and "m < 12"
    and "monthStart (isLeap y) m \<le> n - dayFromYear y" "n - dayFromYear y < monthStart (isLeap y) (Suc m)"
  shows "monthFromDay n = m"
proof -
  have "filter (\<lambda>k. monthStart (isLeap y) k \<le> n - dayFromYear y) [1..<12] = filter (\<lambda>k. k \<le> m) [1..<12]"
    using assms monthStart_mono[of _ m y] monthStart_mono[of "Suc m" _ y]
    by (intro filter_cong) (fastforce simp: not_less_eq_eq)+
  also have "\<dots> = [1..<Suc m]" using assms(2) unfolding less_12 by (auto simp: upt_rec)
  finally show ?thesis using assms(1) by (simp add: monthFromDay_def)
qed

lemma isDate_day:
  assumes "isDate y m d"
  shows "yearFromDay (makeDay y (m - 1) d) = y" "int (monthFromDay (makeDay y (m - 1) d)) = m - 1"
    "dateFromDay (makeDay y (m - 1) d) = d"
proof -
  define k where "k = nat (m - 1)"
  define n where "n = makeDay y (m - 1) d"
  have k: "k < 12" "m = int (Suc k)" "1 \<le> d" "d \<le> daysInMonth y (Suc k)"
    using assms by (auto simp: isDate_def k_def Suc_nat_eq_nat_zadd1)
  have n: "n = dayFromYear y + monthStart (isLeap y) k + d - 1"
    using k(1,2) by (simp add: n_def makeDay_def Let_def)
  have le: "monthStart (isLeap y) k \<le> n - dayFromYear y" "n - dayFromYear y < monthStart (isLeap y) (Suc k)"
    using k n monthStart_Suc[of k y] by simp_all
  have "0 \<le> monthStart (isLeap y) k" "monthStart (isLeap y) (Suc k) \<le> (if isLeap y then 366 else 365)"
    using monthStart_mono[of 0 k y] monthStart_mono[of "Suc k" 12 y] k(1) monthStart_ends[of y] by simp_all
  then show y: "yearFromDay (makeDay y (m - 1) d) = y"
    using le unfolding n_def[symmetric] by (intro yearFromDay_eq) (auto simp: dayFromYear_Suc)
  from monthFromDay_eq[OF this k(1)] le show mo: "int (monthFromDay (makeDay y (m - 1) d)) = m - 1"
    using k(2) unfolding n_def[symmetric] by simp
  then have "monthFromDay n = k" using k(2) by (simp add: n_def)
  with y show "dateFromDay (makeDay y (m - 1) d) = d" unfolding n_def[symmetric] by (simp add: dateFromDay_def n)
qed


lemma month_exists:
  assumes "0 \<le> d" and "d < (if isLeap y then 366 else 365)"
  shows "\<exists>m<12. monthStart (isLeap y) m \<le> d \<and> d < monthStart (isLeap y) (Suc m)"
proof (rule ccontr)
  assume none: "\<not> ?thesis"
  have "m \<le> 12 \<Longrightarrow> monthStart (isLeap y) m \<le> d" for m
  proof (induction m)
    case 0
    then show ?case using assms(1) monthStart_ends(1) by simp
  next
    case (Suc m)
    then show ?case using none by (metis Suc_le_eq Suc_leD not_le)
  qed
  from this[of 12] show False using assms(2) monthStart_ends(2)[of y] by simp
qed

lemma day_date:
  "isDate (yearFromDay n) (int (monthFromDay n) + 1) (dateFromDay n)"
  "makeDay (yearFromDay n) (int (monthFromDay n)) (dateFromDay n) = n"
proof -
  define y where "y = yearFromDay n"
  have "0 \<le> n - dayFromYear y" "n - dayFromYear y < (if isLeap y then 366 else 365)"
    using yearFromDay_bounds[of n] dayFromYear_Suc[of y] by (auto simp: y_def)
  from month_exists[OF this] obtain m where m: "m < 12" "monthStart (isLeap y) m \<le> n - dayFromYear y"
      "n - dayFromYear y < monthStart (isLeap y) (Suc m)" by blast
  have mo: "monthFromDay n = m" by (rule monthFromDay_eq[OF y_def[symmetric] m])
  have d: "dateFromDay n = n - dayFromYear y - monthStart (isLeap y) m + 1"
    by (simp add: dateFromDay_def Let_def y_def mo)
  show "isDate (yearFromDay n) (int (monthFromDay n) + 1) (dateFromDay n)"
    unfolding isDate_def mo d y_def[symmetric] using m monthStart_Suc[of m y] by (auto simp: nat_add_distrib)
  show "makeDay (yearFromDay n) (int (monthFromDay n)) (dateFromDay n) = n"
    unfolding mo d y_def[symmetric] using m(1) by (simp add: makeDay_def Let_def)
qed

text \<open>The time of a day.\<close>

lemma day_parts:
  fixes D sec ms :: int
  assumes "0 \<le> sec" "sec < 86400" "0 \<le> ms" "ms < 1000"
  shows "((D * 86400 + sec) * 1000 + ms) div 86400000 = D" "((D * 86400 + sec) * 1000 + ms) mod 86400000 = sec * 1000 + ms"
proof -
  have eq: "(D * 86400 + sec) * 1000 + ms = 86400000 * D + (sec * 1000 + ms)" by simp
  show "((D * 86400 + sec) * 1000 + ms) div 86400000 = D"
    unfolding eq by (rule int_div_pos_eq[OF refl]) (use assms in simp_all)
  show "((D * 86400 + sec) * 1000 + ms) mod 86400000 = sec * 1000 + ms"
    unfolding eq by (rule int_mod_pos_eq[OF refl]) (use assms in simp_all)
qed

definition hoursOf :: "int \<Rightarrow> int" where
  "hoursOf t = t div 3600000 mod 24"

definition minutesOf :: "int \<Rightarrow> int" where
  "minutesOf t = t div 60000 mod 60"

definition secondsOf :: "int \<Rightarrow> int" where
  "secondsOf t = t div 1000 mod 60"

lemma clock_parts:
  fixes D h mi s ms :: int
  assumes "0 \<le> h" "h < 24" "0 \<le> mi" "mi < 60" "0 \<le> s" "s < 60" "0 \<le> ms" "ms < 1000"
  shows "hoursOf ((D * 86400 + h * 3600 + mi * 60 + s) * 1000 + ms) = h"
    "minutesOf ((D * 86400 + h * 3600 + mi * 60 + s) * 1000 + ms) = mi"
    "secondsOf ((D * 86400 + h * 3600 + mi * 60 + s) * 1000 + ms) = s"
proof -
  let ?t = "(D * 86400 + h * 3600 + mi * 60 + s) * 1000 + ms"
  have "?t div 3600000 = 24 * D + h"
    by (rule int_div_pos_eq[of _ _ _ "mi * 60000 + s * 1000 + ms"]) (use assms in simp_all)
  moreover have "(24 * D + h) mod 24 = h" by (rule int_mod_pos_eq[OF refl]) (use assms in simp_all)
  ultimately show "hoursOf ?t = h" by (simp only: hoursOf_def)
  have "?t div 60000 = 60 * (24 * D + h) + mi"
    by (rule int_div_pos_eq[of _ _ _ "s * 1000 + ms"]) (use assms in simp_all)
  moreover have "(60 * (24 * D + h) + mi) mod 60 = mi" by (rule int_mod_pos_eq[OF refl]) (use assms in simp_all)
  ultimately show "minutesOf ?t = mi" by (simp only: minutesOf_def)
  have "?t div 1000 = 60 * (60 * (24 * D + h) + mi) + s"
    by (rule int_div_pos_eq[of _ _ _ ms]) (use assms in simp_all)
  moreover have "(60 * (60 * (24 * D + h) + mi) + s) mod 60 = s" by (rule int_mod_pos_eq[OF refl]) (use assms in simp_all)
  ultimately show "secondsOf ?t = s" by (simp only: secondsOf_def)
qed

lemma div_units:
  fixes t :: int
  shows "t div 60000 = t div 1000 div 60" "t div 3600000 = t div 1000 div 60 div 60"
    "t div 86400000 = t div 1000 div 60 div 60 div 24"
proof -
  show m: "t div 60000 = t div 1000 div 60" for t :: int using zdiv_zmult2_eq[of 60 t 1000] by simp
  show h: "t div 3600000 = t div 1000 div 60 div 60" for t :: int
    unfolding m[symmetric] using zdiv_zmult2_eq[of 60 t 60000] by simp
  show "t div 86400000 = t div 1000 div 60 div 60 div 24"
    unfolding h[symmetric] using zdiv_zmult2_eq[of 24 t 3600000] by simp
qed

lemma instant_parts:
  "t = (dayOf t * 86400 + hoursOf t * 3600 + minutesOf t * 60 + secondsOf t) * 1000 + t mod 1000"
  "0 \<le> hoursOf t" "hoursOf t < 24" "0 \<le> minutesOf t" "minutesOf t < 60" "0 \<le> secondsOf t" "secondsOf t < 60"
proof -
  define a where "a = t div 1000"
  define b where "b = a div 60"
  define c where "c = b div 60"
  define d where "d = c div 24"
  define r where "r = (t mod 1000, a mod 60, b mod 60, c mod 24)"
  have parts: "t = 1000 * a + fst r" "a = 60 * b + fst (snd r)" "b = 60 * c + fst (snd (snd r))" "c = 24 * d + snd (snd (snd r))"
    unfolding r_def fst_conv snd_conv a_def b_def c_def d_def by (simp_all only: mult_div_mod_eq)
  have eqs: "hoursOf t = snd (snd (snd r))" "minutesOf t = fst (snd (snd r))" "secondsOf t = fst (snd r)"
      "t mod 1000 = fst r" "dayOf t = d"
    unfolding hoursOf_def minutesOf_def secondsOf_def r_def d_def c_def b_def a_def fst_conv snd_conv
    unfolding div_units by (rule refl)+
  show "t = (dayOf t * 86400 + hoursOf t * 3600 + minutesOf t * 60 + secondsOf t) * 1000 + t mod 1000"
    unfolding eqs by (subst parts(1), subst parts(2), subst parts(3), subst parts(4)) simp
qed (simp_all add: hoursOf_def minutesOf_def secondsOf_def)

end
