(* ===== verification/Time.thy ===== *)
theory Time
  imports Calendar
begin

section \<open>Dates and times (\<open>database.ts\<close>, \<open>driver.ts\<close>)\<close>

text \<open>
  A date, a time and a datetime are texts in their value form. A datetime with an offset is
  converted to the zone of the connection. The lemmas show that a text is accepted exactly when it
  names a date of the calendar and a time of the day, that an accepted form is a fixed point, and
  that the conversion keeps the instant.
\<close>

subsection \<open>Patterns\<close>

definition digit :: "char \<Rightarrow> bool" where
  "digit c \<longleftrightarrow> c \<in> digits"

definition digitsN :: "nat \<Rightarrow> string \<Rightarrow> bool" where
  "digitsN n s \<longleftrightarrow> length s = n \<and> list_all digit s"

text \<open>\<open>(\d{4})-(\d{2})-(\d{2})\<close> and \<open>(\d{2}):(\d{2}):(\d{2})\<close> at the start of a text\<close>

definition readDate :: "string \<Rightarrow> (string \<times> string \<times> string) option" where
  "readDate s =
     (let y = take 4 s; m = take 2 (drop 5 s); d = take 2 (drop 8 s) in
      if digitsN 4 y \<and> digitsN 2 m \<and> digitsN 2 d \<and> take 10 s = y @ ''-'' @ m @ ''-'' @ d then Some (y, m, d) else None)"

definition readClock :: "string \<Rightarrow> (string \<times> string \<times> string) option" where
  "readClock s =
     (let h = take 2 s; mi = take 2 (drop 3 s); sec = take 2 (drop 6 s) in
      if digitsN 2 h \<and> digitsN 2 mi \<and> digitsN 2 sec \<and> take 8 s = h @ '':'' @ mi @ '':'' @ sec then Some (h, mi, sec) else None)"

text \<open>\<open>(?:\.(\d{1,9}))?\<close>: the digits, none when there is no fraction, and the rest of the text\<close>

definition readFraction :: "string \<Rightarrow> string \<times> string" where
  "readFraction s =
     (let ds = takeWhile digit (drop 1 s) in
      if startsWith s ''.'' \<and> ds \<noteq> [] then (take 9 ds, drop (1 + length (take 9 ds)) s) else ([], s))"

text \<open>\<open>\s*\<close>: the white space of JavaScript, in UTF-8\<close>

definition spaces :: "string list" where
  "spaces =
     [[CHR 0x09], [CHR 0x0A], [CHR 0x0B], [CHR 0x0C], [CHR 0x0D], '' '', [CHR 0xC2, CHR 0xA0], [CHR 0xE1, CHR 0x9A, CHR 0x80]]
     @ map (\<lambda>n. [CHR 0xE2, CHR 0x80, char_of (128 + n)]) [0..<11]
     @ [[CHR 0xE2, CHR 0x80, CHR 0xA8], [CHR 0xE2, CHR 0x80, CHR 0xA9], [CHR 0xE2, CHR 0x80, CHR 0xAF],
        [CHR 0xE2, CHR 0x81, CHR 0x9F], [CHR 0xE3, CHR 0x80, CHR 0x80], [CHR 0xEF, CHR 0xBB, CHR 0xBF]]"

definition spaceLength :: "string \<Rightarrow> nat" where
  "spaceLength s = (case filter (startsWith s) spaces of [] \<Rightarrow> 0 | w # _ \<Rightarrow> length w)"

function skipSpace :: "string \<Rightarrow> string" where
  "skipSpace s = (if 0 < spaceLength s \<and> s \<noteq> [] then skipSpace (drop (spaceLength s) s) else s)"
  by pat_completeness auto
termination by (relation "measure length") auto

declare skipSpace.simps [simp del]

text \<open>\<open>(Z|[+-]\d{2}(?::?\d{2})?)?$\<close>: the minutes east of UTC; the outer option is the match\<close>

definition readOffset :: "string \<Rightarrow> int option option" where
  "readOffset s =
     (if s = [] then Some None
      else if s = ''Z'' then Some (Some 0)
      else
        (let sign = (if startsWith s ''-'' then -1 else 1);
             ds = take 2 (drop 1 s) @ (if startsWith (drop 3 s) '':'' then drop 4 s else drop 3 s) in
         if (startsWith s ''-'' \<or> startsWith s ''+'') \<and> (digitsN 2 ds \<and> length s = 3 \<or> digitsN 4 ds) then
           Some (Some (sign * (int (read_nat (take 2 ds)) * 60 + int (read_nat (drop 2 ds)))))
         else None))"

subsection \<open>Zones and instants\<close>

text \<open>\<open>/^([+-])(\d{2}):(\d{2})$/\<close>\<close>

definition zoneOffset :: "string \<Rightarrow> int res" where
  "zoneOffset zone =
     (let h = take 2 (drop 1 zone); mi = take 2 (drop 4 zone) in
      if (startsWith zone ''-'' \<or> startsWith zone ''+'') \<and> digitsN 2 h \<and> digitsN 2 mi \<and> drop 1 zone = h @ '':'' @ mi then
        Inr ((if startsWith zone ''-'' then -1 else 1) * (int (read_nat h) * 60 + int (read_nat mi)))
      else fail INTERNAL)"

definition pad2 :: "int \<Rightarrow> string" where
  "pad2 n = padStart 2 (show_int n)"

definition wallDate :: "int \<Rightarrow> string" where
  "wallDate t =
     (let year = yearFromDay (dayOf t) in
      (if year < 0 then ''-'' @ padStart 4 (show_int (- year)) else padStart 4 (show_int year)) @ ''-''
        @ pad2 (int (monthFromDay (dayOf t)) + 1) @ ''-'' @ pad2 (dateFromDay (dayOf t)))"

definition formatInstant :: "int \<Rightarrow> string \<Rightarrow> string res" where
  "formatInstant instant zone =
     bind_res (zoneOffset zone) (\<lambda>offset.
       let shifted = instant + offset * 60000; micro = padStart 3 (show_int (shifted mod 1000)) @ ''000'' in
       Inr (wallDate shifted @ '' '' @ pad2 (hoursOf shifted) @ '':'' @ pad2 (minutesOf shifted) @ '':''
         @ pad2 (secondsOf shifted) @ ''.'' @ micro))"

definition validDate :: "int \<Rightarrow> int \<Rightarrow> int \<Rightarrow> int \<Rightarrow> int \<Rightarrow> int \<Rightarrow> bool" where
  "validDate y m d h mi sec =
     (let t = setUTCFullYear (dateUTC y (m - 1) d h mi sec) y in
      yearFromDay (dayOf t) = y \<and> int (monthFromDay (dayOf t)) + 1 = m \<and> dateFromDay (dayOf t) = d \<and>
      hoursOf t = h \<and> minutesOf t = mi \<and> secondsOf t = sec)"

text \<open>The fraction digits of a value cut to a precision.\<close>

definition fraction :: "string \<Rightarrow> nat \<Rightarrow> string option" where
  "fraction ds precision =
     (let whole = padEnd precision ds in
      if \<exists>c \<in> set (drop precision whole). c \<in> set ''123456789'' then None
      else Some (if precision = 0 then '''' else ''.'' @ take precision whole))"

abbreviation num :: "string \<Rightarrow> int" where
  "num s \<equiv> int (read_nat s)"

subsection \<open>The value form\<close>

definition timeFormDate :: "string \<Rightarrow> string option" where
  "timeFormDate s =
     (case readDate s of
        Some (y, m, d) \<Rightarrow> if length s = 10 \<and> validDate (num y) (num m) (num d) 0 0 0 then Some s else None
      | None \<Rightarrow> None)"

definition timeFormTime :: "string \<Rightarrow> nat \<Rightarrow> string option" where
  "timeFormTime s precision =
     (case readClock s of
        None \<Rightarrow> None
      | Some (h, mi, sec) \<Rightarrow>
          (case readFraction (drop 8 s) of (ds, rest) \<Rightarrow>
             if rest \<noteq> [] \<or> num h > 23 \<or> num mi > 59 \<or> num sec > 59 then None
             else map_option (\<lambda>f. h @ '':'' @ mi @ '':'' @ sec @ f) (fraction ds precision)))"

text \<open>The groups of \<open>dateTimeText\<close>: the date, the clock, the fraction digits and the offset.\<close>

definition readDateTime ::
    "string \<Rightarrow> ((string \<times> string \<times> string) \<times> (string \<times> string \<times> string) \<times> string \<times> int option) option" where
  "readDateTime s =
     (case readDate s of
        None \<Rightarrow> None
      | Some date \<Rightarrow>
          if \<not> (startsWith (drop 10 s) '' '' \<or> startsWith (drop 10 s) ''T'') then None
          else (case readClock (drop 11 s) of
            None \<Rightarrow> None
          | Some clock \<Rightarrow>
              (case readFraction (drop 19 s) of (ds, rest) \<Rightarrow>
                 (case readOffset (skipSpace rest) of
                    None \<Rightarrow> None
                  | Some offset \<Rightarrow> Some (date, clock, ds, offset)))))"

definition timeFormDateTime :: "string \<Rightarrow> string \<Rightarrow> nat \<Rightarrow> string option res" where
  "timeFormDateTime s zone precision =
     (case readDateTime s of
        None \<Rightarrow> Inr None
      | Some ((y, m, d), (h, mi, sec), ds, offset) \<Rightarrow>
          if \<not> validDate (num y) (num m) (num d) (num h) (num mi) (num sec) then Inr None
          else (case fraction ds precision of
            None \<Rightarrow> Inr None
          | Some f \<Rightarrow>
              (case offset of
                 None \<Rightarrow> Inr (Some (y @ ''-'' @ m @ ''-'' @ d @ '' '' @ h @ '':'' @ mi @ '':'' @ sec @ f))
               | Some minutes \<Rightarrow>
                   (let wall = setUTCFullYear (dateUTC 2000 (num m - 1) (num d) (num h) (num mi) (num sec)) (num y) in
                    bind_res (formatInstant (wall - minutes * 60000) zone) (\<lambda>t. Inr (Some (take 19 t @ f)))))))"

text \<open>A value that is no text has no value form.\<close>

definition timeForm :: "string option \<Rightarrow> string \<Rightarrow> string \<Rightarrow> nat \<Rightarrow> string option res" where
  "timeForm value colType zone precision =
     (case value of
        None \<Rightarrow> Inr None
      | Some s \<Rightarrow>
          if colType = ''date'' then Inr (timeFormDate s)
          else if colType = ''time'' then Inr (timeFormTime s precision)
          else timeFormDateTime s zone precision)"

definition timeValue :: "string option \<Rightarrow> string \<Rightarrow> string \<Rightarrow> nat \<Rightarrow> string res" where
  "timeValue value colType zone precision =
     bind_res (timeForm value colType zone precision) (\<lambda>t. orFail t CODEC_ENCODE)"

definition readTime :: "string option \<Rightarrow> string \<Rightarrow> string \<Rightarrow> nat \<Rightarrow> string res" where
  "readTime value colType zone precision =
     bind_res (timeForm value colType zone precision) (\<lambda>t. orFail t CODEC_DECODE)"

text \<open>The clock of the executor in microseconds, as a value of a precision.\<close>

definition now :: "nat \<Rightarrow> string \<Rightarrow> nat \<Rightarrow> string res" where
  "now micros zone precision =
     bind_res (formatInstant (int (micros div 1000)) zone) (\<lambda>t.
       let full = take 20 t @ padStart 6 (show_nat (micros mod 1000000)) in
       Inr (if precision = 0 then take 19 full else take (20 + precision) full))"

subsection \<open>Dates that are accepted\<close>

text \<open>A wall clock whose fields are in range is read back, after a year of the same length replaced its year.\<close>

lemma set_year:
  assumes "isDate y0 m d" and "isDate y m d" and "0 \<le> h" "h < 24" "0 \<le> mi" "mi < 60" "0 \<le> sec" "sec < 60"
  shows "setUTCFullYear ((makeDay y0 (m - 1) d * 86400 + h * 3600 + mi * 60 + sec) * 1000) y =
    (makeDay y (m - 1) d * 86400 + h * 3600 + mi * 60 + sec) * 1000"
proof -
  have "0 \<le> h * 3600 + mi * 60 + sec" "h * 3600 + mi * 60 + sec < 86400" using assms by linarith+
  note day_parts[OF this, of 0 "makeDay y0 (m - 1) d"]
  then show ?thesis
    using isDate_day[OF assms(1)] by (simp add: setUTCFullYear_def add.assoc)
qed

lemma clock_read:
  assumes "isDate y m d" and "0 \<le> h" "h < 24" "0 \<le> mi" "mi < 60" "0 \<le> sec" "sec < 60" "0 \<le> ms" "ms < 1000"
  defines "t \<equiv> (makeDay y (m - 1) d * 86400 + h * 3600 + mi * 60 + sec) * 1000 + ms"
  shows "yearFromDay (dayOf t) = y" "int (monthFromDay (dayOf t)) + 1 = m" "dateFromDay (dayOf t) = d"
    "hoursOf t = h" "minutesOf t = mi" "secondsOf t = sec" "t mod 1000 = ms"
proof -
  have "0 \<le> h * 3600 + mi * 60 + sec" "h * 3600 + mi * 60 + sec < 86400" using assms by linarith+
  from day_parts(1)[OF this assms(8,9), of "makeDay y (m - 1) d"] have D: "dayOf t = makeDay y (m - 1) d"
    by (simp add: t_def add.assoc)
  show "yearFromDay (dayOf t) = y" "int (monthFromDay (dayOf t)) + 1 = m" "dateFromDay (dayOf t) = d"
    unfolding D using isDate_day[OF assms(1)] by simp_all
  show "hoursOf t = h" "minutesOf t = mi" "secondsOf t = sec" unfolding t_def using clock_parts assms(2-9) by simp_all
  show "t mod 1000 = ms" unfolding t_def
    by (rule int_mod_pos_eq[of _ _ "makeDay y (m - 1) d * 86400 + h * 3600 + mi * 60 + sec"]) (use assms(8,9) in simp_all)
qed

lemma isLeap_1900: "0 < y \<Longrightarrow> y \<le> 99 \<Longrightarrow> isLeap (1900 + y) = isLeap y"
  unfolding isLeap_def by presburger

lemma validDate_iff:
  assumes "0 \<le> y" "0 \<le> h" "0 \<le> mi" "0 \<le> sec"
  shows "validDate y m d h mi sec \<longleftrightarrow>
    isDate y m d \<and> \<not> (y = 0 \<and> m = 2 \<and> d = 29) \<and> h < 24 \<and> mi < 60 \<and> sec < 60"
proof -
  define y0 where "y0 = (if 0 \<le> y \<and> y \<le> 99 then 1900 + y else y)"
  define t where "t = setUTCFullYear (dateUTC y (m - 1) d h mi sec) y"
  have t: "t = setUTCFullYear ((makeDay y0 (m - 1) d * 86400 + h * 3600 + mi * 60 + sec) * 1000) y"
    by (simp add: t_def dateUTC_def y0_def)
  have valid: "validDate y m d h mi sec \<longleftrightarrow> yearFromDay (dayOf t) = y \<and> int (monthFromDay (dayOf t)) + 1 = m \<and>
      dateFromDay (dayOf t) = d \<and> hoursOf t = h \<and> minutesOf t = mi \<and> secondsOf t = sec"
    by (simp add: validDate_def t_def Let_def)
  show ?thesis
  proof (cases "isDate y m d \<and> h < 24 \<and> mi < 60 \<and> sec < 60")
    case False
    then show ?thesis unfolding valid using day_date(1)[of "dayOf t"] instant_parts(2-)[of t] by auto
  next
    case in_range: True
    show ?thesis
    proof (cases "y = 0 \<and> m = 2 \<and> d = 29")
      case True
      have "makeDay 1900 1 29 = makeDay 1900 2 1" "isDate 1900 3 1" "isDate 0 3 1"
        by (simp_all add: makeDay_def isDate_def daysInMonth_def isLeap_def monthStart_def)
      then have "t = (makeDay 0 (3 - 1) 1 * 86400 + h * 3600 + mi * 60 + sec) * 1000"
        using set_year[of 1900 3 1 0 h mi sec] True in_range assms by (simp add: t y0_def)
      then have "int (monthFromDay (dayOf t)) + 1 = 3"
        using clock_read(2)[of 0 3 1 h mi sec 0] \<open>isDate 0 3 1\<close> in_range assms by simp
      with True show ?thesis unfolding valid by simp
    next
      case False
      have "isDate y0 m d"
      proof (cases "y = 0")
        case True
        have "isLeap 0" "\<not> isLeap 1900" by (simp_all add: isLeap_def)
        with True in_range False show ?thesis by (auto simp: isDate_def daysInMonth_def y0_def split: if_splits)
      next
        case False
        then have "isLeap y0 = isLeap y" using assms(1) isLeap_1900[of y] by (simp add: y0_def)
        then have "daysInMonth y0 (nat m) = daysInMonth y (nat m)" by (simp only: daysInMonth_def)
        with in_range show ?thesis by (simp add: isDate_def)
      qed
      then have "t = (makeDay y (m - 1) d * 86400 + h * 3600 + mi * 60 + sec) * 1000"
        unfolding t using set_year in_range assms by simp
      then show ?thesis unfolding valid using False in_range assms clock_read[of y m d h mi sec 0] by simp
    qed
  qed
qed

subsection \<open>Accepted forms are fixed points\<close>

lemma digitsN_length: "digitsN n s \<Longrightarrow> length s = n"
  by (simp add: digitsN_def)

lemma readDate_append:
  assumes "digitsN 4 y" and "digitsN 2 m" and "digitsN 2 d"
  shows "readDate (y @ ''-'' @ m @ ''-'' @ d @ r) = Some (y, m, d)" "drop 10 (y @ ''-'' @ m @ ''-'' @ d @ r) = r"
proof -
  note len = assms[THEN digitsN_length]
  let ?s = "y @ ''-'' @ m @ ''-'' @ d @ r"
  have "take 4 ?s = y" "take 2 (drop 5 ?s) = m" "take 2 (drop 8 ?s) = d" "take 10 ?s = y @ ''-'' @ m @ ''-'' @ d"
    using len by simp_all
  then show "readDate ?s = Some (y, m, d)" using assms by (simp only: readDate_def Let_def simp_thms if_True)
  show "drop 10 ?s = r" using len by simp
qed

lemma readClock_append:
  assumes "digitsN 2 h" and "digitsN 2 mi" and "digitsN 2 sec"
  shows "readClock (h @ '':'' @ mi @ '':'' @ sec @ r) = Some (h, mi, sec)" "drop 8 (h @ '':'' @ mi @ '':'' @ sec @ r) = r"
proof -
  note len = assms[THEN digitsN_length]
  let ?s = "h @ '':'' @ mi @ '':'' @ sec @ r"
  have "take 2 ?s = h" "take 2 (drop 3 ?s) = mi" "take 2 (drop 6 ?s) = sec" "take 8 ?s = h @ '':'' @ mi @ '':'' @ sec"
    using len by simp_all
  then show "readClock ?s = Some (h, mi, sec)" using assms by (simp only: readClock_def Let_def simp_thms if_True)
  show "drop 8 ?s = r" using len by simp
qed

lemma readDate_digits: "readDate s = Some (y, m, d) \<Longrightarrow> digitsN 4 y \<and> digitsN 2 m \<and> digitsN 2 d"
  by (auto simp: readDate_def Let_def split: if_splits)

lemma readClock_digits: "readClock s = Some (h, mi, sec) \<Longrightarrow> digitsN 2 h \<and> digitsN 2 mi \<and> digitsN 2 sec"
  by (auto simp: readClock_def Let_def split: if_splits)

lemma readFraction_digits: "readFraction s = (ds, rest) \<Longrightarrow> list_all digit ds"
  by (auto simp: readFraction_def Let_def list_all_iff dest!: in_set_takeD set_takeWhileD split: if_splits)

text \<open>The fraction that is written is read as it.\<close>

lemma fraction_read:
  assumes "fraction ds p = Some f" and "list_all digit ds" and "p \<le> 9"
  shows "\<exists>ds'. readFraction f = (ds', []) \<and> fraction ds' p = Some f"
proof (cases "p = 0")
  case True
  with assms(1) have "f = []" by (auto simp: fraction_def Let_def split: if_splits)
  with True show ?thesis by (simp add: readFraction_def startsWith_def fraction_def padEnd_def)
next
  case False
  define e where "e = take p (padEnd p ds)"
  have f: "f = ''.'' @ e" using assms(1) False by (auto simp: fraction_def Let_def e_def split: if_splits)
  have "digit (CHR ''0'')" by (simp add: digit_def)
  then have "list_all digit (padEnd p ds)" using assms(2) by (auto simp: padEnd_def list_all_iff)
  then have "list_all digit e" by (auto simp: e_def list_all_iff dest: in_set_takeD)
  then have tw: "takeWhile digit e = e" by (simp add: takeWhile_eq_all_conv list_all_iff)
  have e: "length e = p" by (simp add: e_def padEnd_def)
  then have "readFraction f = (e, [])" using False assms(3) by (auto simp: readFraction_def startsWith_def f tw)
  moreover have "fraction e p = Some f" using e False by (simp add: fraction_def padEnd_def f)
  ultimately show ?thesis by blast
qed

lemma skipSpace_Nil: "skipSpace [] = []"
  by (subst skipSpace.simps) simp

lemma timeFormTime_fixed:
  assumes "timeFormTime s p = Some w" and "p \<le> 9"
  shows "timeFormTime w p = Some w"
proof -
  from assms(1) obtain h mi sec ds f where r: "readClock s = Some (h, mi, sec)" "readFraction (drop 8 s) = (ds, [])"
      "\<not> (num h > 23 \<or> num mi > 59 \<or> num sec > 59)" "fraction ds p = Some f" "w = h @ '':'' @ mi @ '':'' @ sec @ f"
    by (auto simp: timeFormTime_def split: option.splits prod.splits if_splits)
  from fraction_read[OF r(4) readFraction_digits[OF r(2)] assms(2)] obtain ds' where
    "readFraction f = (ds', [])" "fraction ds' p = Some f" by blast
  then show ?thesis
    using readClock_append[of h mi sec f] readClock_digits[OF r(1)] r(3)
    unfolding timeFormTime_def r(5) by simp
qed

text \<open>A wall clock with a fraction and no offset.\<close>

definition wallText :: "string \<times> string \<times> string \<Rightarrow> string \<times> string \<times> string \<Rightarrow> string \<Rightarrow> string" where
  "wallText date clock f =
     (case (date, clock) of ((y, m, d), (h, mi, sec)) \<Rightarrow>
        y @ ''-'' @ m @ ''-'' @ d @ '' '' @ h @ '':'' @ mi @ '':'' @ sec @ f)"

lemma wallText_fixed:
  assumes "digitsN 4 y" "digitsN 2 m" "digitsN 2 d" "digitsN 2 h" "digitsN 2 mi" "digitsN 2 sec"
    and "validDate (num y) (num m) (num d) (num h) (num mi) (num sec)"
    and "fraction ds p = Some f" "list_all digit ds" "p \<le> 9"
  defines "w \<equiv> wallText (y, m, d) (h, mi, sec) f"
  shows "\<exists>ds'. readDateTime w = Some ((y, m, d), (h, mi, sec), ds', None) \<and> timeFormDateTime w zone p = Inr (Some w)"
proof -
  obtain ds' where f: "readFraction f = (ds', [])" "fraction ds' p = Some f" using fraction_read assms(8-10) by blast
  let ?r = "h @ '':'' @ mi @ '':'' @ sec @ f"
  have w: "w = y @ ''-'' @ m @ ''-'' @ d @ '' '' @ ?r" by (simp add: w_def wallText_def)
  have d: "readDate w = Some (y, m, d)" "drop 10 w = '' '' @ ?r"
    using readDate_append[OF assms(1-3), of "'' '' @ ?r"] by (simp_all add: w)
  have "drop 11 w = drop 1 (drop 10 w)" "drop 19 w = drop 8 (drop 1 (drop 10 w))" by simp_all
  then have "drop 11 w = ?r" "drop 19 w = f" using readClock_append[OF assms(4-6), of f] by (simp_all add: d(2))
  with d f readClock_append[OF assms(4-6), of f] have "readDateTime w = Some ((y, m, d), (h, mi, sec), ds', None)"
    by (simp add: readDateTime_def startsWith_def skipSpace_Nil readOffset_def)
  with f assms(7) show ?thesis by (simp add: timeFormDateTime_def w_def wallText_def)
qed

subsection \<open>The conversion of an offset\<close>

text \<open>The milliseconds of a wall clock read in UTC.\<close>

definition wallInstant :: "string \<times> string \<times> string \<Rightarrow> string \<times> string \<times> string \<Rightarrow> int" where
  "wallInstant date clock =
     (case (date, clock) of ((y, m, d), (h, mi, sec)) \<Rightarrow>
        (makeDay (num y) (num m - 1) (num d) * 86400 + num h * 3600 + num mi * 60 + num sec) * 1000)"

text \<open>The range that a bound date or datetime must be in.\<close>

definition inRange :: "string \<Rightarrow> bool" where
  "inRange t \<longleftrightarrow> digitsN 4 (take 4 t) \<and> startsWith (drop 4 t) ''-'' \<and> \<not> startsWith t ''0000''"

lemma digits_list_all: "set s \<subseteq> digits \<Longrightarrow> list_all digit s"
  unfolding list_all_iff digit_def by (rule subset_iff[THEN iffD1, THEN Ball_def[THEN iffD2]])

lemma padStart_digitsN:
  assumes "n < 10 ^ k" and "0 < k"
  shows "digitsN k (padStart k (show_nat n))" "read_nat (padStart k (show_nat n)) = n"
proof -
  have "length (show_nat n) \<le> k"
    using show_nat_length[of n k] assms by (cases "n = 0") (auto simp: show_nat_0)
  moreover have "digit (CHR ''0'')" by (simp add: digit_def)
  ultimately show "digitsN k (padStart k (show_nat n))"
    using digits_list_all[OF show_nat_digits[of n]] by (auto simp: digitsN_def padStart_def list_all_iff)
  show "read_nat (padStart k (show_nat n)) = n" by (simp add: read_nat_padStart)
qed

lemma pad2_digitsN:
  assumes "0 \<le> i" "i < 100"
  shows "digitsN 2 (pad2 i)" "num (pad2 i) = i"
  using padStart_digitsN[of "nat i" 2] assms by (simp_all add: pad2_def show_int_def)

lemma year_digitsN:
  assumes "0 \<le> i" "i < 10000"
  shows "digitsN 4 (padStart 4 (show_int i))" "num (padStart 4 (show_int i)) = i"
  using padStart_digitsN[of "nat i" 4] assms by (simp_all add: show_int_def)

text \<open>The parts of an instant in a zone, each with its width.\<close>

definition dateParts :: "int \<Rightarrow> string \<times> string \<times> string" where
  "dateParts t = (padStart 4 (show_int (yearFromDay (dayOf t))), pad2 (int (monthFromDay (dayOf t)) + 1), pad2 (dateFromDay (dayOf t)))"

definition clockParts :: "int \<Rightarrow> string \<times> string \<times> string" where
  "clockParts t = (pad2 (hoursOf t), pad2 (minutesOf t), pad2 (secondsOf t))"

lemma isDate_100: "isDate y m d \<Longrightarrow> 0 \<le> m \<and> m < 100 \<and> 0 \<le> d \<and> d < 100"
  by (auto simp: isDate_def daysInMonth_def split: if_splits)

lemma instant_text:
  assumes "0 \<le> yearFromDay (dayOf t)" "yearFromDay (dayOf t) < 10000"
  obtains y m d h mi sec where "dateParts t = (y, m, d)" "clockParts t = (h, mi, sec)"
    "digitsN 4 y" "digitsN 2 m" "digitsN 2 d" "digitsN 2 h" "digitsN 2 mi" "digitsN 2 sec"
    "num y = yearFromDay (dayOf t)" "isDate (num y) (num m) (num d)" "num h < 24" "num mi < 60" "num sec < 60"
    "wallInstant (y, m, d) (h, mi, sec) + t mod 1000 = t"
proof -
  define mo where "mo = int (monthFromDay (dayOf t)) + 1"
  define da where "da = dateFromDay (dayOf t)"
  note date = day_date[of "dayOf t", folded da_def]
  note small = isDate_100[OF date(1), folded mo_def]
  note clock = instant_parts[of t]
  have lt: "hoursOf t < 100" "minutesOf t < 100" "secondsOf t < 100" using clock by linarith+
  have m: "digitsN 2 (pad2 mo)" "num (pad2 mo) = mo" using pad2_digitsN[of mo] small by blast+
  have d: "digitsN 2 (pad2 da)" "num (pad2 da) = da" using pad2_digitsN[of da] small by blast+
  note y = year_digitsN[OF assms] and h = pad2_digitsN[OF clock(2) lt(1)] and mi = pad2_digitsN[OF clock(4) lt(2)]
    and sec = pad2_digitsN[OF clock(6) lt(3)]
  have wall: "wallInstant (padStart 4 (show_int (yearFromDay (dayOf t))), pad2 mo, pad2 da)
      (pad2 (hoursOf t), pad2 (minutesOf t), pad2 (secondsOf t)) + t mod 1000 = t"
    unfolding wallInstant_def prod.case y(2) m(2) d(2) h(2) mi(2) sec(2)
    using date(2) clock(1) by (simp only: mo_def add_diff_cancel_right')
  show ?thesis
  proof (rule that)
    show "dateParts t = (padStart 4 (show_int (yearFromDay (dayOf t))), pad2 mo, pad2 da)"
      by (simp only: dateParts_def mo_def da_def)
    show "clockParts t = (pad2 (hoursOf t), pad2 (minutesOf t), pad2 (secondsOf t))" by (rule clockParts_def)
    show "isDate (num (padStart 4 (show_int (yearFromDay (dayOf t))))) (num (pad2 mo)) (num (pad2 da))"
      unfolding y(2) m(2) d(2) using date(1) by (simp only: mo_def)
  qed (fact y m d h mi sec wall | use clock h(2) mi(2) sec(2) in linarith)+
qed

lemma formatInstant_text:
  assumes "zoneOffset zone = Inr z" and "0 \<le> yearFromDay (dayOf (instant + z * 60000))"
    and "yearFromDay (dayOf (instant + z * 60000)) < 10000"
  shows "\<exists>r. formatInstant instant zone = Inr (wallText (dateParts (instant + z * 60000)) (clockParts (instant + z * 60000)) r)
    \<and> r = ''.'' @ padStart 3 (show_int ((instant + z * 60000) mod 1000)) @ ''000''"
  using assms by (auto simp: formatInstant_def Let_def wallText_def dateParts_def clockParts_def wallDate_def)

text \<open>A text that converts a valid wall clock: its instant is kept, and its fraction.\<close>

lemma isDate_2000: "isDate y m d \<Longrightarrow> isDate 2000 m d"
  by (auto simp: isDate_def daysInMonth_def isLeap_def split: if_splits)

lemma offset_instant:
  assumes "validDate (num y) (num m) (num d) (num h) (num mi) (num sec)"
  shows "setUTCFullYear (dateUTC 2000 (num m - 1) (num d) (num h) (num mi) (num sec)) (num y) = wallInstant (y, m, d) (h, mi, sec)"
proof -
  from assms have "isDate (num y) (num m) (num d)" "num h < 24" "num mi < 60" "num sec < 60"
    by (auto simp: validDate_iff)
  from set_year[OF isDate_2000[OF this(1)] this(1)] this(2-) show ?thesis
    by (simp add: dateUTC_def wallInstant_def)
qed

lemma wallText_take: "digitsN 4 y \<Longrightarrow> digitsN 2 m \<Longrightarrow> digitsN 2 d \<Longrightarrow> digitsN 2 h \<Longrightarrow> digitsN 2 mi \<Longrightarrow> digitsN 2 sec \<Longrightarrow>
    take 19 (wallText (y, m, d) (h, mi, sec) r) @ f = wallText (y, m, d) (h, mi, sec) f"
  by (simp add: wallText_def digitsN_length)

lemma wallInstant_1000: "wallInstant date clock mod 1000 = 0"
  by (cases date; cases clock) (simp add: wallInstant_def split: prod.split)

lemma timeFormDateTime_offset:
  assumes r: "readDateTime s = Some ((y, m, d), (h, mi, sec), ds, Some offset)"
    and valid: "validDate (num y) (num m) (num d) (num h) (num mi) (num sec)"
    and f: "fraction ds p = Some f" "p \<le> 9" "list_all digit ds" and z: "zoneOffset zone = Inr z"
    and year: "1 \<le> yearFromDay (dayOf (wallInstant (y, m, d) (h, mi, sec) - offset * 60000 + z * 60000))"
      "yearFromDay (dayOf (wallInstant (y, m, d) (h, mi, sec) - offset * 60000 + z * 60000)) < 10000"
  shows "\<exists>t date clock ds'. timeFormDateTime s zone p = Inr (Some t) \<and> timeFormDateTime t zone p = Inr (Some t) \<and>
    readDateTime t = Some (date, clock, ds', None) \<and>
    wallInstant date clock - z * 60000 = wallInstant (y, m, d) (h, mi, sec) - offset * 60000"
proof -
  define t where "t = wallInstant (y, m, d) (h, mi, sec) - offset * 60000 + z * 60000"
  have "(wallInstant (y, m, d) (h, mi, sec) + 1000 * ((z - offset) * 60)) mod 1000 = 0"
    unfolding mod_mult_self2 by (rule wallInstant_1000)
  then have ms: "t mod 1000 = 0" by (simp add: t_def algebra_simps)
  have y0: "0 \<le> yearFromDay (dayOf t)" "yearFromDay (dayOf t) < 10000" "1 \<le> yearFromDay (dayOf t)"
    using year unfolding t_def by linarith+
  obtain y' m' d' h' mi' sec' where q: "dateParts t = (y', m', d')" "clockParts t = (h', mi', sec')"
    "digitsN 4 y'" "digitsN 2 m'" "digitsN 2 d'" "digitsN 2 h'" "digitsN 2 mi'" "digitsN 2 sec'"
    "num y' = yearFromDay (dayOf t)" "isDate (num y') (num m') (num d')" "num h' < 24" "num mi' < 60" "num sec' < 60"
    "wallInstant (y', m', d') (h', mi', sec') + t mod 1000 = t"
    by (rule instant_text[OF y0(1,2)])
  have v: "validDate (num y') (num m') (num d') (num h') (num mi') (num sec')"
    using q(9-13) y0(3) by (simp add: validDate_iff)
  let ?w = "wallText (y', m', d') (h', mi', sec') f"
  obtain ds' where w: "readDateTime ?w = Some ((y', m', d'), (h', mi', sec'), ds', None)" "timeFormDateTime ?w zone p = Inr (Some ?w)"
    using wallText_fixed[OF q(3-8) v f(1,3,2)] by blast
  obtain frac where "formatInstant (wallInstant (y, m, d) (h, mi, sec) - offset * 60000) zone =
      Inr (wallText (y', m', d') (h', mi', sec') frac)"
    using formatInstant_text[OF z, of "wallInstant (y, m, d) (h, mi, sec) - offset * 60000", folded t_def, OF y0(1,2)] q(1,2) by auto
  then have "timeFormDateTime s zone p = Inr (Some ?w)"
    using r valid f(1) offset_instant[OF valid] wallText_take[OF q(3-8)] by (simp add: timeFormDateTime_def)
  moreover have "wallInstant (y', m', d') (h', mi', sec') - z * 60000 = wallInstant (y, m, d) (h, mi, sec) - offset * 60000"
    using q(14) ms by (simp add: t_def)
  ultimately show ?thesis using w by blast
qed

text \<open>A converted text is in range only when its year is.\<close>

lemma nth_digit: "list_all digit s \<Longrightarrow> i < length s \<Longrightarrow> s ! i \<noteq> CHR ''-''"
proof -
  assume "list_all digit s" "i < length s"
  then have "digit (s ! i)" by (simp add: list_all_length)
  then show ?thesis by (auto simp: digit_def)
qed

lemma inRange_year:
  assumes "inRange (take 19 (wallDate t @ r) @ f)"
  shows "1 \<le> yearFromDay (dayOf t) \<and> yearFromDay (dayOf t) < 10000"
proof -
  let ?y = "yearFromDay (dayOf t)"
  define ys where "ys = (if ?y < 0 then ''-'' @ padStart 4 (show_int (- ?y)) else padStart 4 (show_int ?y))"
  define rest where "rest = pad2 (int (monthFromDay (dayOf t)) + 1) @ ''-'' @ pad2 (dateFromDay (dayOf t)) @ r"
  have w: "wallDate t @ r = ys @ ''-'' @ rest" unfolding wallDate_def Let_def ys_def rest_def append_assoc ..
  have len: "4 \<le> length ys" by (auto simp: ys_def padStart_def)
  have four: "take 4 (take 19 (wallDate t @ r) @ f) = take 4 ys" using len by (simp add: w min_def)
  have dg: "digitsN 4 (take 4 ys)" using assms unfolding inRange_def four by blast
  have "0 \<le> ?y"
  proof (rule ccontr)
    assume "\<not> 0 \<le> ?y"
    then have "ys ! 0 = CHR ''-''" by (simp add: ys_def)
    moreover have "ys ! 0 \<noteq> CHR ''-''"
      using dg nth_digit[of "take 4 ys" 0] by (simp add: digitsN_def)
    ultimately show False by simp
  qed
  then have ys: "ys = padStart 4 (show_nat (nat ?y))" by (simp add: ys_def show_int_def)
  have "?y < 10000"
  proof (rule ccontr)
    assume "\<not> ?y < 10000"
    then have "\<not> nat ?y < 10 ^ 4" by simp
    then have l: "4 < length (show_nat (nat ?y))" using show_nat_length[of "nat ?y" 4] \<open>\<not> ?y < 10000\<close> by simp
    then have ys': "ys = show_nat (nat ?y)" by (simp add: ys padStart_def)
    with l nth_digit[OF digits_list_all[OF show_nat_digits], of 4 "nat ?y"] have "ys ! 4 \<noteq> CHR ''-''" by simp
    moreover have "hd (drop 4 (take 19 (wallDate t @ r) @ f)) = ys ! 4"
      using l ys' by (simp add: hd_drop_conv_nth nth_append w)
    moreover have "startsWith (drop 4 (take 19 (wallDate t @ r) @ f)) ''-''" using assms unfolding inRange_def by blast
    then have "hd (drop 4 (take 19 (wallDate t @ r) @ f)) = CHR ''-''"
      unfolding startsWith_def by (cases "drop 4 (take 19 (wallDate t @ r) @ f)") (simp_all only: take_Nil, auto)
    ultimately show False by simp
  qed
  moreover have "?y \<noteq> 0"
  proof
    assume "?y = 0"
    then have "ys = ''0000''" by (simp add: ys padStart_def show_nat_0 numeral_3_eq_3)
    moreover have "length ''0000'' = 4" by simp
    ultimately have "startsWith (take 19 (wallDate t @ r) @ f) ''0000''" unfolding startsWith_def by (simp only: four take_all_iff order_refl)
    then show False using assms unfolding inRange_def by blast
  qed
  ultimately show ?thesis using \<open>0 \<le> ?y\<close> by simp
qed

lemma readDateTime_digits:
  assumes "readDateTime s = Some ((y, m, d), (h, mi, sec), ds, offset)"
  shows "digitsN 4 y" "digitsN 2 m" "digitsN 2 d" "digitsN 2 h" "digitsN 2 mi" "digitsN 2 sec" "list_all digit ds"
proof -
  from assms obtain rest where r: "readDate s = Some (y, m, d)" "readClock (drop 11 s) = Some (h, mi, sec)"
      "readFraction (drop 19 s) = (ds, rest)"
    by (auto simp: readDateTime_def split: option.splits if_splits prod.splits)
  show "digitsN 4 y" "digitsN 2 m" "digitsN 2 d" "digitsN 2 h" "digitsN 2 mi" "digitsN 2 sec" "list_all digit ds"
    using readDate_digits[OF r(1)] readClock_digits[OF r(2)] readFraction_digits[OF r(3)] by simp_all
qed

lemma timeFormDateTime_fixed:
  assumes "timeFormDateTime s zone p = Inr (Some t)" and "inRange t" and "p \<le> 9"
  shows "timeFormDateTime t zone' p = Inr (Some t)"
proof -
  from assms(1) obtain y m d h mi sec ds offset f where
    r: "readDateTime s = Some ((y, m, d), (h, mi, sec), ds, offset)"
      "validDate (num y) (num m) (num d) (num h) (num mi) (num sec)" "fraction ds p = Some f"
    by (auto simp: timeFormDateTime_def split: option.splits if_splits)
  note dig = readDateTime_digits[OF r(1)]
  show ?thesis
  proof (cases offset)
    case None
    then have "t = wallText (y, m, d) (h, mi, sec) f"
      using assms(1) r by (simp add: timeFormDateTime_def wallText_def)
    with wallText_fixed[OF dig(1-6) r(2,3) dig(7) assms(3)] show ?thesis by blast
  next
    case (Some minutes)
    let ?i = "wallInstant (y, m, d) (h, mi, sec) - minutes * 60000"
    from assms(1) obtain i where i: "formatInstant ?i zone = Inr i" "t = take 19 i @ f"
      using r Some offset_instant[OF r(2)] by (auto simp: timeFormDateTime_def bind_res_Inr_iff)
    then obtain z rest where z: "zoneOffset zone = Inr z" "i = wallDate (?i + z * 60000) @ rest"
      by (auto simp: formatInstant_def bind_res_Inr_iff Let_def)
    have year: "1 \<le> yearFromDay (dayOf (?i + z * 60000)) \<and> yearFromDay (dayOf (?i + z * 60000)) < 10000"
      by (rule inRange_year) (use assms(2) i(2) z(2) in simp)
    obtain date clock ds' where q: "timeFormDateTime t zone p = Inr (Some t)" "readDateTime t = Some (date, clock, ds', None)"
      using timeFormDateTime_offset[OF r(1)[unfolded Some] r(2,3) assms(3) dig(7) z(1)] year assms(1) by auto
    then show ?thesis by (cases date; cases clock) (auto simp: timeFormDateTime_def split: option.splits if_splits)
  qed
qed

lemma timeForm_fixed:
  assumes "timeForm v colType zone p = Inr (Some t)" and "colType \<noteq> ''time'' \<Longrightarrow> inRange t" and "p \<le> 9"
  shows "timeForm (Some t) colType zone' p = Inr (Some t)"
proof -
  from assms(1) obtain s where s: "v = Some s" by (cases v) (auto simp: timeForm_def)
  consider "colType = ''date''" | "colType = ''time''" | "colType \<noteq> ''date''" "colType \<noteq> ''time''" by blast
  then show ?thesis
  proof cases
    case 1
    with assms(1) s have "timeFormDate s = Some t" by (simp add: timeForm_def)
    then have "t = s" by (auto simp: timeFormDate_def split: option.splits if_splits prod.splits)
    with \<open>timeFormDate s = Some t\<close> 1 show ?thesis by (simp add: timeForm_def)
  next
    case 2
    with assms s timeFormTime_fixed[of s p t] show ?thesis by (simp add: timeForm_def)
  next
    case 3
    with assms s timeFormDateTime_fixed[of s zone p t zone'] show ?thesis by (simp add: timeForm_def)
  qed
qed

end
