(* ===== verification/Driver.thy ===== *)
theory Driver
  imports Execute Time
begin

section \<open>Driver errors and statement events (\<open>driver.ts\<close>, \<open>events.ts\<close>, \<open>runtime_error.ts\<close>)\<close>

text \<open>
  What a statement ends with: the error that the database library threw, mapped to the code of the
  client, and the event that the subscribers of the connection receive. A subscriber that throws
  replaces the outcome of the statement, whether the statement succeeded or failed.
\<close>

subsection \<open>Errors\<close>

text \<open>An error of a database library: the members that the sources read, the message with its suffix.\<close>

record nativeerror =
  ne_code :: "string option"
  ne_errcode :: "int option"
  ne_errno :: "int option"
  ne_fatal :: bool
  ne_message :: string

text \<open>
  A thrown value: an error of the client with the library error that caused it, the ROLLBACK error
  that holds the cause of a failure and the error of its rollback, and the CONFIG error that
  gathers several.
\<close>

datatype err =
    Thrown js_error "nativeerror option"
  | RollbackFailed err err
  | Joined "err list"

abbreviation orm :: "code \<Rightarrow> err" where
  "orm c \<equiv> Thrown (OrmError c) None"

fun errCode :: "err \<Rightarrow> code option" where
  "errCode (Thrown (OrmError c) cause) = Some c"
| "errCode (Thrown _ cause) = None"
| "errCode (RollbackFailed cause rollback) = Some ROLLBACK"
| "errCode (Joined es) = Some CONFIG"

fun joinedErrors :: "err list \<Rightarrow> err option" where
  "joinedErrors [] = None"
| "joinedErrors [e] = Some e"
| "joinedErrors es = Some (Joined es)"

definition subscriberError :: "err \<Rightarrow> bool" where
  "subscriberError e \<longleftrightarrow> errCode e = Some SUBSCRIBER"

definition sqliteBusy :: "string \<Rightarrow> nativeerror option \<Rightarrow> bool" where
  "sqliteBusy name cause \<longleftrightarrow>
     name = ''sqlite'' \<and> (case Option.bind cause ne_errcode of None \<Rightarrow> False | Some n \<Rightarrow> n mod 256 = 5)"

definition connectionLost :: "string \<Rightarrow> nativeerror \<Rightarrow> bool" where
  "connectionLost name ne =
     (if name = ''mysql'' then
        ne_errno ne = Some 4031 \<or>
        (ne_fatal ne \<and> ne_code ne \<in> {None, Some ''PROTOCOL_CONNECTION_LOST'', Some ''ECONNRESET'', Some ''EPIPE''})
      else
        name = ''postgres'' \<and>
        (case ne_code ne of
           None \<Rightarrow> False
         | Some c \<Rightarrow> startsWith c ''08'' \<or> c \<in> {''57P01'', ''57P02'', ''57P05''}))"

definition stoppedStatement :: "string \<Rightarrow> nativeerror \<Rightarrow> bool" where
  "stoppedStatement name ne \<longleftrightarrow>
     ne_code ne \<in> Some ` {''ER_LOCK_WAIT_TIMEOUT'', ''ER_QUERY_INTERRUPTED'', ''ER_QUERY_TIMEOUT'', ''57014''} \<or>
     ne_errcode ne = Some 9 \<or> sqliteBusy name (Some ne)"

definition statementCode :: "nativeerror \<Rightarrow> code" where
  "statementCode ne =
     (let is = (\<lambda>names. ne_code ne \<in> Some ` names); num = (\<lambda>ns. ne_errcode ne \<in> Some ` ns) in
      if is {''ER_LOCK_NOWAIT'', ''55P03''} \<or> num {3572} then LOCK_NOT_AVAILABLE
      else if is {''ER_DUP_ENTRY'', ''23505''} \<or> num {2067, 1555} then DUPLICATE_KEY
      else if is {''ER_NO_REFERENCED_ROW_2'', ''ER_ROW_IS_REFERENCED_2'', ''23503''} \<or> num {787} \<or>
          (num {1811} \<and> includesS (ne_message ne) ''FOREIGN KEY constraint failed'') then FOREIGN_KEY
      else if is {''ER_LOCK_DEADLOCK'', ''40P01'', ''40001''} then DEADLOCK
      else if is {''ER_OPTION_PREVENTS_STATEMENT'', ''ER_CANT_EXECUTE_IN_READ_ONLY_TRANSACTION'', ''25006''} \<or>
          (case ne_errcode ne of None \<Rightarrow> False | Some n \<Rightarrow> n mod 256 = 8) then READ_ONLY
      else if is {''ER_CHECK_CONSTRAINT_VIOLATED'', ''ER_CONSTRAINT_FAILED'', ''23514''} \<or> num {275} then CONSTRAINT
      else DRIVER)"

text \<open>What a library call throws: an error of the library, or one of the client.\<close>

datatype raised = Native nativeerror | Client err

fun driverError :: "string \<Rightarrow> raised \<Rightarrow> err" where
  "driverError name (Client e) = e"
| "driverError name (Native ne) =
     Thrown (OrmError
       (if connectionLost name ne then CONNECTION_LOST
        else if name = ''mysql'' \<and> (case ne_code ne of
            None \<Rightarrow> False
          | Some c \<Rightarrow> list_ex (includesS c) [''CERT'', ''UNABLE_TO_VERIFY'', ''SELF_SIGNED'', ''HANDSHAKE_SSL_ERROR''])
          then CONFIG
        else if stoppedStatement name ne then CANCELED
        else statementCode ne)) (Some ne)"

definition isolationSql :: "string \<Rightarrow> string res" where
  "isolationSql isolation =
     (if isolation \<in> {''read_uncommitted'', ''read_committed'', ''repeatable_read'', ''serializable''}
      then Inr (map (\<lambda>c. if c = CHR ''_'' then CHR '' '' else if codeIn 97 122 c then char_of (of_char c - 32 :: nat) else c) isolation)
      else fail CONFIG)"

subsection \<open>Events\<close>

datatype statementkind =
    KSelect | KInsert | KUpdate | KDelete | KBegin | KCommit | KRollback | KSavepoint | KRelease | KRollbackTo
  | KSchema | KUtility

record event =
  ev_sql :: string
  ev_kind :: statementkind
  ev_tables :: "string list"
  ev_transaction :: "nat option"
  ev_error :: "err option"

text \<open>A subscriber acts on the world and may throw.\<close>

type_synonym 's subscriber = "event \<Rightarrow> 's \<Rightarrow> bool \<times> 's"

record 's subscribers =
  su_list :: "(nat \<times> 's subscriber) list"
  su_entries :: nat
  su_transactions :: nat

text \<open>An entry is a new function for each registration; here it is its number.\<close>

definition subscribe :: "'s subscriber \<Rightarrow> 's subscribers \<Rightarrow> nat \<times> 's subscribers" where
  "subscribe f su =
     (su_entries su, su\<lparr>su_list := su_list su @ [(su_entries su, f)], su_entries := Suc (su_entries su)\<rparr>)"

definition unsubscribe :: "nat \<Rightarrow> 's subscribers \<Rightarrow> 's subscribers" where
  "unsubscribe entry su = su\<lparr>su_list := filter (\<lambda>(n, f). n \<noteq> entry) (su_list su)\<rparr>"

definition nextTransaction :: "'s subscribers \<Rightarrow> nat \<times> 's subscribers" where
  "nextTransaction su = (Suc (su_transactions su), su\<lparr>su_transactions := Suc (su_transactions su)\<rparr>)"

text \<open>The subscribers run in order; after one that throws, the rest are not called.\<close>

fun publish :: "(nat \<times> 's subscriber) list \<Rightarrow> event \<Rightarrow> 's \<Rightarrow> bool \<times> 's" where
  "publish [] ev s = (False, s)"
| "publish ((n, f) # fs) ev s = (case f ev s of (True, s') \<Rightarrow> (True, s') | (False, s') \<Rightarrow> publish fs ev s')"

text \<open>The kind of a statement that the planner wrote: its first word, after white space.\<close>

definition asciiUpper :: "string \<Rightarrow> string" where
  "asciiUpper s = map (\<lambda>c. if codeIn 97 122 c then char_of (of_char c - 32 :: nat) else c) s"

definition statementKind :: "string \<Rightarrow> statementkind" where
  "statementKind sql =
     (let verb = asciiUpper (takeWhile (\<lambda>c. c \<noteq> CHR '' '') (skipSpace sql)) in
      if verb = ''ALTER'' then KSchema
      else if verb = ''INSERT'' then KInsert
      else if verb = ''UPDATE'' then KUpdate
      else if verb = ''DELETE'' then KDelete
      else KSelect)"

text \<open>
  The end of a statement: its event is published, and the operation goes on with the result, with
  the mapped error of the library, or with the failure of a subscriber.
\<close>

definition observed ::
    "string \<Rightarrow> (nat \<times> 's subscriber) list \<Rightarrow> (err option \<Rightarrow> event) \<Rightarrow> raised + 'a \<Rightarrow> 's \<Rightarrow> (err + 'a) \<times> 's" where
  "observed name subs ev r s =
     (let outcome = map_sum (driverError name) id r in
      case publish subs (ev (case outcome of Inl e \<Rightarrow> Some e | Inr _ \<Rightarrow> None)) s of
        (True, s') \<Rightarrow> (Inl (orm SUBSCRIBER), s')
      | (False, s') \<Rightarrow> (outcome, s'))"

lemma joinedErrors_None_iff: "joinedErrors es = None \<longleftrightarrow> es = []"
  by (cases es rule: joinedErrors.cases) auto

lemma joinedErrors_Some: "es \<noteq> [] \<Longrightarrow> \<exists>e. joinedErrors es = Some e"
  by (cases es rule: joinedErrors.cases) auto

text \<open>A registration ends only its own: the others keep their order.\<close>

lemma unsubscribe_subscribe:
  assumes "\<forall>(n, g) \<in> set (su_list su). n < su_entries su"
  shows "unsubscribe (fst (subscribe f su)) (snd (subscribe f su)) = su\<lparr>su_entries := Suc (su_entries su)\<rparr>"
proof -
  have "filter (\<lambda>(n, g). n \<noteq> su_entries su) (su_list su) = su_list su"
    using assms by (intro filter_True) auto
  then show ?thesis by (simp add: subscribe_def unsubscribe_def)
qed

end
