(* ===== verification/Transaction.thy ===== *)
theory Transaction
  imports Driver
begin

section \<open>Transactions (\<open>database.ts\<close>)\<close>

text \<open>
  The transactions of a connection: begin, the retried run of a callback, commit and rollback with
  the clean-up of the session, savepoints, the row lock of SQLite and the audit record of a write.

  A computation takes the state of the connection and returns a result or a thrown error with the
  new state: what a failed statement did stays done. The callback of a transaction is such a
  computation. The database and the pool are the parameter \<open>world\<close>: each operation answers and
  changes the state of the world. The calls to it are kept in a log, in order, so that properties can
  speak about which statements were sent and when a session was given back. Awaits are the steps of
  one callback, run one after the other.
\<close>

named_theorems io_simps \<open>unfolding of the computations of a transaction\<close>

subsection \<open>State\<close>

record beginoptions =
  op_isolation :: "string option"
  op_readOnly :: "bool option"
  op_timeoutMs :: int

type_synonym auditrecord = "string \<times> jsvalue"

record auditinsert =
  ai_table :: string
  ai_key :: string
  ai_values :: "(string \<times> jsvalue) list"

record txframe =
  fr_session :: nat
  fr_options :: beginoptions
  fr_busy :: bool
  fr_finished :: bool
  fr_savepoints :: nat
  fr_locals :: "string list"
  fr_locks :: "string list"
  fr_audit :: "auditrecord option"
  fr_pendingAudit :: "auditinsert option"
  fr_inserted :: "(string \<times> nat list) list"

datatype call =
    Reserved nat
  | Sent nat statementkind string bool \<comment> \<open>the session, the statement, and whether the database ran it\<close>
  | Released nat bool \<comment> \<open>the session, and whether it is closed instead of given back\<close>
  | Slept int

text \<open>The database and its pool. \<open>w_inTransaction\<close> is None for a driver that does not report it.\<close>

record 's world =
  w_name :: string
  w_reserve :: "'s \<Rightarrow> (err + nat) \<times> 's"
  w_send :: "nat \<Rightarrow> string \<Rightarrow> jsvalue list \<Rightarrow> 's \<Rightarrow> (raised + jsvalue list list) \<times> 's"
  w_execute :: "string \<Rightarrow> 's \<Rightarrow> (raised + jsvalue list list) \<times> 's"
  w_inTransaction :: "nat \<Rightarrow> 's \<Rightarrow> bool option"
  w_release :: "nat \<Rightarrow> bool \<Rightarrow> 's \<Rightarrow> 's"
  w_aborted :: "'s \<Rightarrow> bool"

text \<open>The state that all handles of a connection share, its frames by number, and the flow of the callback.\<close>

record 's env =
  en_world :: 's
  en_subscribers :: "'s subscribers"
  en_closed :: bool
  en_rollbackFault :: bool
  en_statementFault :: "code option"
  en_rowLockTable :: bool
  en_lastAffected :: "int option"
  en_frames :: "nat \<Rightarrow> txframe"
  en_flow :: "nat list"
  en_log :: "call list"

type_synonym ('s, 'a) io = "'s env \<Rightarrow> (err + 'a) \<times> 's env"

subsection \<open>Computations\<close>

definition ioRet :: "'a \<Rightarrow> ('s, 'a) io" where
  [io_simps]: "ioRet a = (\<lambda>en. (Inr a, en))"

definition ioThrow :: "err \<Rightarrow> ('s, 'a) io" where
  [io_simps]: "ioThrow e = (\<lambda>en. (Inl e, en))"

definition ioBind :: "('s, 'a) io \<Rightarrow> ('a \<Rightarrow> ('s, 'b) io) \<Rightarrow> ('s, 'b) io" where
  "ioBind m f = (\<lambda>en. case m en of (Inl e, en') \<Rightarrow> (Inl e, en') | (Inr a, en') \<Rightarrow> f a en')"

text \<open>\<open>try { ... } catch\<close>: the outcome as a value.\<close>

definition ioTry :: "('s, 'a) io \<Rightarrow> ('s, err + 'a) io" where
  [io_simps]: "ioTry m = (\<lambda>en. case m en of (r, en') \<Rightarrow> (Inr r, en'))"

definition ioGet :: "('s env \<Rightarrow> 'a) \<Rightarrow> ('s, 'a) io" where
  [io_simps]: "ioGet f = (\<lambda>en. (Inr (f en), en))"

definition ioModify :: "('s env \<Rightarrow> 's env) \<Rightarrow> ('s, unit) io" where
  [io_simps]: "ioModify f = (\<lambda>en. (Inr (), f en))"

lemma ioBind_eq [io_simps]:
  "ioBind m f en = (case m en of (Inl e, en') \<Rightarrow> (Inl e, en') | (Inr a, en') \<Rightarrow> f a en')"
  by (simp add: ioBind_def)

definition setFrame :: "nat \<Rightarrow> (txframe \<Rightarrow> txframe) \<Rightarrow> 's env \<Rightarrow> 's env" where
  "setFrame n f en = en\<lparr>en_frames := (en_frames en)(n := f (en_frames en n))\<rparr>"

definition logCall :: "call \<Rightarrow> 's env \<Rightarrow> 's env" where
  "logCall c en = en\<lparr>en_log := en_log en @ [c]\<rparr>"

text \<open>\<open>flow.run(stack, work)\<close>: the stack of frames holds for the callback.\<close>

definition flowRun :: "nat list \<Rightarrow> ('s, 'a) io \<Rightarrow> ('s, 'a) io" where
  "flowRun stack m = (\<lambda>en. case m (en\<lparr>en_flow := stack\<rparr>) of (r, en') \<Rightarrow> (r, en'\<lparr>en_flow := en_flow en\<rparr>))"

subsection \<open>Statements\<close>

definition eventOf :: "statementkind \<Rightarrow> string list \<Rightarrow> nat option \<Rightarrow> string \<Rightarrow> err option \<Rightarrow> event" where
  "eventOf kind tbls transaction sql e =
     \<lparr>ev_sql = sql, ev_kind = kind, ev_tables = tbls, ev_transaction = transaction, ev_error = e\<rparr>"

text \<open>The statement ends: its event is published.\<close>

definition ended :: "'s world \<Rightarrow> (err option \<Rightarrow> event) \<Rightarrow> raised + 'a \<Rightarrow> ('s, 'a) io" where
  "ended w ev r = (\<lambda>en.
     case observed (w_name w) (su_list (en_subscribers en)) ev r (en_world en) of
       (out, s) \<Rightarrow> (out, en\<lparr>en_world := s\<rparr>))"

text \<open>\<open>frame.control\<close>: a statement of the session of frame \<open>n\<close>, with no check of the frame.\<close>

definition control :: "'s world \<Rightarrow> nat \<Rightarrow> statementkind \<Rightarrow> string list \<Rightarrow> string \<Rightarrow> jsvalue list \<Rightarrow> ('s, jsvalue list list) io" where
  "control w n kind tbls sql params = (\<lambda>en.
     let sess = fr_session (en_frames en n) in
     case w_send w sess sql params (en_world en) of
       (r, s) \<Rightarrow>
         ended w (eventOf kind tbls (Some n) sql) r
           (logCall (Sent sess kind sql (\<not> isl r)) (en\<lparr>en_world := s\<rparr>)))"

definition frameRun :: "'s world \<Rightarrow> nat \<Rightarrow> statementkind \<Rightarrow> string list \<Rightarrow> string \<Rightarrow> ('s, jsvalue list list) io" where
  "frameRun w n kind tbls sql =
     ioBind (ioGet (\<lambda>en. fr_finished (en_frames en n))) (\<lambda>finished.
       if finished then ioThrow (orm CONFIG) else control w n kind tbls sql [])"

definition checkStatementFault :: "'s world \<Rightarrow> (err option \<Rightarrow> event) \<Rightarrow> ('s, unit) io" where
  "checkStatementFault w ev =
     ioBind (ioGet en_statementFault) (\<lambda>fault.
       case fault of
         None \<Rightarrow> ioRet ()
       | Some c \<Rightarrow>
           ioBind (ioModify (\<lambda>en. en\<lparr>en_statementFault := None\<rparr>)) (\<lambda>_.
             ended w ev (Inl (Client (orm c)))))"

definition frameStatement :: "'s world \<Rightarrow> nat \<Rightarrow> statementkind \<Rightarrow> string list \<Rightarrow> string \<Rightarrow> jsvalue list \<Rightarrow> ('s, jsvalue list list) io" where
  "frameStatement w n kind tbls sql params =
     ioBind (checkStatementFault w (eventOf kind tbls (Some n) sql)) (\<lambda>_. control w n kind tbls sql params)"

definition release :: "'s world \<Rightarrow> nat \<Rightarrow> bool \<Rightarrow> ('s, unit) io" where
  "release w sess discard =
     ioModify (\<lambda>en. logCall (Released sess discard) (en\<lparr>en_world := w_release w sess discard (en_world en)\<rparr>))"

text \<open>\<open>guarded\<close>: a transaction rejects a statement while another is in use.\<close>

definition guarded :: "nat option \<Rightarrow> ('s, 'a) io \<Rightarrow> ('s, 'a) io" where
  "guarded frame work =
     (case frame of
        None \<Rightarrow> work
      | Some n \<Rightarrow>
          ioBind (ioGet (\<lambda>en. en_frames en n)) (\<lambda>fr.
            if fr_finished fr then ioThrow (orm CONFIG)
            else if fr_busy fr then ioThrow (orm CONFIG)
            else
              ioBind (ioModify (setFrame n (\<lambda>f. f\<lparr>fr_busy := True\<rparr>))) (\<lambda>_.
              ioBind (ioTry work) (\<lambda>r.
              ioBind (ioModify (setFrame n (\<lambda>f. f\<lparr>fr_busy := False\<rparr>))) (\<lambda>_.
                case r of Inl e \<Rightarrow> ioThrow e | Inr a \<Rightarrow> ioRet a)))))"

subsection \<open>The end of a transaction\<close>

text \<open>The statements that restore the session, each with the lock whose release it checks.\<close>

definition cleanupSteps :: "'s world \<Rightarrow> txframe \<Rightarrow> (string \<times> string option) list" where
  "cleanupSteps w fr =
     (if w_name w = ''sqlite'' then
        (if op_readOnly (fr_options fr) = Some True then [(''PRAGMA query_only = 0'', None)] else [])
        @ (if op_isolation (fr_options fr) = Some ''read_uncommitted'' then [(''PRAGMA read_uncommitted = 0'', None)] else [])
      else [])
     @ map (\<lambda>key. (''SELECT RELEASE_LOCK(?)'', Some key)) (fr_locks fr)
     @ (if w_name w = ''mysql'' then map (\<lambda>key. (''SET @`orm.'' @ key @ ''` = NULL'', None)) (sort (fr_locals fr)) else [])"

text \<open>\<open>Number(rows[0]?.[0]) === 1\<close> for the answer of RELEASE_LOCK, an integer or NULL\<close>

definition released1 :: "jsvalue list list \<Rightarrow> bool" where
  "released1 rows = (case rows of (v # _) # _ \<Rightarrow> v \<in> {VInt 1, VBool True, VStr ''1''} | _ \<Rightarrow> False)"

text \<open>Every step is tried; the errors are kept.\<close>

fun cleanup :: "'s world \<Rightarrow> nat \<Rightarrow> (string \<times> string option) list \<Rightarrow> 's env \<Rightarrow> err list \<times> 's env" where
  "cleanup w n [] en = ([], en)"
| "cleanup w n ((sql, lock) # rest) en =
     (case control w n KUtility [] sql (case lock of None \<Rightarrow> [] | Some key \<Rightarrow> [VStr key]) en of
        (r, en1) \<Rightarrow>
          (case cleanup w n rest en1 of
             (es, en2) \<Rightarrow>
               ((case r of
                   Inl e \<Rightarrow> [e]
                 | Inr rows \<Rightarrow> if lock \<noteq> None \<and> \<not> released1 rows then [orm CONFIG] else []) @ es, en2)))"

definition commitStep :: "'s world \<Rightarrow> nat \<Rightarrow> nat \<Rightarrow> 's env \<Rightarrow> (err + unit) \<times> bool \<times> 's env" where
  "commitStep w n sess en =
     (case control w n KCommit [] ''COMMIT'' [] en of
        (Inr _, en1) \<Rightarrow> (Inr (), False, en1)
      | (Inl e, en1) \<Rightarrow>
          if subscriberError e then (Inl e, False, en1)
          else
            (case w_inTransaction w sess (en_world en1) of
               Some True \<Rightarrow>
                 (case control w n KRollback [] ''ROLLBACK'' [] en1 of
                    (Inl rb, en2) \<Rightarrow> (Inl (RollbackFailed e rb), False, en2)
                  | (Inr _, en2) \<Rightarrow> (Inl e, False, en2))
             | open \<Rightarrow> (Inl e, open = None \<or> w_name w \<noteq> ''sqlite'', en1)))"

definition rollbackStep :: "'s world \<Rightarrow> nat \<Rightarrow> nat \<Rightarrow> bool \<Rightarrow> err option \<Rightarrow> bool \<Rightarrow> 's env \<Rightarrow> (err + unit) \<times> bool \<times> 's env" where
  "rollbackStep w n sess commit failure discard en =
     (if w_name w \<noteq> ''sqlite'' \<or> w_inTransaction w sess (en_world en) \<noteq> Some False then
        (case control w n KRollback [] ''ROLLBACK'' [] en of
           (Inl rb, en1) \<Rightarrow>
             (Inl (if commit then RollbackFailed (the failure) rb
                else case failure of None \<Rightarrow> rb | Some f \<Rightarrow> Joined [f, rb]),
              discard \<or> \<not> subscriberError rb, en1)
         | (Inr _, en1) \<Rightarrow> (case failure of None \<Rightarrow> (Inr (), discard, en1) | Some f \<Rightarrow> (Inl f, discard, en1)))
      else (case failure of None \<Rightarrow> (Inr (), discard, en) | Some f \<Rightarrow> (Inl f, discard, en)))"

definition finishSession :: "'s world \<Rightarrow> nat \<Rightarrow> nat \<Rightarrow> bool \<Rightarrow> ('s, unit) io" where
  "finishSession w n sess commit = (\<lambda>en0.
     case cleanup w n (cleanupSteps w (en_frames en0 n)) (setFrame n (\<lambda>f. f\<lparr>fr_locks := []\<rparr>) en0) of
       (errors, en) \<Rightarrow>
         (let failure = joinedErrors errors; discard = list_ex (\<lambda>e. \<not> subscriberError e) errors in
          case (if commit \<and> failure = None then commitStep w n sess en
                else rollbackStep w n sess commit failure discard en) of
            (r, discard', en') \<Rightarrow> (case release w sess discard' en' of (_, en'') \<Rightarrow> (r, en''))))"

definition finish :: "'s world \<Rightarrow> nat \<Rightarrow> bool \<Rightarrow> ('s, unit) io" where
  "finish w n commit = (\<lambda>en.
     let fr = en_frames en n; sess = fr_session fr; en1 = setFrame n (\<lambda>f. f\<lparr>fr_finished := True\<rparr>) en in
     if fr_finished fr then (Inr (), en)
     else if \<not> commit \<and> w_name w \<noteq> ''sqlite'' \<and> w_aborted w (en_world en) then release w sess True en1
     else finishSession w n sess commit en1)"

subsection \<open>The start of a transaction\<close>

definition rowLockDdl :: string where
  \<open>rowLockDdl = ''CREATE TABLE IF NOT EXISTS "orm__row_lock" ("id" INTEGER PRIMARY KEY CHECK ("id" = 1))''\<close>

definition rowLockTable :: "'s world \<Rightarrow> ('s, unit) io" where
  "rowLockTable w = (\<lambda>en.
     if en_rowLockTable en then (Inr (), en)
     else case w_execute w rowLockDdl (en_world en) of
       (r, s) \<Rightarrow>
         (case ended w (eventOf KUtility [''orm__row_lock''] None rowLockDdl) r (en\<lparr>en_world := s\<rparr>) of
            (Inl e, en1) \<Rightarrow> (Inl e, en1)
          | (Inr _, en1) \<Rightarrow> (Inr (), en1\<lparr>en_rowLockTable := True\<rparr>)))"

definition beginSteps :: "string \<Rightarrow> string \<Rightarrow> beginoptions \<Rightarrow> (statementkind \<times> string) list" where
  "beginSteps driver level opts =
     (let readOnly = (op_readOnly opts = Some True) in
      if driver = ''mysql'' then
        (if level \<noteq> [] then [(KUtility, ''SET TRANSACTION ISOLATION LEVEL '' @ level)] else [])
        @ [(KBegin, if readOnly then ''START TRANSACTION READ ONLY'' else ''START TRANSACTION'')]
      else if driver = ''postgres'' then
        [(KBegin, ''BEGIN'' @ (if level \<noteq> [] then '' ISOLATION LEVEL '' @ level else []) @ (if readOnly then '' READ ONLY'' else []))]
        @ (if op_timeoutMs opts > 0 then [(KUtility, ''SET LOCAL statement_timeout = '' @ show_int (op_timeoutMs opts))] else [])
      else
        [(KBegin, if readOnly then ''BEGIN'' else ''BEGIN IMMEDIATE'')]
        @ (if op_isolation opts = Some ''read_uncommitted'' then [(KUtility, ''PRAGMA read_uncommitted = 1'')] else [])
        @ (if readOnly then [(KUtility, ''PRAGMA query_only = 1'')] else []))"

text \<open>A failure before BEGIN closes the session; one after it rolls the transaction back.\<close>

fun beginLoop :: "'s world \<Rightarrow> nat \<Rightarrow> bool \<Rightarrow> (statementkind \<times> string) list \<Rightarrow> ('s, unit) io" where
  "beginLoop w n began [] en = (Inr (), en)"
| "beginLoop w n began ((kind, sql) # rest) en =
     (case frameRun w n kind [] sql en of
        (Inr _, en1) \<Rightarrow> beginLoop w n (began \<or> kind = KBegin) rest en1
      | (Inl e, en1) \<Rightarrow>
          if \<not> (began \<or> (kind = KBegin \<and> subscriberError e)) then
            (case release w (fr_session (en_frames en1 n)) True (setFrame n (\<lambda>f. f\<lparr>fr_finished := True\<rparr>) en1) of
               (_, en2) \<Rightarrow> (Inl e, en2))
          else
            (case finish w n False en1 of
               (Inl rb, en2) \<Rightarrow> (Inl (RollbackFailed e rb), en2)
             | (Inr _, en2) \<Rightarrow> (Inl e, en2)))"

definition newFrame :: "nat \<Rightarrow> beginoptions \<Rightarrow> txframe" where
  "newFrame sess opts =
     \<lparr>fr_session = sess, fr_options = opts, fr_busy = False, fr_finished = False, fr_savepoints = 0, fr_locals = [],
      fr_locks = [], fr_audit = None, fr_pendingAudit = None, fr_inserted = []\<rparr>"

text \<open>\<open>pool.reserve()\<close> and the frame with the next transaction number\<close>

definition openFrame :: "'s world \<Rightarrow> beginoptions \<Rightarrow> ('s, nat) io" where
  "openFrame w opts = (\<lambda>en.
     case w_reserve w (en_world en) of
       (Inl e, s) \<Rightarrow> (Inl e, en\<lparr>en_world := s\<rparr>)
     | (Inr sess, s) \<Rightarrow>
         (case nextTransaction (en_subscribers en) of
            (n, su) \<Rightarrow> (Inr n, logCall (Reserved sess)
              (setFrame n (\<lambda>_. newFrame sess opts) (en\<lparr>en_world := s, en_subscribers := su\<rparr>)))))"

definition beginTx :: "'s world \<Rightarrow> beginoptions \<Rightarrow> ('s, nat) io" where
  "beginTx w opts =
     (if op_timeoutMs opts > 0 \<and> w_name w \<noteq> ''postgres'' then ioThrow (orm CAPABILITY_UNSUPPORTED)
      else case (case op_isolation opts of None \<Rightarrow> Inr [] | Some isolation \<Rightarrow> isolationSql isolation) of
        Inl e \<Rightarrow> ioThrow (Thrown e None)
      | Inr level \<Rightarrow>
          ioBind (if w_name w = ''sqlite'' then rowLockTable w else ioRet ()) (\<lambda>_.
          ioBind (openFrame w opts) (\<lambda>n.
          ioBind (beginLoop w n False (beginSteps (w_name w) level opts)) (\<lambda>_. ioRet n))))"

subsection \<open>A transaction and its retries\<close>

definition run :: "'s world \<Rightarrow> ('s, 'a) io \<Rightarrow> beginoptions \<Rightarrow> auditinsert option \<Rightarrow> ('s, 'a) io" where
  "run w callback opts record =
     ioBind (ioGet en_closed) (\<lambda>closed.
       if closed then ioThrow (orm CONFIG)
       else
         ioBind (beginTx w opts) (\<lambda>n.
         ioBind (ioGet en_flow) (\<lambda>stack.
         ioBind (ioTry (flowRun (stack @ [n])
            (ioBind (ioModify (setFrame n (\<lambda>f. f\<lparr>fr_pendingAudit := record\<rparr>))) (\<lambda>_. callback)))) (\<lambda>r.
           case r of
             Inr a \<Rightarrow> ioBind (finish w n True) (\<lambda>_. ioRet a)
           | Inl e \<Rightarrow>
               ioBind (ioTry (finish w n False)) (\<lambda>cleaned.
                 case cleaned of
                   Inl c \<Rightarrow> ioThrow (RollbackFailed e c)
                 | Inr _ \<Rightarrow>
                     ioBind (ioGet en_rollbackFault) (\<lambda>fault.
                       if fault then
                         ioBind (ioModify (\<lambda>en. en\<lparr>en_rollbackFault := False\<rparr>)) (\<lambda>_. ioThrow (RollbackFailed e (orm FAULT)))
                       else ioThrow e))))))"

text \<open>
  \<open>for (let attempt = 0; ; attempt++)\<close>: \<open>left\<close> is \<open>retry - attempt\<close>. The random part of the delay,
  below 20 milliseconds, is left out.
\<close>

definition delay :: "nat \<Rightarrow> int" where
  "delay attempt = int32 (50 * 2 ^ (attempt mod 32))"

fun attempts :: "('s, 'a) io \<Rightarrow> nat \<Rightarrow> nat \<Rightarrow> ('s, 'a) io" where
  "attempts body left attempt en =
     (case body en of
        (Inr a, en') \<Rightarrow> (Inr a, en')
      | (Inl e, en') \<Rightarrow>
          (case left of
             0 \<Rightarrow> (Inl e, en')
           | Suc left' \<Rightarrow>
               if errCode e = Some DEADLOCK then attempts body left' (Suc attempt) (logCall (Slept (delay attempt)) en')
               else (Inl e, en')))"

declare attempts.simps [simp del]

subsection \<open>Savepoints\<close>

definition savepointText :: "statementkind \<Rightarrow> string \<Rightarrow> string" where
  "savepointText kind name =
     (if kind = KSavepoint then ''SAVEPOINT '' @ name
      else if kind = KRelease then ''RELEASE SAVEPOINT '' @ name
      else ''ROLLBACK TO SAVEPOINT '' @ name)"

definition savepointStep :: "'s world \<Rightarrow> nat \<Rightarrow> statementkind \<Rightarrow> string \<Rightarrow> ('s, unit) io" where
  "savepointStep w n kind name = (\<lambda>en.
     if kind \<noteq> KSavepoint \<and> w_name w = ''sqlite'' \<and> w_inTransaction w (fr_session (en_frames en n)) (en_world en) = Some False
     then (Inr (), en)
     else case frameRun w n kind [] (savepointText kind name) en of
       (Inl e, en') \<Rightarrow> (Inl e, en')
     | (Inr _, en') \<Rightarrow> (Inr (), en'))"

text \<open>Both steps are tried: undo the work after the savepoint, and release it.\<close>

definition undoSavepoint :: "'s world \<Rightarrow> nat \<Rightarrow> string \<Rightarrow> 's env \<Rightarrow> err list \<times> 's env" where
  "undoSavepoint w n name en =
     (case savepointStep w n KRollbackTo name en of
        (r1, en1) \<Rightarrow>
          (case savepointStep w n KRelease name en1 of
             (r2, en2) \<Rightarrow> ((case r1 of Inl e \<Rightarrow> [e] | Inr _ \<Rightarrow> []) @ (case r2 of Inl e \<Rightarrow> [e] | Inr _ \<Rightarrow> []), en2)))"

definition savepointName :: "nat \<Rightarrow> string" where
  "savepointName k = ''orm_sp_'' @ show_nat k"

definition savepointBody :: "'s world \<Rightarrow> nat \<Rightarrow> string \<Rightarrow> ('s, 'a) io \<Rightarrow> ('s, 'a) io" where
  "savepointBody w n name callback =
     ioBind (savepointStep w n KSavepoint name) (\<lambda>_.
     ioBind (ioGet en_flow) (\<lambda>stack.
     ioBind (ioTry (flowRun (stack @ [n]) callback)) (\<lambda>r.
       case r of
         Inl e \<Rightarrow> (\<lambda>en. case undoSavepoint w n name en of
             (es, en') \<Rightarrow> (Inl (case joinedErrors es of None \<Rightarrow> e | Some rb \<Rightarrow> RollbackFailed e rb), en'))
       | Inr a \<Rightarrow> ioBind (savepointStep w n KRelease name) (\<lambda>_. ioRet a))))"

definition savepoint :: "'s world \<Rightarrow> nat \<Rightarrow> ('s, 'a) io \<Rightarrow> ('s, 'a) io" where
  "savepoint w n callback = (\<lambda>en.
     let k = Suc (fr_savepoints (en_frames en n)); before = en_frames en n in
     case savepointBody w n (savepointName k) callback (setFrame n (\<lambda>f. f\<lparr>fr_savepoints := k\<rparr>) en) of
       (r, en') \<Rightarrow>
         (r, setFrame n (\<lambda>f.
            (if isl r then f\<lparr>fr_audit := fr_audit before, fr_inserted := fr_inserted before\<rparr> else f)
              \<lparr>fr_savepoints := fr_savepoints f - 1\<rparr>) en'))"

subsection \<open>The entry point\<close>

text \<open>\<open>activeFor\<close>: the innermost frame of the flow that is not finished; the model has one connection.\<close>

definition activeFor :: "'s env \<Rightarrow> nat option" where
  "activeFor en = find (\<lambda>n. \<not> fr_finished (en_frames en n)) (rev (en_flow en))"

record txoptions =
  tx_isolation :: "string option"
  tx_readOnly :: "bool option"
  tx_timeoutMs :: "int option"
  tx_retry :: "int option"
  tx_audit :: "(string \<times> jsvalue) list option"

definition transaction ::
    "'s world \<Rightarrow> ((string \<times> jsvalue) list \<Rightarrow> err + auditinsert) \<Rightarrow> ('s, 'a) io \<Rightarrow> txoptions \<Rightarrow> ('s, 'a) io" where
  "transaction w auditRecordOf callback opts = (\<lambda>en.
     let retry = (case tx_retry opts of None \<Rightarrow> 3 | Some r \<Rightarrow> r);
         timeoutMs = (case tx_timeoutMs opts of None \<Rightarrow> 0 | Some t \<Rightarrow> t) in
     if \<not> isSafeInteger retry \<or> retry < 0 then (Inl (orm CONFIG), en)
     else if \<not> isSafeInteger timeoutMs \<or> timeoutMs < 0 then (Inl (orm CONFIG), en)
     else case activeFor en of
       Some outer \<Rightarrow>
         if tx_isolation opts \<noteq> None \<or> tx_readOnly opts \<noteq> None \<or> tx_timeoutMs opts \<noteq> None \<or> tx_audit opts \<noteq> None
         then (Inl (orm CONFIG), en)
         else savepoint w outer callback en
     | None \<Rightarrow>
         (case (case tx_audit opts of None \<Rightarrow> Inr None | Some vs \<Rightarrow> map_sum id Some (auditRecordOf vs)) of
            Inl e \<Rightarrow> (Inl e, en)
          | Inr record \<Rightarrow>
              attempts (run w callback
                \<lparr>op_isolation = tx_isolation opts, op_readOnly = tx_readOnly opts, op_timeoutMs = timeoutMs\<rparr> record)
                (nat retry) 0 en))"

end
