(* ===== verification/Sessions.thy ===== *)
theory Sessions
  imports Transaction
begin

section \<open>Sessions and outcomes of transactions\<close>

text \<open>
  What a transaction leaves behind. The log of the calls shows that the session of a transaction is
  given back exactly once and last, that a value is returned only after a COMMIT that the database
  ran, and that a session with an unknown state is closed.
\<close>

subsection \<open>One statement\<close>

text \<open>The parts of the state that a statement leaves alone.\<close>

definition sameFrames :: "'s env \<Rightarrow> 's env \<Rightarrow> bool" where
  "sameFrames en en' \<longleftrightarrow> en_frames en' = en_frames en \<and> en_flow en' = en_flow en \<and>
     su_list (en_subscribers en') = su_list (en_subscribers en)"

lemma sameFrames_refl [simp]: "sameFrames en en"
  by (simp add: sameFrames_def)

lemma sameFrames_trans: "sameFrames en en1 \<Longrightarrow> sameFrames en1 en2 \<Longrightarrow> sameFrames en en2"
  by (simp add: sameFrames_def)

text \<open>The subscribers of the connection throw on no event of a failed statement, and no library call throws their error.\<close>

definition quietFailures :: "'s world \<Rightarrow> 's env \<Rightarrow> bool" where
  "quietFailures w en \<longleftrightarrow>
     (\<forall>ev s. ev_error ev \<noteq> None \<longrightarrow> \<not> fst (publish (su_list (en_subscribers en)) ev s)) \<and>
     (\<forall>sess sql ps s e. fst (w_send w sess sql ps s) = Inl (Client e) \<longrightarrow> \<not> subscriberError e)"

lemma quietFailures_same: "sameFrames en en' \<Longrightarrow> quietFailures w en' \<longleftrightarrow> quietFailures w en"
  by (simp add: sameFrames_def quietFailures_def)

lemma native_not_subscriber: "\<not> subscriberError (driverError name (Native ne))"
  by (simp add: subscriberError_def statementCode_def Let_def)

text \<open>A statement is logged once; a result means the database ran it, an error of a statement that ran is a subscriber's.\<close>

lemma control_log:
  assumes "control w n kind tbls sql params en = (r, en')"
  shows "\<exists>ok. en_log en' = en_log en @ [Sent (fr_session (en_frames en n)) kind sql ok] \<and> sameFrames en en' \<and>
    (case r of Inr _ \<Rightarrow> ok | Inl e \<Rightarrow> (ok \<longrightarrow> subscriberError e) \<and> (quietFailures w en \<and> subscriberError e \<longrightarrow> ok))"
proof -
  obtain res s where send: "w_send w (fr_session (en_frames en n)) sql params (en_world en) = (res, s)" by fastforce
  let ?sub = "su_list (en_subscribers en)"
  let ?out = "map_sum (driverError (w_name w)) id res"
  let ?ev = "eventOf kind tbls (Some n) sql (case ?out of Inl e \<Rightarrow> Some e | Inr _ \<Rightarrow> None)"
  obtain threw s' where p: "publish ?sub ?ev s = (threw, s')" by fastforce
  have eq: "r = (if threw then Inl (orm SUBSCRIBER) else ?out)"
    "en' = (logCall (Sent (fr_session (en_frames en n)) kind sql (\<not> isl res)) (en\<lparr>en_world := s\<rparr>))\<lparr>en_world := s'\<rparr>"
    using assms send p by (auto simp: control_def ended_def observed_def logCall_def Let_def split: bool.splits)
  have quiet: "threw \<Longrightarrow> isl res \<Longrightarrow> \<not> quietFailures w en"
  proof (cases res)
    case (Inl x)
    assume "threw"
    then have "fst (publish ?sub ?ev s)" using p by simp
    moreover have "ev_error ?ev \<noteq> None" using Inl by (simp add: eventOf_def)
    ultimately show ?thesis unfolding quietFailures_def by blast
  qed simp
  have client: "isl res \<Longrightarrow> quietFailures w en \<Longrightarrow> ?out = Inl e \<Longrightarrow> \<not> subscriberError e" for e
  proof (cases res)
    case (Inl x)
    assume q: "quietFailures w en" and out: "?out = Inl e"
    show ?thesis
    proof (cases x)
      case (Native ne)
      with Inl out show ?thesis using native_not_subscriber by auto
    next
      case (Client e')
      with Inl send have "fst (w_send w (fr_session (en_frames en n)) sql params (en_world en)) = Inl (Client e')" by simp
      with q have "\<not> subscriberError e'" unfolding quietFailures_def by blast
      with Inl Client out show ?thesis by simp
    qed
  qed simp
  show ?thesis
    using quiet client unfolding eq
    by (intro exI[of _ "\<not> isl res"]) (cases res; auto simp: logCall_def sameFrames_def subscriberError_def)
qed

subsection \<open>The end of a transaction\<close>

definition sentBy :: "nat \<Rightarrow> call \<Rightarrow> bool" where
  "sentBy sess c \<longleftrightarrow> (\<exists>k sql ok. c = Sent sess k sql ok)"

definition ranBy :: "nat \<Rightarrow> call \<Rightarrow> bool" where
  "ranBy sess c \<longleftrightarrow> (\<exists>k sql. c = Sent sess k sql True)"

definition committed :: "nat \<Rightarrow> call \<Rightarrow> bool" where
  "committed sess c \<longleftrightarrow> (\<exists>sql. c = Sent sess KCommit sql True)"

definition releases :: "nat \<Rightarrow> call \<Rightarrow> bool" where
  "releases sess c \<longleftrightarrow> (\<exists>d. c = Released sess d)"

lemma call_simps [simp]:
  "sentBy s (Sent s' k sql ok) \<longleftrightarrow> s' = s" "ranBy s (Sent s' k sql ok) \<longleftrightarrow> s' = s \<and> ok"
  "committed s (Sent s' k sql ok) \<longleftrightarrow> s' = s \<and> k = KCommit \<and> ok" "releases s (Sent s' k sql ok) \<longleftrightarrow> False"
  "sentBy s (Released s' d) \<longleftrightarrow> False" "releases s (Released s' d) \<longleftrightarrow> s' = s" "committed s (Released s' d) \<longleftrightarrow> False"
  "releases s (Reserved s') \<longleftrightarrow> False" "committed s (Reserved s') \<longleftrightarrow> False"
  by (auto simp: sentBy_def ranBy_def committed_def releases_def)

lemma sentBy_releases: "list_all (sentBy s) L \<Longrightarrow> \<not> list_ex (releases s) L"
  by (auto simp: list_all_iff list_ex_iff sentBy_def)

lemma utility_sent:
  "list_all (\<lambda>c. \<exists>sql ok. c = Sent s KUtility sql ok) L \<Longrightarrow> list_all (sentBy s) L \<and> \<not> list_ex (committed s) L"
  by (auto simp: list_all_iff list_ex_iff sentBy_def)

lemma cleanup_log:
  assumes "cleanup w n steps en = (es, en')"
  shows "\<exists>L. en_log en' = en_log en @ L \<and> sameFrames en en' \<and>
    list_all (\<lambda>c. \<exists>sql ok. c = Sent (fr_session (en_frames en n)) KUtility sql ok) L \<and>
    (quietFailures w en \<and> list_all subscriberError es \<longrightarrow> list_all (ranBy (fr_session (en_frames en n))) L)"
  using assms
proof (induction w n steps en arbitrary: es rule: cleanup.induct)
  case (1 w n en)
  then show ?case by simp
next
  case (2 w n sql lock rest en)
  obtain r en1 where c: "control w n KUtility [] sql (case lock of None \<Rightarrow> [] | Some key \<Rightarrow> [VStr key]) en = (r, en1)"
    by fastforce
  obtain fs en2 where rest: "cleanup w n rest en1 = (fs, en2)" by fastforce
  from 2(2) c rest have eqs: "en' = en2"
    "es = (case r of Inl e \<Rightarrow> [e] | Inr rows \<Rightarrow> if lock \<noteq> None \<and> \<not> released1 rows then [orm CONFIG] else []) @ fs"
    by auto
  from control_log[OF c] obtain ok where ok: "en_log en1 = en_log en @ [Sent (fr_session (en_frames en n)) KUtility sql ok]"
    "sameFrames en en1" "case r of Inr _ \<Rightarrow> ok | Inl e \<Rightarrow> (ok \<longrightarrow> subscriberError e) \<and> (quietFailures w en \<and> subscriberError e \<longrightarrow> ok)"
    by blast
  from 2(1)[OF c[symmetric], of fs] rest eqs(1) obtain L where L: "en_log en' = en_log en1 @ L" "sameFrames en1 en'"
    "list_all (\<lambda>c. \<exists>sql ok. c = Sent (fr_session (en_frames en1 n)) KUtility sql ok) L"
    "quietFailures w en1 \<and> list_all subscriberError fs \<longrightarrow> list_all (ranBy (fr_session (en_frames en1 n))) L" by auto
  have fr: "en_frames en1 = en_frames en" using ok(2) by (simp add: sameFrames_def)
  have "quietFailures w en \<and> list_all subscriberError es \<longrightarrow> ok"
    using ok(3) eqs(2) by (cases r) auto
  then show ?case
    using ok(1,2) L eqs(2) quietFailures_same[OF ok(2)] sameFrames_trans[OF ok(2) L(2)]
    by (intro exI[of _ "Sent (fr_session (en_frames en n)) KUtility sql ok # L"]) (auto simp: fr)
qed

text \<open>The statements that end a transaction; \<open>unreported\<close>: the driver does not tell whether one is open.\<close>

definition ends :: "nat \<Rightarrow> call list \<Rightarrow> bool" where
  "ends sess L \<longleftrightarrow> (\<exists>K k sql. L = K @ [Sent sess k sql True] \<and> k \<in> {KCommit, KRollback}) \<and> list_all (ranBy sess) L"

definition unreported :: "'s world \<Rightarrow> bool" where
  "unreported w \<longleftrightarrow> (\<forall>sess s. w_inTransaction w sess s = None)"

definition settled :: "nat \<Rightarrow> call list \<Rightarrow> bool" where
  "settled sess L \<longleftrightarrow> (\<exists>K E. L = K @ E \<and> ends sess E)"

lemma settled_append: "settled sess L \<Longrightarrow> settled sess (K @ L)"
  unfolding settled_def by (metis append.assoc)

lemma settled_Cons: "settled sess L \<Longrightarrow> settled sess (c # L)"
  using settled_append[of sess L "[c]"] by simp

lemma ends_settled: "ends sess L \<Longrightarrow> settled sess L"
  unfolding settled_def by (metis append_Nil)

lemma commitStep_log:
  assumes "commitStep w n sess en = (r, d, en')" and "sess = fr_session (en_frames en n)"
  shows "\<exists>L. en_log en' = en_log en @ L \<and> sameFrames en en' \<and> list_all (sentBy sess) L \<and>
    (case r of Inr _ \<Rightarrow> L = [Sent sess KCommit ''COMMIT'' True] \<and> \<not> d
     | Inl e \<Rightarrow> subscriberError e \<or> \<not> list_ex (committed sess) L) \<and>
    (quietFailures w en \<and> unreported w \<and> \<not> d \<longrightarrow> ends sess L)"
proof -
  obtain c en1 where c: "control w n KCommit [] ''COMMIT'' [] en = (c, en1)" by fastforce
  from control_log[OF this] assms(2) obtain ok where ok: "en_log en1 = en_log en @ [Sent sess KCommit ''COMMIT'' ok]"
    "sameFrames en en1" "case c of Inr _ \<Rightarrow> ok | Inl e \<Rightarrow> (ok \<longrightarrow> subscriberError e) \<and> (quietFailures w en \<and> subscriberError e \<longrightarrow> ok)"
    by auto
  show ?thesis
  proof (cases "isl c \<and> \<not> subscriberError (projl c) \<and> w_inTransaction w sess (en_world en1) = Some True")
    case True
    then obtain e where e: "c = Inl e" "\<not> subscriberError e" by (cases c) auto
    obtain rb en2 where rb: "control w n KRollback [] ''ROLLBACK'' [] en1 = (rb, en2)" by fastforce
    from control_log[OF this] assms(2) ok(2) obtain ok2 where
      ok2: "en_log en2 = en_log en1 @ [Sent sess KRollback ''ROLLBACK'' ok2]" "sameFrames en1 en2"
      by (auto simp: sameFrames_def)
    have "en' = en2" "r = Inl (case rb of Inl x \<Rightarrow> RollbackFailed e x | Inr _ \<Rightarrow> e)" "\<not> unreported w"
      using assms(1) c e True rb by (auto simp: commitStep_def unreported_def split: sum.splits)
    then show ?thesis using ok ok2 e sameFrames_trans[OF ok(2) ok2(2)] by auto
  next
    case False
    then have "en' = en1" using assms(1) c
      by (auto simp: commitStep_def split: sum.splits if_splits option.splits bool.splits)
    moreover have "case c of Inr _ \<Rightarrow> r = Inr () \<and> \<not> d | Inl e \<Rightarrow> r = Inl e \<and> (unreported w \<and> \<not> d \<longrightarrow> subscriberError e)"
      using assms(1) c False
      by (auto simp: commitStep_def unreported_def split: sum.splits if_splits option.splits bool.splits)
    ultimately show ?thesis using ok
      by (intro exI[of _ "[Sent sess KCommit ''COMMIT'' ok]"]) (auto simp: ends_def split: sum.splits)
  qed
qed

lemma rollbackStep_log:
  assumes "rollbackStep w n sess commit failure discard en = (r, d, en')" and "sess = fr_session (en_frames en n)"
  shows "\<exists>L. en_log en' = en_log en @ L \<and> sameFrames en en' \<and> list_all (sentBy sess) L \<and> \<not> list_ex (committed sess) L \<and>
    (\<not> isl r \<longrightarrow> failure = None) \<and> (quietFailures w en \<and> unreported w \<and> \<not> d \<longrightarrow> ends sess L \<and> \<not> discard)"
proof (cases "w_name w \<noteq> ''sqlite'' \<or> w_inTransaction w sess (en_world en) \<noteq> Some False")
  case True
  obtain c en1 where c: "control w n KRollback [] ''ROLLBACK'' [] en = (c, en1)" by fastforce
  from control_log[OF this] assms(2) obtain ok where ok: "en_log en1 = en_log en @ [Sent sess KRollback ''ROLLBACK'' ok]"
    "sameFrames en en1" "case c of Inr _ \<Rightarrow> ok | Inl e \<Rightarrow> (ok \<longrightarrow> subscriberError e) \<and> (quietFailures w en \<and> subscriberError e \<longrightarrow> ok)"
    by auto
  have "en' = en1" "\<not> isl r \<longrightarrow> failure = None" "d \<longleftrightarrow> discard \<or> (case c of Inl e \<Rightarrow> \<not> subscriberError e | Inr _ \<Rightarrow> False)"
    using assms(1) c True by (auto simp: rollbackStep_def split: sum.splits option.splits)
  then show ?thesis using ok
    by (intro exI[of _ "[Sent sess KRollback ''ROLLBACK'' ok]"]) (auto simp: ends_def split: sum.splits)
next
  case False
  then show ?thesis using assms(1)
    by (intro exI[of _ "[]"]) (auto simp: rollbackStep_def unreported_def split: option.splits)
qed

text \<open>What the end of frame \<open>n\<close> may change: its own frame, which is then finished.\<close>

definition onlyFrame :: "nat \<Rightarrow> 's env \<Rightarrow> 's env \<Rightarrow> bool" where
  "onlyFrame n en en' \<longleftrightarrow> (\<forall>m. m \<noteq> n \<longrightarrow> en_frames en' m = en_frames en m) \<and> en_flow en' = en_flow en \<and>
     fr_finished (en_frames en' n) \<and> su_list (en_subscribers en') = su_list (en_subscribers en)"

lemma list_ex_not_subscriber: "\<not> list_ex (\<lambda>e. \<not> subscriberError e) es \<longleftrightarrow> list_all subscriberError es"
  by (simp add: list_ex_iff list_all_iff)

lemma finishSession_log:
  assumes fin: "finishSession w n sess commit en = (r, en')" and sess: "sess = fr_session (en_frames en n)"
    and over: "fr_finished (en_frames en n)"
  shows "\<exists>L d. en_log en' = en_log en @ L @ [Released sess d] \<and> onlyFrame n en en' \<and> list_all (sentBy sess) L \<and>
    (commit \<longrightarrow> (case r of Inr _ \<Rightarrow> (\<exists>K. L = K @ [Sent sess KCommit ''COMMIT'' True] \<and> \<not> list_ex (committed sess) K) \<and> \<not> d
       | Inl e \<Rightarrow> subscriberError e \<or> \<not> list_ex (committed sess) L)) \<and>
    (\<not> commit \<longrightarrow> \<not> list_ex (committed sess) L) \<and>
    (quietFailures w en \<and> unreported w \<and> \<not> d \<longrightarrow> ends sess L)"
proof -
  let ?en0 = "setFrame n (\<lambda>f. f\<lparr>fr_locks := []\<rparr>) en"
  have en0: "fr_session (en_frames ?en0 n) = sess" "fr_finished (en_frames ?en0 n)" "en_log ?en0 = en_log en"
    "en_flow ?en0 = en_flow en" "en_subscribers ?en0 = en_subscribers en" "\<And>m. m \<noteq> n \<Longrightarrow> en_frames ?en0 m = en_frames en m"
    using sess over by (simp_all add: setFrame_def)
  obtain es en1 where cl: "cleanup w n (cleanupSteps w (en_frames en n)) ?en0 = (es, en1)" by fastforce
  have q0: "quietFailures w ?en0 = quietFailures w en" by (simp add: quietFailures_def setFrame_def)
  from cleanup_log[OF cl, unfolded en0(1,3) q0] obtain C where C: "en_log en1 = en_log en @ C" "sameFrames ?en0 en1"
    "list_all (\<lambda>c. \<exists>sql ok. c = Sent sess KUtility sql ok) C"
    "quietFailures w en \<and> list_all subscriberError es \<longrightarrow> list_all (ranBy sess) C" by blast
  note C' = utility_sent[OF C(3)]
  let ?failure = "joinedErrors es" and ?discard = "list_ex (\<lambda>e. \<not> subscriberError e) es"
  obtain q d en2 where step: "(if commit \<and> ?failure = None then commitStep w n sess en1
      else rollbackStep w n sess commit ?failure ?discard en1) = (q, d, en2)" by (metis prod_cases3)
  have sess1: "sess = fr_session (en_frames en1 n)" using C(2) en0(1) by (simp add: sameFrames_def)
  have q1: "quietFailures w en1 = quietFailures w en" using C(2) en0(5) by (simp add: quietFailures_def sameFrames_def)
  have res: "r = q" "en' = logCall (Released sess d) (en2\<lparr>en_world := w_release w sess d (en_world en2)\<rparr>)"
    using fin cl step by (auto simp: finishSession_def release_def ioModify_def Let_def)
  have "\<exists>L. en_log en2 = en_log en1 @ L \<and> sameFrames en1 en2 \<and> list_all (sentBy sess) L \<and>
    (commit \<longrightarrow> (case q of Inr _ \<Rightarrow> L = [Sent sess KCommit ''COMMIT'' True] \<and> \<not> d
       | Inl e \<Rightarrow> subscriberError e \<or> \<not> list_ex (committed sess) L)) \<and>
    (\<not> commit \<longrightarrow> \<not> list_ex (committed sess) L) \<and>
    (quietFailures w en \<and> unreported w \<and> \<not> d \<longrightarrow> ends sess L \<and> list_all subscriberError es)"
  proof (cases "commit \<and> ?failure = None")
    case True
    with step have "commitStep w n sess en1 = (q, d, en2)" by simp
    from commitStep_log[OF this sess1] True q1 show ?thesis by (auto simp: joinedErrors_None_iff)
  next
    case False
    with step have "rollbackStep w n sess commit ?failure ?discard en1 = (q, d, en2)" by auto
    from rollbackStep_log[OF this sess1] False q1 show ?thesis
      by (auto simp: list_ex_not_subscriber split: sum.splits)
  qed
  then obtain L where L: "en_log en2 = en_log en1 @ L" "sameFrames en1 en2" "list_all (sentBy sess) L"
    "commit \<longrightarrow> (case q of Inr _ \<Rightarrow> L = [Sent sess KCommit ''COMMIT'' True] \<and> \<not> d
       | Inl e \<Rightarrow> subscriberError e \<or> \<not> list_ex (committed sess) L)"
    "\<not> commit \<longrightarrow> \<not> list_ex (committed sess) L"
    "quietFailures w en \<and> unreported w \<and> \<not> d \<longrightarrow> ends sess L \<and> list_all subscriberError es" by blast
  have "onlyFrame n en en'" using en0 C(2) L(2) res(2) by (simp add: onlyFrame_def sameFrames_def logCall_def)
  moreover have "ends sess L \<and> list_all (ranBy sess) C \<Longrightarrow> ends sess (C @ L)" by (auto simp: ends_def)
  ultimately show ?thesis
    using res C C' L by (intro exI[of _ "C @ L"] exI[of _ d]) (auto simp: logCall_def split: sum.splits)
qed

lemma finish_log:
  assumes fin: "finish w n commit en = (r, en')" and sess: "sess = fr_session (en_frames en n)"
    and active: "\<not> fr_finished (en_frames en n)"
  shows "\<exists>L d. en_log en' = en_log en @ L @ [Released sess d] \<and> onlyFrame n en en' \<and> list_all (sentBy sess) L \<and>
    (commit \<longrightarrow> (case r of Inr _ \<Rightarrow> (\<exists>K. L = K @ [Sent sess KCommit ''COMMIT'' True] \<and> \<not> list_ex (committed sess) K) \<and> \<not> d
       | Inl e \<Rightarrow> subscriberError e \<or> \<not> list_ex (committed sess) L)) \<and>
    (\<not> commit \<longrightarrow> \<not> list_ex (committed sess) L) \<and>
    (quietFailures w en \<and> unreported w \<and> \<not> d \<longrightarrow> ends sess L)"
proof -
  let ?en1 = "setFrame n (\<lambda>f. f\<lparr>fr_finished := True\<rparr>) en"
  show ?thesis
  proof (cases "\<not> commit \<and> w_name w \<noteq> ''sqlite'' \<and> w_aborted w (en_world en)")
    case True
    with fin sess active have "(r, en') = release w sess True ?en1" by (simp add: finish_def Let_def)
    with True show ?thesis
      by (intro exI[of _ "[]"] exI[of _ True]) (auto simp: release_def ioModify_def logCall_def onlyFrame_def setFrame_def)
  next
    case False
    with fin sess active have f: "finishSession w n sess commit ?en1 = (r, en')" by (auto simp: finish_def Let_def)
    have en1: "en_log ?en1 = en_log en" "\<And>x. onlyFrame n ?en1 x = onlyFrame n en x" "quietFailures w ?en1 = quietFailures w en"
      by (simp_all add: setFrame_def onlyFrame_def quietFailures_def)
    from finishSession_log[OF f] sess show ?thesis unfolding en1 by (simp add: setFrame_def)
  qed
qed

subsection \<open>The start of a transaction\<close>

lemma frameRun_log:
  assumes "frameRun w n kind tbls sql en = (r, en')" and "\<not> fr_finished (en_frames en n)"
  shows "\<exists>ok. en_log en' = en_log en @ [Sent (fr_session (en_frames en n)) kind sql ok] \<and> sameFrames en en'"
proof -
  have "control w n kind tbls sql [] en = (r, en')" using assms by (simp add: frameRun_def io_simps)
  from control_log[OF this] show ?thesis by blast
qed

lemma beginLoop_log:
  assumes "beginLoop w n began steps en = (r, en')" and "\<not> fr_finished (en_frames en n)" and "sess = fr_session (en_frames en n)"
    and "\<forall>(k, sql) \<in> set steps. k \<noteq> KCommit"
  shows "\<exists>B. list_all (sentBy sess) B \<and> \<not> list_ex (committed sess) B \<and>
    (case r of Inr _ \<Rightarrow> en_log en' = en_log en @ B \<and> sameFrames en en'
     | Inl e \<Rightarrow> \<exists>d. en_log en' = en_log en @ B @ [Released sess d] \<and> (quietFailures w en \<and> unreported w \<and> \<not> d \<longrightarrow> settled sess B))"
  using assms
proof (induction w n began steps en arbitrary: r en' rule: beginLoop.induct)
  case (1 w n began en)
  then show ?case by (intro exI[of _ "[]"]) auto
next
  case (2 w n began kind sql rest en)
  obtain f en1 where f: "frameRun w n kind [] sql en = (f, en1)" by fastforce
  from frameRun_log[OF this "2.prems"(2)] "2.prems"(3) obtain ok where
    ok: "en_log en1 = en_log en @ [Sent sess kind sql ok]" "sameFrames en en1" by auto
  have en1: "\<not> fr_finished (en_frames en1 n)" "sess = fr_session (en_frames en1 n)" "kind \<noteq> KCommit"
    using ok(2) "2.prems"(2-4) by (auto simp: sameFrames_def)
  show ?case
  proof (cases f)
    case (Inr rows)
    with "2.prems"(1) f have "beginLoop w n (began \<or> kind = KBegin) rest en1 = (r, en')" by simp
    from "2.IH"(1)[OF f[unfolded Inr, symmetric] refl this en1(1,2)] "2.prems"(4) obtain B where
      B: "list_all (sentBy sess) B" "\<not> list_ex (committed sess) B"
      "case r of Inr _ \<Rightarrow> en_log en' = en_log en1 @ B \<and> sameFrames en1 en' | Inl e \<Rightarrow> \<exists>d. en_log en' = en_log en1 @ B @ [Released sess d] \<and> (quietFailures w en1 \<and> unreported w \<and> \<not> d \<longrightarrow> settled sess B)"
      by auto
    then show ?thesis using ok en1(3) sameFrames_trans[OF ok(2)] quietFailures_same[OF ok(2)]
      by (intro exI[of _ "Sent sess kind sql ok # B"]) (auto intro: settled_Cons split: sum.splits)
  next
    case (Inl e)
    show ?thesis
    proof (cases "began \<or> (kind = KBegin \<and> subscriberError e)")
      case False
      with "2.prems"(1) f Inl en1(2) ok show ?thesis
        by (intro exI[of _ "[Sent sess kind sql ok]"])
          (auto simp: release_def ioModify_def logCall_def setFrame_def en1(3))
    next
      case True
      obtain q en2 where q: "finish w n False en1 = (q, en2)" by fastforce
      from finish_log[OF this en1(2,1)] obtain L d where
        L: "en_log en2 = en_log en1 @ L @ [Released sess d]" "list_all (sentBy sess) L" "\<not> list_ex (committed sess) L"
        "quietFailures w en1 \<and> unreported w \<and> \<not> d \<longrightarrow> ends sess L" by auto
      have "en' = en2" "isl r" using True "2.prems"(1) f Inl q by (auto split: sum.splits)
      then show ?thesis using L ok en1(3) quietFailures_same[OF ok(2)]
        by (intro exI[of _ "Sent sess kind sql ok # L"]) (cases r; auto intro: settled_Cons ends_settled)
    qed
  qed
qed

lemma beginSteps_kinds: "\<forall>(k, sql) \<in> set (beginSteps driver level opts). k \<noteq> KCommit"
  by (auto simp: beginSteps_def Let_def)

lemma rowLockTable_log: "rowLockTable w en = (r, en') \<Longrightarrow> en_log en' = en_log en \<and> sameFrames en en'"
  by (auto simp: rowLockTable_def ended_def sameFrames_def split: if_splits prod.splits sum.splits)

text \<open>An opened transaction has reserved one session; a failure to open it has given it back.\<close>

lemma beginTx_log:
  assumes "beginTx w opts en = (r, en')"
  shows "case r of
      Inr n \<Rightarrow> \<exists>sess B. en_log en' = en_log en @ Reserved sess # B \<and> list_all (sentBy sess) B \<and> \<not> list_ex (committed sess) B \<and>
        fr_session (en_frames en' n) = sess \<and> \<not> fr_finished (en_frames en' n) \<and> en_flow en' = en_flow en \<and>
        su_list (en_subscribers en') = su_list (en_subscribers en)
    | Inl e \<Rightarrow> en_log en' = en_log en \<or>
        (\<exists>sess B d. en_log en' = en_log en @ Reserved sess # B @ [Released sess d] \<and> list_all (sentBy sess) B \<and>
          \<not> list_ex (committed sess) B \<and> (quietFailures w en \<and> unreported w \<and> \<not> d \<longrightarrow> settled sess B))"
proof (cases "isl r \<and> en_log en' = en_log en")
  case True
  then show ?thesis by (cases r) auto
next
  case False
  define iso where "iso = (case op_isolation opts of None \<Rightarrow> Inr [] | Some i \<Rightarrow> isolationSql i)"
  have no: "\<not> (op_timeoutMs opts > 0 \<and> w_name w \<noteq> ''postgres'')" "\<not> isl iso"
    using assms False unfolding beginTx_def iso_def[symmetric] by (cases iso; auto simp: ioThrow_def split: if_splits)+
  then obtain level where "iso = Inr level" by (cases iso) auto
  with no(1) have level: "beginTx w opts en =
      ioBind (if w_name w = ''sqlite'' then rowLockTable w else ioRet ()) (\<lambda>_.
      ioBind (openFrame w opts) (\<lambda>n.
      ioBind (beginLoop w n False (beginSteps (w_name w) level opts)) (\<lambda>_. ioRet n))) en"
    unfolding beginTx_def iso_def[symmetric] by auto
  obtain q en1 where q: "(if w_name w = ''sqlite'' then rowLockTable w else ioRet ()) en = (q, en1)" by fastforce
  have en1: "en_log en1 = en_log en" "sameFrames en en1"
    using q rowLockTable_log[of w en q en1] by (auto simp: ioRet_def split: if_splits)
  have "\<not> isl q" using False assms level q en1(1) by (cases q) (auto simp: io_simps)
  then obtain p en2 where p: "openFrame w opts en1 = (p, en2)" "(r, en') =
      (case p of Inl e \<Rightarrow> (Inl e, en2) | Inr n \<Rightarrow> ioBind (beginLoop w n False (beginSteps (w_name w) level opts)) (\<lambda>_. ioRet n) en2)"
    using assms level q by (cases q; cases "openFrame w opts en1") (auto simp: ioBind_eq split: sum.splits)
  have "\<not> isl p" using False p en1(1) by (cases p) (auto simp: openFrame_def split: prod.splits sum.splits)
  then obtain n where n: "p = Inr n" by (cases p) auto
  then obtain sess where o: "en_log en2 = en_log en @ [Reserved sess]" "fr_session (en_frames en2 n) = sess"
    "\<not> fr_finished (en_frames en2 n)" "en_flow en2 = en_flow en" "su_list (en_subscribers en2) = su_list (en_subscribers en)"
    using p(1) en1 by (auto simp: openFrame_def logCall_def setFrame_def nextTransaction_def newFrame_def sameFrames_def
      split: prod.splits sum.splits)
  obtain b en3 where b: "beginLoop w n False (beginSteps (w_name w) level opts) en2 = (b, en3)" by fastforce
  from beginLoop_log[OF b o(3) o(2)[symmetric] beginSteps_kinds] obtain B where
    B: "list_all (sentBy sess) B" "\<not> list_ex (committed sess) B"
    "case b of Inr _ \<Rightarrow> en_log en3 = en_log en2 @ B \<and> sameFrames en2 en3 | Inl e \<Rightarrow> \<exists>d. en_log en3 = en_log en2 @ B @ [Released sess d] \<and> (quietFailures w en2 \<and> unreported w \<and> \<not> d \<longrightarrow> settled sess B)"
    by blast
  from p(2) n b have "en' = en3 \<and> r = (case b of Inl e \<Rightarrow> Inl e | Inr _ \<Rightarrow> Inr n)"
    by (auto simp: io_simps split: sum.splits)
  moreover have "quietFailures w en2 = quietFailures w en" using o(5) by (simp add: quietFailures_def)
  ultimately show ?thesis using B o by (cases b) (auto simp: sameFrames_def)
qed

subsection \<open>The run of a callback\<close>

text \<open>
  What the callback of a transaction does not do: give back or commit the session of an active
  transaction, or change its subscribers. A callback made of statements, writes and nested
  transactions is disciplined.
\<close>

definition keepsFrame :: "nat \<Rightarrow> 's env \<Rightarrow> 's env \<Rightarrow> bool" where
  "keepsFrame n en en' \<longleftrightarrow>
     (let sess = fr_session (en_frames en n) in
      \<exists>L. en_log en' = en_log en @ L \<and> fr_session (en_frames en' n) = sess \<and> \<not> fr_finished (en_frames en' n) \<and>
        fr_savepoints (en_frames en' n) = fr_savepoints (en_frames en n) \<and>
        \<not> list_ex (releases sess) L \<and> \<not> list_ex (committed sess) L \<and>
        su_list (en_subscribers en') = su_list (en_subscribers en))"

definition disciplined :: "('s, 'a) io \<Rightarrow> bool" where
  "disciplined m \<longleftrightarrow> (\<forall>en n. \<not> fr_finished (en_frames en n) \<longrightarrow> keepsFrame n en (snd (m en)))"

lemma keepsFrame_refl: "\<not> fr_finished (en_frames en n) \<Longrightarrow> keepsFrame n en en"
  by (simp add: keepsFrame_def)

lemma keepsFrame_trans: "keepsFrame n en en1 \<Longrightarrow> keepsFrame n en1 en2 \<Longrightarrow> keepsFrame n en en2"
  by (auto simp: keepsFrame_def Let_def)

lemma keepsFrame_active: "keepsFrame n en en1 \<Longrightarrow> \<not> fr_finished (en_frames en1 n)"
  by (auto simp: keepsFrame_def Let_def)

lemma disciplinedD: "disciplined m \<Longrightarrow> \<not> fr_finished (en_frames en n) \<Longrightarrow> m en = (r, en') \<Longrightarrow> keepsFrame n en en'"
  unfolding disciplined_def by (metis snd_conv)

text \<open>The computation that \<open>run\<close> hands to the flow of the callback\<close>

definition body :: "nat \<Rightarrow> auditinsert option \<Rightarrow> nat list \<Rightarrow> ('s, 'a) io \<Rightarrow> ('s, 'a) io" where
  "body n record stack callback =
     flowRun stack (ioBind (ioModify (setFrame n (\<lambda>f. f\<lparr>fr_pendingAudit := record\<rparr>))) (\<lambda>_. callback))"

lemma body_keeps:
  assumes "disciplined callback" and "\<not> fr_finished (en_frames en n)" and "body n record stack callback en = (r, en')"
  shows "keepsFrame n en en'"
proof -
  let ?en = "setFrame n (\<lambda>f. f\<lparr>fr_pendingAudit := record\<rparr>) (en\<lparr>en_flow := stack\<rparr>)"
  obtain q en1 where q: "callback ?en = (q, en1)" by fastforce
  have "\<not> fr_finished (en_frames ?en n)" using assms(2) by (simp add: setFrame_def)
  from disciplinedD[OF assms(1) this q] have "keepsFrame n ?en en1" .
  moreover have "en' = en1\<lparr>en_flow := en_flow en\<rparr>"
    using assms(3) q by (auto simp: body_def flowRun_def io_simps)
  ultimately show ?thesis by (auto simp: keepsFrame_def setFrame_def)
qed

text \<open>A callback that only sends statements, none of them COMMIT: it opens no transaction on another connection.\<close>

definition statement :: "call \<Rightarrow> bool" where
  "statement c \<longleftrightarrow> (\<exists>s k sql ok. c = Sent s k sql ok \<and> k \<noteq> KCommit)"

definition statementsOnly :: "('s, 'a) io \<Rightarrow> bool" where
  "statementsOnly m \<longleftrightarrow> (\<forall>en. \<exists>C. en_log (snd (m en)) = en_log en @ C \<and> list_all statement C)"

lemma body_statements:
  assumes "statementsOnly callback" and "body n record stack callback en = (r, en')" and "en_log en' = en_log en @ C"
  shows "list_all statement C"
proof -
  let ?en = "setFrame n (\<lambda>f. f\<lparr>fr_pendingAudit := record\<rparr>) (en\<lparr>en_flow := stack\<rparr>)"
  have "en_log en' = en_log (snd (callback ?en))"
    using assms(2) by (auto simp: body_def flowRun_def io_simps split: prod.splits)
  moreover have "en_log ?en = en_log en" by (simp add: setFrame_def)
  ultimately show ?thesis using assms(1,3) unfolding statementsOnly_def by (metis same_append_eq)
qed

text \<open>
  The calls of a run: none, or the session reserved first and released last and once. A value is
  returned only after the one COMMIT, the last statement; an error only without a COMMIT that ran,
  unless a subscriber threw it; and a session goes back to the pool only after its transaction ended.
\<close>

lemma run_log:
  assumes "run w callback opts record en = (r, en')" and callback: "disciplined callback"
  shows "(isl r \<and> en_log en' = en_log en) \<or>
    (\<exists>sess L d. en_log en' = en_log en @ Reserved sess # L @ [Released sess d] \<and> \<not> list_ex (releases sess) L \<and>
      (case r of Inr _ \<Rightarrow> (\<exists>K. L = K @ [Sent sess KCommit ''COMMIT'' True] \<and> \<not> list_ex (committed sess) K) \<and> \<not> d
       | Inl e \<Rightarrow> subscriberError e \<or> \<not> list_ex (committed sess) L) \<and>
      (quietFailures w en \<and> unreported w \<and> \<not> d \<longrightarrow> settled sess L) \<and>
      (statementsOnly callback \<longrightarrow> list_all (\<lambda>c. sentBy sess c \<or> statement c) L))"
proof (cases "isl r \<and> en_log en' = en_log en")
  case False
  then have open_: "\<not> en_closed en" using assms(1) by (auto simp: run_def io_simps)
  obtain p en1 where p: "beginTx w opts en = (p, en1)" by fastforce
  note begun = beginTx_log[OF p]
  show ?thesis
  proof (cases p)
    case (Inl e)
    with assms(1) p open_ have "r = Inl e" "en' = en1" by (auto simp: run_def io_simps)
    with begun Inl False obtain sess B d where "en_log en' = en_log en @ Reserved sess # B @ [Released sess d]" "list_all (sentBy sess) B"
      "\<not> list_ex (committed sess) B" "quietFailures w en \<and> unreported w \<and> \<not> d \<longrightarrow> settled sess B" by auto
    with \<open>r = Inl e\<close> show ?thesis using sentBy_releases list.pred_mono_strong
      by (intro disjI2 exI[of _ sess] exI[of _ B] exI[of _ d]) fastforce
  next
    case (Inr n)
    with begun obtain sess B where B: "en_log en1 = en_log en @ Reserved sess # B" "list_all (sentBy sess) B"
      "\<not> list_ex (committed sess) B" "fr_session (en_frames en1 n) = sess" "\<not> fr_finished (en_frames en1 n)"
      "su_list (en_subscribers en1) = su_list (en_subscribers en)" by auto
    obtain q en2 where q: "body n record (en_flow en1 @ [n]) callback en1 = (q, en2)" by fastforce
    from body_keeps[OF callback B(5) q, unfolded keepsFrame_def Let_def] B(4) obtain C where C: "en_log en2 = en_log en1 @ C" "sess = fr_session (en_frames en2 n)"
      "\<not> fr_finished (en_frames en2 n)" "\<not> list_ex (releases sess) C" "\<not> list_ex (committed sess) C"
      "su_list (en_subscribers en2) = su_list (en_subscribers en1)" by auto
    obtain f en3 where f: "finish w n (\<not> isl q) en2 = (f, en3)" by fastforce
    from finish_log[OF f C(2,3)] obtain F d where F: "en_log en3 = en_log en2 @ F @ [Released sess d]" "list_all (sentBy sess) F"
      "\<not> isl q \<longrightarrow> (case f of Inr _ \<Rightarrow> (\<exists>K. F = K @ [Sent sess KCommit ''COMMIT'' True] \<and> \<not> list_ex (committed sess) K) \<and> \<not> d
         | Inl e \<Rightarrow> subscriberError e \<or> \<not> list_ex (committed sess) F)"
      "isl q \<longrightarrow> \<not> list_ex (committed sess) F" "quietFailures w en2 \<and> unreported w \<and> \<not> d \<longrightarrow> ends sess F" by auto
    have q2: "quietFailures w en2 = quietFailures w en" using B(6) C(6) by (simp add: quietFailures_def)
    have res: "en_log en' = en_log en3" "case q of Inl e \<Rightarrow> isl r
        | Inr a \<Rightarrow> (case f of Inl e \<Rightarrow> r = Inl e | Inr _ \<Rightarrow> r = Inr a)"
      using assms(1) open_ p Inr q f
      by (auto simp: run_def body_def io_simps split: sum.splits if_splits)
    have rel: "\<not> list_ex (releases sess) (B @ C @ F)" using C(4) B(2) F(2) sentBy_releases by auto
    have "case r of Inr _ \<Rightarrow> (\<exists>K. B @ C @ F = K @ [Sent sess KCommit ''COMMIT'' True] \<and> \<not> list_ex (committed sess) K) \<and> \<not> d
       | Inl e \<Rightarrow> subscriberError e \<or> \<not> list_ex (committed sess) (B @ C @ F)"
      using res(2) F(3,4) B(3) C(5)
      by (cases q; cases f; cases r) (auto intro: exI[of _ "B @ C @ K" for K])
    moreover have "quietFailures w en \<and> unreported w \<and> \<not> d \<longrightarrow> settled sess (B @ C @ F)"
      using F(5) q2 by (auto intro: settled_append ends_settled)
    moreover have "statementsOnly callback \<longrightarrow> list_all (\<lambda>c. sentBy sess c \<or> statement c) (B @ C @ F)"
      using body_statements[OF _ q C(1)] B(2) F(2) by (auto simp: list_all_iff)
    ultimately show ?thesis using res(1) F(1) C(1) B(1) rel
      by (intro disjI2 exI[of _ sess] exI[of _ "B @ C @ F"] exI[of _ d]) auto
  qed
qed blast

subsection \<open>Retries\<close>

text \<open>\<open>j\<close> runs that each ended in a deadlock, with their delays\<close>

inductive deadlocks :: "('s, 'a) io \<Rightarrow> nat \<Rightarrow> nat \<Rightarrow> 's env \<Rightarrow> 's env \<Rightarrow> bool" for m where
  none: "deadlocks m 0 k en en"
| again: "m en = (Inl e, en1) \<Longrightarrow> errCode e = Some DEADLOCK \<Longrightarrow>
    deadlocks m j (Suc k) (logCall (Slept (delay k)) en1) en' \<Longrightarrow> deadlocks m (Suc j) k en en'"

lemma attempts_deadlocks:
  "\<exists>j\<le>left. \<exists>en1. deadlocks m j k en en1 \<and> attempts m left k en = m en1 \<and>
     (j < left \<longrightarrow> (\<forall>e en2. m en1 = (Inl e, en2) \<longrightarrow> errCode e \<noteq> Some DEADLOCK))"
proof (induction left arbitrary: k en)
  case 0
  have "attempts m 0 k en = m en" by (subst attempts.simps) (auto split: prod.splits sum.splits)
  then show ?case by (auto intro: deadlocks.none)
next
  case (Suc left)
  show ?case
  proof (cases "\<exists>e en1. m en = (Inl e, en1) \<and> errCode e = Some DEADLOCK")
    case True
    then obtain e en1 where e: "m en = (Inl e, en1)" "errCode e = Some DEADLOCK" by blast
    then have "attempts m (Suc left) k en = attempts m left (Suc k) (logCall (Slept (delay k)) en1)"
      by (subst attempts.simps) simp
    with Suc[of "Suc k" "logCall (Slept (delay k)) en1"] deadlocks.again[of m, OF e] show ?thesis
      by (metis Suc_le_mono Suc_less_eq)
  next
    case False
    then have "attempts m (Suc left) k en = m en"
      by (subst attempts.simps) (auto split: prod.splits sum.splits)
    with False show ?thesis by (intro exI[of _ 0]) (auto intro: deadlocks.none)
  qed
qed

subsection \<open>Disciplined callbacks\<close>

lemma disciplined_ret: "disciplined (ioRet a)" "disciplined (ioThrow e)"
  by (simp_all add: disciplined_def io_simps keepsFrame_refl)

lemma disciplined_bind:
  assumes "disciplined m" and "\<And>a. disciplined (f a)"
  shows "disciplined (ioBind m f)"
  unfolding disciplined_def
proof (intro allI impI)
  fix en :: "'a env" and n
  assume active: "\<not> fr_finished (en_frames en n)"
  obtain r en1 where r: "m en = (r, en1)" by fastforce
  note first = disciplinedD[OF assms(1) active r]
  show "keepsFrame n en (snd (ioBind m f en))"
  proof (cases r)
    case (Inl e)
    with r first show ?thesis by (simp add: ioBind_eq)
  next
    case (Inr a)
    from assms(2)[of a] keepsFrame_active[OF first] have "keepsFrame n en1 (snd (f a en1))" by (simp add: disciplined_def)
    with keepsFrame_trans[OF first] r Inr show ?thesis by (simp add: ioBind_eq)
  qed
qed

lemma control_keeps:
  assumes "control w m kind tbls sql params en = (r, en')" and "kind \<noteq> KCommit" and "\<not> fr_finished (en_frames en n)"
  shows "keepsFrame n en en'"
  using control_log[OF assms(1)] assms(2,3) by (auto simp: keepsFrame_def sameFrames_def)

lemma frameRun_keeps:
  assumes "kind \<noteq> KCommit" and "\<not> fr_finished (en_frames en n)"
  shows "keepsFrame n en (snd (frameRun w m kind tbls sql en))"
proof (cases "fr_finished (en_frames en m)")
  case True
  with assms(2) show ?thesis by (simp add: frameRun_def io_simps keepsFrame_refl)
next
  case False
  then have "frameRun w m kind tbls sql en = control w m kind tbls sql [] en" by (simp add: frameRun_def io_simps)
  then show ?thesis using control_keeps[OF _ assms] by (metis prod.collapse)
qed

lemma savepointStep_keeps:
  assumes "kind \<noteq> KCommit" and "\<not> fr_finished (en_frames en n)"
  shows "keepsFrame n en (snd (savepointStep w m kind name en))"
  using frameRun_keeps[OF assms, of w m "[]" "savepointText kind name"] assms(2)
  by (auto simp: savepointStep_def keepsFrame_refl split: prod.splits sum.splits)

lemma flowRun_keeps:
  assumes "disciplined m" and "\<not> fr_finished (en_frames en n)"
  shows "keepsFrame n en (snd (flowRun stack m en))"
proof -
  have "keepsFrame n (en\<lparr>en_flow := stack\<rparr>) (snd (m (en\<lparr>en_flow := stack\<rparr>)))"
    using assms by (simp add: disciplined_def)
  then show ?thesis by (auto simp: flowRun_def keepsFrame_def split: prod.splits)
qed

subsection \<open>Savepoints\<close>

lemma undoSavepoint_keeps:
  assumes "\<not> fr_finished (en_frames en n)"
  shows "keepsFrame n en (snd (undoSavepoint w m name en))"
proof -
  obtain r1 en1 where 1: "savepointStep w m KRollbackTo name en = (r1, en1)" by fastforce
  obtain r2 en2 where 2: "savepointStep w m KRelease name en1 = (r2, en2)" by fastforce
  have k1: "keepsFrame n en en1" using savepointStep_keeps[OF _ assms, of KRollbackTo w m name] 1 by simp
  have "keepsFrame n en1 en2" using savepointStep_keeps[OF _ keepsFrame_active[OF k1], of KRelease w m name] 2 by simp
  with keepsFrame_trans[OF k1] 1 2 show ?thesis by (simp add: undoSavepoint_def)
qed

lemma savepointBody_keeps:
  assumes "disciplined callback" and active: "\<not> fr_finished (en_frames en n)"
  shows "keepsFrame n en (snd (savepointBody w m name callback en))"
proof -
  obtain r1 en1 where 1: "savepointStep w m KSavepoint name en = (r1, en1)" by fastforce
  have k1: "keepsFrame n en en1" using savepointStep_keeps[OF _ active, of KSavepoint w m name] 1 by simp
  obtain r2 en2 where 2: "flowRun (en_flow en1 @ [m]) callback en1 = (r2, en2)" by fastforce
  have k2: "keepsFrame n en en2"
    using flowRun_keeps[OF assms(1) keepsFrame_active[OF k1], of "en_flow en1 @ [m]"] 2 keepsFrame_trans[OF k1] by simp
  have u: "keepsFrame n en (snd (undoSavepoint w m name en2))" "keepsFrame n en (snd (savepointStep w m KRelease name en2))"
    using undoSavepoint_keeps[OF keepsFrame_active[OF k2]] savepointStep_keeps[OF _ keepsFrame_active[OF k2], of KRelease]
      keepsFrame_trans[OF k2] by blast+
  show ?thesis
  proof (cases "isl r1")
    case True
    with 1 k1 show ?thesis by (cases r1) (auto simp: savepointBody_def io_simps)
  next
    case False
    with 1 2 u show ?thesis
      by (cases r1; cases r2) (auto simp: savepointBody_def io_simps split: prod.splits sum.splits)
  qed
qed

text \<open>A nested transaction of a disciplined callback is disciplined: savepoints may nest to any depth.\<close>

lemma setFrame_log: "en_log (setFrame n f en) = en_log en"
  by (simp add: setFrame_def)

lemma setFrame_other: "m \<noteq> n \<Longrightarrow> en_frames (setFrame m f en) n = en_frames en n"
  by (simp add: setFrame_def)

lemma savepoint_body:
  assumes "savepoint w m callback en = (r, en')"
  obtains en1 where "savepointBody w m (savepointName (Suc (fr_savepoints (en_frames en m)))) callback
      (setFrame m (\<lambda>f. f\<lparr>fr_savepoints := Suc (fr_savepoints (en_frames en m))\<rparr>) en) = (r, en1)"
    "en' = setFrame m (\<lambda>f.
      (if isl r then f\<lparr>fr_audit := fr_audit (en_frames en m), fr_inserted := fr_inserted (en_frames en m)\<rparr> else f)
        \<lparr>fr_savepoints := fr_savepoints f - 1\<rparr>) en1"
  using assms by (auto simp: savepoint_def Let_def split: prod.splits)

lemma disciplined_savepoint:
  assumes "disciplined callback"
  shows "disciplined (savepoint w m callback)"
  unfolding disciplined_def
proof (intro allI impI)
  fix en :: "'a env" and n
  assume active: "\<not> fr_finished (en_frames en n)"
  let ?en = "setFrame m (\<lambda>f. f\<lparr>fr_savepoints := Suc (fr_savepoints (en_frames en m))\<rparr>) en"
  obtain r en' where r: "savepoint w m callback en = (r, en')" by fastforce
  from savepoint_body[OF r] obtain en1 where en1: "savepointBody w m (savepointName (Suc (fr_savepoints (en_frames en m)))) callback ?en = (r, en1)"
    "en' = setFrame m (\<lambda>f.
      (if isl r then f\<lparr>fr_audit := fr_audit (en_frames en m), fr_inserted := fr_inserted (en_frames en m)\<rparr> else f)
        \<lparr>fr_savepoints := fr_savepoints f - 1\<rparr>) en1" by blast
  have "\<not> fr_finished (en_frames ?en n)" using active by (auto simp: setFrame_def)
  from savepointBody_keeps[OF assms this, of w m] en1(1) have "keepsFrame n ?en en1" by (metis snd_conv)
  then have "keepsFrame n en en'" unfolding en1(2) by (auto simp: keepsFrame_def setFrame_def Let_def)
  with r show "keepsFrame n en (snd (savepoint w m callback en))" by simp
qed

text \<open>A savepoint leaves the depth of the frame, and one that fails also its audit record and its inserted keys.\<close>

lemma savepoint_frame:
  assumes "disciplined callback" and "\<not> fr_finished (en_frames en n)" and sp: "savepoint w n callback en = (r, en')"
  shows "fr_savepoints (en_frames en' n) = fr_savepoints (en_frames en n) \<and> \<not> fr_finished (en_frames en' n) \<and>
    (isl r \<longrightarrow> fr_audit (en_frames en' n) = fr_audit (en_frames en n) \<and> fr_inserted (en_frames en' n) = fr_inserted (en_frames en n))"
proof -
  have "keepsFrame n en en'"
    using disciplinedD[OF disciplined_savepoint[OF assms(1)] assms(2) sp] .
  moreover from savepoint_body[OF sp] obtain en1 where "en' = setFrame n (\<lambda>f.
      (if isl r then f\<lparr>fr_audit := fr_audit (en_frames en n), fr_inserted := fr_inserted (en_frames en n)\<rparr> else f)
        \<lparr>fr_savepoints := fr_savepoints f - 1\<rparr>) en1" by blast
  ultimately show ?thesis by (cases "isl r") (auto simp: keepsFrame_def Let_def setFrame_def)
qed

text \<open>The statements of a savepoint on a driver that does not report open transactions.\<close>

lemma savepointStep_unreported:
  assumes "unreported w" and "\<not> fr_finished (en_frames en n)" and "savepointStep w n kind name en = (r, en')"
  shows "\<exists>ok. en_log en' = en_log en @ [Sent (fr_session (en_frames en n)) kind (savepointText kind name) ok] \<and> (r = Inr () \<longrightarrow> ok) \<and>
    sameFrames en en'"
proof -
  obtain q where q: "frameRun w n kind [] (savepointText kind name) en = (q, en')" "isl q = isl r"
    using assms(1,3) by (auto simp: savepointStep_def unreported_def split: prod.splits sum.splits)
  then have "control w n kind [] (savepointText kind name) [] en = (q, en')"
    using assms(2) by (simp add: frameRun_def io_simps)
  from control_log[OF this] q(2) show ?thesis by (cases q) auto
qed

lemma savepointBody_log:
  assumes "disciplined callback" and active: "\<not> fr_finished (en_frames en n)" and un: "unreported w"
    and run: "savepointBody w n name callback en = (r, en')" and sess: "sess = fr_session (en_frames en n)"
  shows "(isl r \<and> (\<exists>ok. en_log en' = en_log en @ [Sent sess KSavepoint (''SAVEPOINT '' @ name) ok])) \<or>
    (\<exists>L M en2. en_log en' = en_log en @ Sent sess KSavepoint (''SAVEPOINT '' @ name) True # L @ M \<and>
      (case fst (callback en2) of
         Inr a \<Rightarrow> \<exists>ok. M = [Sent sess KRelease (''RELEASE SAVEPOINT '' @ name) ok] \<and> (r = Inr a \<and> ok \<or> isl r)
       | Inl e \<Rightarrow> \<exists>ok ok'. M = [Sent sess KRollbackTo (''ROLLBACK TO SAVEPOINT '' @ name) ok,
           Sent sess KRelease (''RELEASE SAVEPOINT '' @ name) ok'] \<and> (r = Inl e \<and> ok \<and> ok' \<or> (\<exists>x. r = Inl (RollbackFailed e x)))))"
proof -
  obtain r1 en1 where 1: "savepointStep w n KSavepoint name en = (r1, en1)" by fastforce
  from savepointStep_unreported[OF un active 1] sess obtain ok where
    ok: "en_log en1 = en_log en @ [Sent sess KSavepoint (''SAVEPOINT '' @ name) ok]" "r1 = Inr () \<longrightarrow> ok" "sameFrames en en1"
    by (auto simp: savepointText_def)
  show ?thesis
  proof (cases r1)
    case (Inl e)
    with 1 run ok(1) show ?thesis by (auto simp: savepointBody_def io_simps)
  next
    case (Inr u)
    with ok have log1: "en_log en1 = en_log en @ [Sent sess KSavepoint (''SAVEPOINT '' @ name) True]" by simp
    have a1: "\<not> fr_finished (en_frames en1 n)" "fr_session (en_frames en1 n) = sess" using active ok(3) sess by (auto simp: sameFrames_def)
    define en2 where "en2 = en1\<lparr>en_flow := en_flow en1 @ [n]\<rparr>"
    obtain q en3 where q: "callback en2 = (q, en3)" by fastforce
    have a2: "\<not> fr_finished (en_frames en2 n)" using a1 by (simp add: en2_def)
    from disciplinedD[OF assms(1) a2 q] a1(2) obtain L where L: "en_log en3 = en_log en1 @ L" "\<not> fr_finished (en_frames en3 n)"
      "fr_session (en_frames en3 n) = sess" by (auto simp: keepsFrame_def en2_def Let_def)
    define en4 where "en4 = en3\<lparr>en_flow := en_flow en1\<rparr>"
    have a4: "\<not> fr_finished (en_frames en4 n)" "fr_session (en_frames en4 n) = sess" "en_log en4 = en_log en1 @ L"
      using L by (simp_all add: en4_def)
    have run': "(r, en') = (case q of
         Inl e \<Rightarrow> (case undoSavepoint w n name en4 of
             (es, en') \<Rightarrow> (Inl (case joinedErrors es of None \<Rightarrow> e | Some rb \<Rightarrow> RollbackFailed e rb), en'))
       | Inr a \<Rightarrow> ioBind (savepointStep w n KRelease name) (\<lambda>_. ioRet a) en4)"
      using run 1 Inr q
      by (auto simp: savepointBody_def io_simps flowRun_def en2_def en4_def split: sum.splits prod.splits)
    show ?thesis
    proof (cases q)
      case (Inr a)
      obtain s en5 where s: "savepointStep w n KRelease name en4 = (s, en5)" by fastforce
      from savepointStep_unreported[OF un a4(1) s] a4(2) obtain ok2 where
        ok2: "en_log en5 = en_log en4 @ [Sent sess KRelease (''RELEASE SAVEPOINT '' @ name) ok2]" "s = Inr () \<longrightarrow> ok2"
        by (auto simp: savepointText_def)
      have "en' = en5" "r = Inr a \<and> s = Inr () \<or> isl r" using run' Inr s by (auto simp: io_simps split: sum.splits)
      then show ?thesis using ok2 a4(3) log1 q Inr
        by (intro disjI2 exI[of _ L] exI[of _ "[Sent sess KRelease (''RELEASE SAVEPOINT '' @ name) ok2]"] exI[of _ en2]) auto
    next
      case (Inl e)
      obtain s en5 where s: "savepointStep w n KRollbackTo name en4 = (s, en5)" by fastforce
      from savepointStep_unreported[OF un a4(1) s] a4(2) obtain ok2 where
        ok2: "en_log en5 = en_log en4 @ [Sent sess KRollbackTo (''ROLLBACK TO SAVEPOINT '' @ name) ok2]" "s = Inr () \<longrightarrow> ok2"
        "sameFrames en4 en5" by (auto simp: savepointText_def)
      obtain v en6 where v: "savepointStep w n KRelease name en5 = (v, en6)" by fastforce
      have a5: "\<not> fr_finished (en_frames en5 n)" "fr_session (en_frames en5 n) = sess" using ok2(3) a4 by (auto simp: sameFrames_def)
      from savepointStep_unreported[OF un a5(1) v] a5(2) obtain ok3 where
        ok3: "en_log en6 = en_log en5 @ [Sent sess KRelease (''RELEASE SAVEPOINT '' @ name) ok3]" "v = Inr () \<longrightarrow> ok3"
        by (auto simp: savepointText_def)
      have "en' = en6" "(r = Inl e \<and> s = Inr () \<and> v = Inr ()) \<or> (\<exists>x. r = Inl (RollbackFailed e x))"
        using run' Inl s v by (cases s; cases v; auto simp: undoSavepoint_def)+
      then show ?thesis using ok2 ok3 a4(3) log1 q Inl
        by (intro disjI2 exI[of _ L] exI[of _ "[Sent sess KRollbackTo (''ROLLBACK TO SAVEPOINT '' @ name) ok2,
          Sent sess KRelease (''RELEASE SAVEPOINT '' @ name) ok3]"] exI[of _ en2]) auto
    qed
  qed
qed

end
