(* ===== verification/Atomic.thy ===== *)
theory Atomic
  imports Sessions
begin

section \<open>Transactions are atomic\<close>

text \<open>
  The contract of a transaction, on what a database keeps: the statements of a session that follow
  BEGIN are pending until COMMIT, which makes them durable as one unit, or until the transaction is
  rolled back or its session closed. The lemmas show that a transaction of the client adds one unit
  when it returns a value and none when it fails.
\<close>

subsection \<open>What a database keeps\<close>

type_synonym store = "(nat \<Rightarrow> string list) \<times> string list list"

fun effect :: "store \<Rightarrow> call \<Rightarrow> store" where
  "effect (pending, units) (Sent s k sql ok) =
     (if \<not> ok then (pending, units)
      else if k = KBegin \<or> k = KRollback then (pending(s := []), units)
      else if k = KCommit then (pending(s := []), units @ [pending s])
      else (pending(s := pending s @ [sql]), units))"
| "effect (pending, units) (Released s closed) = (if closed then (pending(s := []), units) else (pending, units))"
| "effect st c = st"

definition durable :: "call list \<Rightarrow> string list list" where
  "durable log = snd (fold (\<lambda>c st. effect st c) log (\<lambda>_. [], []))"

definition commits :: "call \<Rightarrow> bool" where
  "commits c \<longleftrightarrow> (\<exists>s sql. c = Sent s KCommit sql True)"

lemma effect_units: "\<not> commits c \<Longrightarrow> snd (effect st c) = snd st"
  by (cases "(st, c)" rule: effect.cases) (auto simp: commits_def)

lemma fold_units: "\<not> list_ex commits L \<Longrightarrow> snd (fold (\<lambda>c st. effect st c) L st) = snd st"
  by (induction L arbitrary: st) (auto simp: effect_units)

lemma durable_same: "\<not> list_ex commits L \<Longrightarrow> durable (log @ L) = durable log"
  by (simp add: durable_def fold_units)

lemma durable_commit:
  assumes "\<not> list_ex commits K" and "\<not> list_ex commits M"
  shows "\<exists>work. durable (log @ K @ Sent s KCommit sql True # M) = durable log @ [work]"
proof -
  have "snd (effect st (Sent s KCommit sql True)) = snd st @ [fst st s]" for st by (cases st) simp
  then show ?thesis using assms by (auto simp: durable_def fold_units)
qed

text \<open>The contract: what a computation with result \<open>r\<close> adds to the durable units.\<close>

definition atomicStep :: "(err + 'a) \<Rightarrow> string list list \<Rightarrow> string list list \<Rightarrow> bool" where
  "atomicStep r before after \<longleftrightarrow>
     (case r of
        Inr _ \<Rightarrow> (\<exists>work. after = before @ [work])
      | Inl e \<Rightarrow> subscriberError e \<or> after = before)"

subsection \<open>Runs and retries\<close>

lemma only_commit:
  assumes "list_all (\<lambda>c. sentBy s c \<or> statement c) L"
  shows "list_ex commits L \<longleftrightarrow> list_ex (committed s) L"
proof -
  have "commits c \<longleftrightarrow> committed s c" if "sentBy s c \<or> statement c" for c
    using that by (cases c) (auto simp: commits_def committed_def sentBy_def statement_def)
  with assms show ?thesis unfolding list_all_iff list_ex_iff by blast
qed

lemma run_atomic:
  assumes run: "run w callback opts record en = (r, en')" and callback: "disciplined callback" "statementsOnly callback"
  shows "atomicStep r (durable (en_log en)) (durable (en_log en'))"
proof (cases "isl r \<and> en_log en' = en_log en")
  case True
  then show ?thesis by (cases r) (auto simp: atomicStep_def)
next
  case False
  with run_log[OF run callback(1)] callback(2) obtain sess L d where
    L: "en_log en' = en_log en @ Reserved sess # L @ [Released sess d]" "list_all (\<lambda>c. sentBy sess c \<or> statement c) L"
    "case r of Inr _ \<Rightarrow> (\<exists>K. L = K @ [Sent sess KCommit ''COMMIT'' True] \<and> \<not> list_ex (committed sess) K) \<and> \<not> d
       | Inl e \<Rightarrow> subscriberError e \<or> \<not> list_ex (committed sess) L" by blast
  have ends: "\<not> commits (Reserved sess)" "\<not> commits (Released sess d)" by (simp_all add: commits_def)
  show ?thesis
  proof (cases r)
    case (Inl e)
    have "\<not> list_ex commits L \<Longrightarrow> durable (en_log en') = durable (en_log en)"
      unfolding L(1) by (rule durable_same) (simp add: ends)
    with L(3) Inl only_commit[OF L(2)] show ?thesis by (auto simp: atomicStep_def)
  next
    case (Inr a)
    with L(3) obtain K where K: "L = K @ [Sent sess KCommit ''COMMIT'' True]" "\<not> list_ex (committed sess) K" by auto
    with L(2) only_commit[of sess K] have "\<not> list_ex commits (Reserved sess # K)" by (simp add: ends)
    from durable_commit[OF this, of "[Released sess d]"] Inr show ?thesis by (simp add: atomicStep_def L(1) K(1) ends)
  qed
qed

lemma deadlocks_durable:
  assumes "deadlocks m j k en en'" and "\<And>en r en'. m en = (r, en') \<Longrightarrow> atomicStep r (durable (en_log en)) (durable (en_log en'))"
  shows "durable (en_log en') = durable (en_log en)"
  using assms(1)
proof induction
  case (again en e en1 j k en')
  from assms(2)[OF again(1)] again(2) have "durable (en_log en1) = durable (en_log en)"
    by (simp add: atomicStep_def subscriberError_def)
  moreover have "durable (en_log (logCall (Slept (delay k)) en1)) = durable (en_log en1)"
    by (simp add: logCall_def durable_same commits_def)
  ultimately show ?case using again(4) by simp
qed simp

lemma attempts_atomic:
  assumes "\<And>en r en'. m en = (r, en') \<Longrightarrow> atomicStep r (durable (en_log en)) (durable (en_log en'))"
    and "attempts m left k en = (r, en')"
  shows "atomicStep r (durable (en_log en)) (durable (en_log en'))"
proof -
  from attempts_deadlocks[of left m k en] obtain j en1 where "deadlocks m j k en en1" "m en1 = (r, en')"
    using assms(2) by auto
  with deadlocks_durable[OF this(1) assms(1)] assms(1) show ?thesis by metis
qed

lemma transaction_atomicStep:
  assumes tx: "transaction w auditRecordOf callback opts en = (r, en')" and outer: "activeFor en = None"
    and callback: "disciplined callback" "statementsOnly callback"
  shows "atomicStep r (durable (en_log en)) (durable (en_log en'))"
proof -
  have run: "atomicStep r (durable (en_log en)) (durable (en_log en'))"
    if "attempts (run w callback op ins) left k en = (r, en')" for op ins left k
    using attempts_atomic[OF run_atomic[OF _ callback] that] .
  have same: "atomicStep (Inl e) d d" for e d by (simp add: atomicStep_def)
  show ?thesis using tx outer
    by (auto simp: transaction_def Let_def same split: if_splits sum.splits option.splits intro: run)
qed

subsection \<open>Callbacks that only send statements\<close>

lemma statementsOnly_ret: "statementsOnly (ioRet a)" "statementsOnly (ioThrow e)" "statementsOnly (ioGet f)"
  by (simp_all add: statementsOnly_def io_simps)

lemma statementsOnlyD: "statementsOnly m \<Longrightarrow> m en = (r, en') \<Longrightarrow> \<exists>C. en_log en' = en_log en @ C \<and> list_all statement C"
  unfolding statementsOnly_def by (metis snd_conv)

lemma statementsOnlyI: "(\<And>en r en'. m en = (r, en') \<Longrightarrow> \<exists>C. en_log en' = en_log en @ C \<and> list_all statement C) \<Longrightarrow> statementsOnly m"
  unfolding statementsOnly_def by (metis prod.collapse)

lemma statementsOnly_bind:
  assumes m: "statementsOnly m" and f: "\<And>a. statementsOnly (f a)"
  shows "statementsOnly (ioBind m f)"
proof (rule statementsOnlyI)
  fix en r en'
  assume run: "ioBind m f en = (r, en')"
  obtain q en1 where q: "m en = (q, en1)" by fastforce
  from statementsOnlyD[OF m q] obtain C where C: "en_log en1 = en_log en @ C" "list_all statement C" by blast
  show "\<exists>C. en_log en' = en_log en @ C \<and> list_all statement C"
  proof (cases q)
    case (Inl e)
    with run q C show ?thesis by (auto simp: ioBind_eq)
  next
    case (Inr a)
    with run q statementsOnlyD[OF f, of a en1 r en'] C show ?thesis by (fastforce simp: ioBind_eq)
  qed
qed

lemma statementsOnly_try: "statementsOnly m \<Longrightarrow> statementsOnly (ioTry m)"
  by (auto simp: statementsOnly_def ioTry_def split: prod.splits) (metis snd_conv)

lemma statementsOnly_control: "kind \<noteq> KCommit \<Longrightarrow> statementsOnly (control w n kind tbls sql params)"
  by (rule statementsOnlyI) (frule control_log, auto simp: statement_def)

lemma statementsOnly_frameRun: "kind \<noteq> KCommit \<Longrightarrow> statementsOnly (frameRun w n kind tbls sql)"
  unfolding frameRun_def by (auto intro!: statementsOnly_bind statementsOnly_ret statementsOnly_control)

lemma statementsOnly_savepointStep: "kind \<noteq> KCommit \<Longrightarrow> statementsOnly (savepointStep w n kind name)"
proof (rule statementsOnlyI)
  fix en r en'
  assume "kind \<noteq> KCommit" and step: "savepointStep w n kind name en = (r, en')"
  obtain q en1 where q: "frameRun w n kind [] (savepointText kind name) en = (q, en1)" by fastforce
  from step q have "en' = en \<or> en' = en1" by (auto simp: savepointStep_def split: if_splits sum.splits)
  with statementsOnlyD[OF statementsOnly_frameRun q] \<open>kind \<noteq> KCommit\<close>
  show "\<exists>C. en_log en' = en_log en @ C \<and> list_all statement C" by auto
qed

lemma statementsOnly_flowRun: "statementsOnly m \<Longrightarrow> statementsOnly (flowRun stack m)"
proof (rule statementsOnlyI)
  fix en r en'
  assume m: "statementsOnly m" and "flowRun stack m en = (r, en')"
  then obtain en1 where "m (en\<lparr>en_flow := stack\<rparr>) = (r, en1)" "en_log en' = en_log en1"
    by (auto simp: flowRun_def split: prod.splits)
  with statementsOnlyD[OF m this(1)] show "\<exists>C. en_log en' = en_log en @ C \<and> list_all statement C" by simp
qed

lemma statementsOnly_undo: "statementsOnly (\<lambda>en. case undoSavepoint w n name en of (es, en') \<Rightarrow> (f es, en'))"
proof (rule statementsOnlyI)
  fix en r en'
  assume run: "(case undoSavepoint w n name en of (es, en') \<Rightarrow> (f es, en')) = (r, en')"
  obtain r1 en1 where 1: "savepointStep w n KRollbackTo name en = (r1, en1)" by fastforce
  obtain r2 en2 where 2: "savepointStep w n KRelease name en1 = (r2, en2)" by fastforce
  have "en' = en2" using run 1 2 by (auto simp: undoSavepoint_def)
  with statementsOnlyD[OF statementsOnly_savepointStep 1] statementsOnlyD[OF statementsOnly_savepointStep 2]
  show "\<exists>C. en_log en' = en_log en @ C \<and> list_all statement C" by fastforce
qed

lemma statementsOnly_savepointBody: "statementsOnly callback \<Longrightarrow> statementsOnly (savepointBody w n name callback)"
  unfolding savepointBody_def
  by (auto intro!: statementsOnly_bind statementsOnly_savepointStep statementsOnly_ret statementsOnly_try
    statementsOnly_flowRun statementsOnly_undo split: sum.split)

lemma statementsOnly_savepoint:
  assumes "statementsOnly callback"
  shows "statementsOnly (savepoint w n callback)"
proof (rule statementsOnlyI)
  fix en r en'
  assume "savepoint w n callback en = (r, en')"
  then show "\<exists>C. en_log en' = en_log en @ C \<and> list_all statement C"
  proof (rule savepoint_body)
    fix en1
    assume "savepointBody w n (savepointName (Suc (fr_savepoints (en_frames en n)))) callback
        (setFrame n (\<lambda>f. f\<lparr>fr_savepoints := Suc (fr_savepoints (en_frames en n))\<rparr>) en) = (r, en1)"
      and "en' = setFrame n (\<lambda>f.
        (if isl r then f\<lparr>fr_audit := fr_audit (en_frames en n), fr_inserted := fr_inserted (en_frames en n)\<rparr> else f)
          \<lparr>fr_savepoints := fr_savepoints f - 1\<rparr>) en1"
    then show ?thesis using statementsOnlyD[OF statementsOnly_savepointBody[OF assms]] by (fastforce simp: setFrame_log)
  qed
qed

text \<open>A statement of the transaction\<close>

lemma ended_log: "ended w ev r en = (q, en') \<Longrightarrow> en_log en' = en_log en \<and> sameFrames en en'"
  by (auto simp: ended_def sameFrames_def split: prod.splits)

lemma checkStatementFault_log: "checkStatementFault w ev en = (q, en') \<Longrightarrow> en_log en' = en_log en \<and> sameFrames en en'"
  by (auto simp: checkStatementFault_def io_simps sameFrames_def split: option.splits prod.splits dest!: ended_log)

lemma statement_allowed:
  assumes "kind \<noteq> KCommit"
  shows "statementsOnly (frameStatement w n kind tbls sql params) \<and> disciplined (frameStatement w n kind tbls sql params)"
proof
  have check: "statementsOnly (checkStatementFault w ev)" for ev
    by (rule statementsOnlyI) (drule checkStatementFault_log, simp)
  have keeps: "keepsFrame m en (snd (checkStatementFault w ev en))" if "\<not> fr_finished (en_frames en m)" for ev m en
    using checkStatementFault_log[of w ev en "fst (checkStatementFault w ev en)"] that
    by (simp add: keepsFrame_def sameFrames_def Let_def)
  then have check': "disciplined (checkStatementFault w ev)" for ev unfolding disciplined_def by blast
  show "statementsOnly (frameStatement w n kind tbls sql params)"
    unfolding frameStatement_def by (intro statementsOnly_bind statementsOnly_control check assms)
  have "disciplined (control w n kind tbls sql params)"
    unfolding disciplined_def by (intro allI impI control_keeps[OF prod.collapse[symmetric] assms])
  then show "disciplined (frameStatement w n kind tbls sql params)"
    unfolding frameStatement_def by (intro disciplined_bind check')
qed

end
