(* ===== verification/Host.thy ===== *)
theory Host
  imports Keys
begin

section \<open>Host codecs and key rotation (\<open>codec.ts\<close>, \<open>aes.ts\<close>)\<close>

text \<open>
  The codec stages that the client runs itself: hexadecimal text, packed addresses and encryption.
  The functions of the cryptographic library are members of the parameter \<open>crypto\<close>; the random
  nonce of a stage is given by its position. A text is the list of its UTF-8 bytes. The lemmas show
  that decoding gives the encoded text back, that a stored address is read and written as itself,
  and that a row whose keys are rotated decodes to the same values.
\<close>

record crypto =
  cr_sha256 :: "string \<Rightarrow> string"
  cr_hmac :: "string \<Rightarrow> string \<Rightarrow> string"
  cr_seal :: "string \<Rightarrow> string \<Rightarrow> string \<Rightarrow> string \<Rightarrow> string \<times> string" \<comment> \<open>key, nonce, associated data and text to ciphertext and tag\<close>
  cr_open :: "string \<Rightarrow> string \<Rightarrow> string \<Rightarrow> string \<Rightarrow> string \<Rightarrow> string option"

definition plainBytes :: "jsvalue \<Rightarrow> string res" where
  "plainBytes v = (case v of VBytes bs \<Rightarrow> Inr bs | VStr s \<Rightarrow> Inr s | _ \<Rightarrow> fail CODEC_ENCODE)"

definition blindIndex :: "crypto \<Rightarrow> jsvalue \<Rightarrow> string \<Rightarrow> jsvalue res" where
  "blindIndex cr v key =
     (if v = VNull then Inr VNull
      else if key = '''' then fail CONFIG
      else bind_res (plainBytes v) (\<lambda>input. Inr (VStr (toHex hexDigits (cr_hmac cr key input)))))"

subsection \<open>Addresses\<close>

text \<open>\<open>isIP\<close> of \<open>node:net\<close>, on texts without a zone\<close>

definition octet :: "string \<Rightarrow> bool" where
  "octet p \<longleftrightarrow> p \<noteq> [] \<and> list_all (codeIn 48 57) p \<and> read_nat p \<le> 255 \<and> p = show_nat (read_nat p)"

definition isIPv4 :: "string \<Rightarrow> bool" where
  "isIPv4 s \<longleftrightarrow> length (splitS (CHR ''.'') s) = 4 \<and> list_all octet (splitS (CHR ''.'') s)"

definition hexChar :: "char \<Rightarrow> bool" where
  "hexChar c \<longleftrightarrow> codeIn 48 57 c \<or> codeIn 65 70 c \<or> codeIn 97 102 c"

definition hexGroup :: "string \<Rightarrow> bool" where
  "hexGroup g \<longleftrightarrow> g \<noteq> [] \<and> length g \<le> 4 \<and> list_all hexChar g"

text \<open>The number of 16-bit groups of one side; the last one can be a dotted address.\<close>

definition groupCount :: "bool \<Rightarrow> string \<Rightarrow> nat option" where
  "groupCount v4 part =
     (if part = [] then Some 0
      else let ts = splitS (CHR '':'') part in
        if list_all hexGroup ts then Some (length ts)
        else if v4 \<and> list_all hexGroup (butlast ts) \<and> isIPv4 (last ts) then Some (length ts + 1)
        else None)"

text \<open>\<open>split('::')\<close>\<close>

fun splitPairs :: "string \<Rightarrow> string list" where
  "splitPairs [] = [[]]"
| "splitPairs [c] = [[c]]"
| "splitPairs (c # d # rest) =
     (if c = CHR '':'' \<and> d = CHR '':'' then [] # splitPairs rest
      else case splitPairs (d # rest) of p # ps \<Rightarrow> (c # p) # ps | [] \<Rightarrow> [[c]])"

definition isIPv6 :: "string \<Rightarrow> bool" where
  "isIPv6 s =
     (case splitPairs s of
        [part] \<Rightarrow> groupCount True part = Some 8
      | [l, r] \<Rightarrow> (case (groupCount False l, groupCount True r) of (Some a, Some b) \<Rightarrow> a + b \<le> 7 | _ \<Rightarrow> False)
      | _ \<Rightarrow> False)"

definition hexVal :: "char \<Rightarrow> nat" where
  "hexVal c = (if codeIn 48 57 c then of_char c - 48 else if codeIn 65 70 c then of_char c - 55 else of_char c - 87)"

definition readHex :: "string \<Rightarrow> nat" where
  "readHex s = foldl (\<lambda>a c. 16 * a + hexVal c) 0 s"

definition parseToken :: "string \<Rightarrow> nat list res" where
  "parseToken t =
     (if CHR ''.'' \<in> set t then
        (case map read_nat (splitS (CHR ''.'') t) of
           a # b # c # d # _ \<Rightarrow> Inr [a * 256 + b, c * 256 + d]
         | _ \<Rightarrow> fail CODEC_ENCODE)
      else Inr [readHex t])"

definition parsePart :: "string \<Rightarrow> nat list res" where
  "parsePart part =
     (if part = [] then Inr [] else bind_res (mapRes parseToken (splitS (CHR '':'') part)) (\<lambda>gs. Inr (concat gs)))"

definition groupBytes :: "nat \<Rightarrow> string" where
  "groupBytes g = [char_of (g div 256), char_of (g mod 256)]"

definition packGroups :: "nat list \<Rightarrow> string res" where
  "packGroups groups = (if length groups \<noteq> 8 then fail CODEC_ENCODE else Inr (concat (map groupBytes groups)))"

definition packIp :: "string \<Rightarrow> string res" where
  "packIp source =
     (if CHR ''%'' \<in> set source then fail CODEC_ENCODE
      else if isIPv4 source then Inr (map (\<lambda>p. char_of (read_nat p)) (splitS (CHR ''.'') source))
      else if \<not> isIPv6 source then fail CODEC_ENCODE
      else case splitPairs source of
        [part] \<Rightarrow> bind_res (parsePart part) packGroups
      | [l, r] \<Rightarrow>
          bind_res (parsePart l) (\<lambda>left. bind_res (parsePart r) (\<lambda>right.
            packGroups (left @ replicate (8 - length left - length right) 0 @ right)))
      | _ \<Rightarrow> fail CODEC_ENCODE)"

definition dottedText :: "string \<Rightarrow> string" where
  "dottedText bs = joinS ''.'' (map (\<lambda>c. show_nat (of_char c)) bs)"

text \<open>\<open>toString(16)\<close>\<close>

fun showHex :: "nat \<Rightarrow> string" where
  "showHex n = (if n < 16 then [hexDigits ! n] else showHex (n div 16) @ [hexDigits ! (n mod 16)])"

declare showHex.simps [simp del]

fun groupsOf :: "string \<Rightarrow> nat list" where
  "groupsOf (a # b # bs) = (of_char a * 256 + of_char b) # groupsOf bs"
| "groupsOf _ = []"

text \<open>The first longest run of at least two zero groups: \<open>(bestStart, bestLength)\<close>, the length zero for none.\<close>

function bestRun :: "nat list \<Rightarrow> nat \<Rightarrow> nat \<times> nat \<Rightarrow> nat \<times> nat" where
  "bestRun groups index best =
     (case groups of
        [] \<Rightarrow> best
      | g # rest \<Rightarrow>
          if g \<noteq> 0 then bestRun rest (Suc index) best
          else let n = length (takeWhile ((=) 0) groups) in
            bestRun (drop n groups) (index + n) (if n > snd best \<and> n \<ge> 2 then (index, n) else best))"
  by pat_completeness auto
termination by (relation "measure (\<lambda>(gs, i, b). length gs)") auto

declare bestRun.simps [simp del]

definition hexGroups :: "nat list \<Rightarrow> string" where
  "hexGroups gs = joinS '':'' (map showHex gs)"

definition unpackIp :: "string \<Rightarrow> string res" where
  "unpackIp bs =
     (if length bs = 4 then Inr (dottedText bs)
      else if length bs \<noteq> 16 then fail CODEC_DECODE
      else let groups = groupsOf bs; (start, run) = bestRun groups 0 (0, 0) in
        if take 12 bs = replicate 10 (CHR 0x00) @ [CHR 0xFF, CHR 0xFF] then Inr (''::ffff:'' @ dottedText (drop 12 bs))
        else if run = 0 then Inr (hexGroups groups)
        else Inr (hexGroups (take start groups) @ ''::'' @ hexGroups (drop (start + run) groups)))"

subsection \<open>Stages\<close>

definition upperHex :: string where
  "upperHex = ''0123456789ABCDEF''"

definition aesPrefix :: string where
  "aesPrefix = ''ORM-AES2'' @ [CHR 0x00]"

definition aesV2Key :: "crypto \<Rightarrow> string \<Rightarrow> string" where
  "aesV2Key cr key = cr_sha256 cr (''polyspec/orm/aes-256-gcm/v2'' @ [CHR 0x00] @ key)"

definition encodeStage :: "crypto \<Rightarrow> string \<Rightarrow> string \<Rightarrow> string \<Rightarrow> string \<Rightarrow> string res" where
  "encodeStage cr aesKey nonce current style =
     (if style = ''aes'' then
        (if aesKey = '''' then fail CONFIG
         else case cr_seal cr (aesV2Key cr aesKey) nonce aesPrefix current of
           (encrypted, tag) \<Rightarrow> Inr (aesPrefix @ nonce @ encrypted @ tag))
      else if style = ''hex'' then Inr (toHex upperHex current)
      else packIp (utf8Lossy current))"

fun encodeStages :: "crypto \<Rightarrow> string \<Rightarrow> (nat \<Rightarrow> string) \<Rightarrow> nat \<Rightarrow> string list \<Rightarrow> string \<Rightarrow> string res" where
  "encodeStages cr aesKey nonces i [] current = Inr current"
| "encodeStages cr aesKey nonces i (style # styles) current =
     bind_res (encodeStage cr aesKey (nonces i) current style) (encodeStages cr aesKey nonces (Suc i) styles)"

definition hostStyles :: "string list" where
  "hostStyles = [''aes'', ''hex'', ''ip'']"

definition hostEncode :: "crypto \<Rightarrow> (nat \<Rightarrow> string) \<Rightarrow> jsvalue \<Rightarrow> string list \<Rightarrow> string \<Rightarrow> jsvalue res" where
  "hostEncode cr nonces v styles aesKey =
     (if styles = [] then fail CODEC_ENCODE
      else if \<not> list_all (\<lambda>s. s \<in> set hostStyles) styles then fail CODEC_UNSUPPORTED
      else if v = VNull then Inr VNull
      else bind_res (plainBytes v) (\<lambda>current.
        bind_res (encodeStages cr aesKey nonces 0 styles current) (\<lambda>out.
          Inr (if last styles = ''hex'' then VStr (utf8Lossy out) else VBytes out))))"

text \<open>\<open>Buffer.from(source, 'hex')\<close> of a text of upper-case digits\<close>

fun fromHex :: "string \<Rightarrow> string" where
  "fromHex (a # b # rest) = char_of (hexVal a * 16 + hexVal b) # fromHex rest"
| "fromHex _ = []"

definition openEnvelope :: "crypto \<Rightarrow> string \<Rightarrow> string \<Rightarrow> string res" where
  "openEnvelope cr aesKey current =
     (let n = length aesPrefix in
      if aesKey = '''' then fail CONFIG
      else if take n current \<noteq> aesPrefix then fail CODEC_DECODE
      else if length current < n + 12 + 16 then fail CODEC_DECODE
      else
        (let m = length current - 16 in
         orFail (cr_open cr (aesV2Key cr aesKey) (take 12 (drop n current)) aesPrefix
           (drop (n + 12) (take m current)) (drop m current)) CODEC_DECODE))"

text \<open>The stages in reverse order; the first one of a packed address ends the loop.\<close>

fun decodeStages :: "crypto \<Rightarrow> string \<Rightarrow> string list \<Rightarrow> string \<Rightarrow> string res" where
  "decodeStages cr aesKey [] current = Inr (utf8Lossy current)"
| "decodeStages cr aesKey (style # styles) current =
     (if style = ''hex'' then
        (if odd (length current) \<or> \<not> list_all (\<lambda>c. codeIn 48 57 c \<or> codeIn 65 70 c) current then fail CODEC_DECODE
         else decodeStages cr aesKey styles (fromHex current))
      else if style = ''aes'' then bind_res (openEnvelope cr aesKey current) (decodeStages cr aesKey styles)
      else if style = ''ip'' then unpackIp current
      else fail CODEC_UNSUPPORTED)"

definition hostDecode :: "crypto \<Rightarrow> jsvalue \<Rightarrow> string list \<Rightarrow> string \<Rightarrow> jsvalue res" where
  "hostDecode cr raw styles aesKey =
     (case raw of
        VStr s \<Rightarrow> bind_res (decodeStages cr aesKey (rev styles) s) (\<lambda>t. Inr (VStr t))
      | VBytes s \<Rightarrow> bind_res (decodeStages cr aesKey (rev styles) s) (\<lambda>t. Inr (VStr t))
      | _ \<Rightarrow> Inr VNull)"

subsection \<open>Key rotation\<close>

text \<open>\<open>Number(value)\<close> of a number, a bigint or a text of digits, checked to be a positive 32-bit integer\<close>

definition storedVersion :: "jsvalue \<Rightarrow> int res" where
  "storedVersion v =
     (case (case v of
              VInt n \<Rightarrow> Some n
            | VStr s \<Rightarrow> if s \<noteq> [] \<and> list_all (codeIn 48 57) s then Some (int (read_nat s)) else None
            | _ \<Rightarrow> None) of
        Some n \<Rightarrow> if n < 1 \<or> 2147483647 < n then fail CODEC_DECODE else Inr n
      | None \<Rightarrow> fail CODEC_DECODE)"

record keyring =
  kg_keys :: "(int \<times> string) list"
  kg_currentVersion :: int

definition newKeyring :: "(int \<times> string) list \<Rightarrow> int \<Rightarrow> keyring res" where
  "newKeyring keys currentVersion =
     (if \<not> isSafeInteger currentVersion \<or> currentVersion < 1 \<or> map_of keys currentVersion = None then fail CONFIG
      else if list_ex (\<lambda>(version, key). \<not> isSafeInteger version \<or> version < 1 \<or> key = []) keys then fail CONFIG
      else Inr \<lparr>kg_keys = keys, kg_currentVersion = currentVersion\<rparr>)"

definition versions :: "keyring \<Rightarrow> int list" where
  "versions ring = sort (map fst (kg_keys ring))"

definition keyOf :: "keyring \<Rightarrow> int \<Rightarrow> string res" where
  "keyOf ring version = orFail (map_of (kg_keys ring) version) CONFIG"

record rowcodec =
  rc_decode :: "jsvalue \<Rightarrow> string list \<Rightarrow> string \<Rightarrow> jsvalue res"
  rc_encode :: "jsvalue \<Rightarrow> string list \<Rightarrow> string \<Rightarrow> jsvalue res"

text \<open>One column: \<open>keys\<close> are the old and the new key, once they were read.\<close>

definition rotateColumn ::
    "keyring \<Rightarrow> (string \<times> jsvalue) list \<Rightarrow> string \<Rightarrow> int \<Rightarrow> rowcodec
       \<Rightarrow> (string \<times> jsvalue) list \<times> (string \<times> string) option \<Rightarrow> string \<times> string list
       \<Rightarrow> ((string \<times> jsvalue) list \<times> (string \<times> string) option) res" where
  "rotateColumn ring row versionColumn target codec st column =
     (case (st, column) of
        ((out, keys), (name, styles)) \<Rightarrow>
          (case map_of row name of
             None \<Rightarrow> fail INTERNAL
           | Some value \<Rightarrow>
               if value = VNull then Inr (out, keys)
               else
                 bind_res
                   (case keys of
                      Some ks \<Rightarrow> Inr ks
                    | None \<Rightarrow>
                        bind_res (present (map_of row versionColumn)) (\<lambda>stored.
                        bind_res (bind_res (storedVersion stored) (keyOf ring)) (\<lambda>old.
                        bind_res (keyOf ring target) (\<lambda>new. Inr (old, new))))) (\<lambda>(old, new).
                 bind_res (rc_decode codec value styles old) (\<lambda>plain.
                 bind_res (rc_encode codec plain styles new) (\<lambda>cipher.
                   Inr (map_set name cipher out, Some (old, new)))))))"

definition rotateRow ::
    "keyring \<Rightarrow> (string \<times> jsvalue) list \<Rightarrow> string \<Rightarrow> (string \<times> string list) list \<Rightarrow> int \<Rightarrow> rowcodec
       \<Rightarrow> (string \<times> jsvalue) list res" where
  "rotateRow ring row versionColumn columns target codec =
     (if map_of row versionColumn = None then fail INTERNAL
      else bind_res (foldRes (rotateColumn ring row versionColumn target codec) (row, None) columns) (\<lambda>(out, keys).
        Inr (if keys = None then out else map_set versionColumn (VInt target) out)))"

subsection \<open>Decoding gives the text back\<close>

text \<open>What the client relies on from the library: a sealed text opens with its key, and a tag has 16 bytes.\<close>

definition lawfulCrypto :: "crypto \<Rightarrow> (nat \<Rightarrow> string) \<Rightarrow> bool" where
  "lawfulCrypto cr nonces \<longleftrightarrow> (\<forall>i. length (nonces i) = 12) \<and>
     (\<forall>k n a p. length (snd (cr_seal cr k n a p)) = 16 \<and>
        cr_open cr k n a (fst (cr_seal cr k n a p)) (snd (cr_seal cr k n a p)) = Some p)"

lemma hexVal_upper: "n < 16 \<Longrightarrow> hexVal (upperHex ! n) = n"
  by (auto simp: upperHex_def hexVal_def codeIn_def less_Suc_eq numeral_eq_Suc)

lemma upperHex_char: "n < 16 \<Longrightarrow> codeIn 48 57 (upperHex ! n) \<or> codeIn 65 70 (upperHex ! n)"
  by (auto simp: upperHex_def codeIn_def less_Suc_eq numeral_eq_Suc)

lemma byte_halves: "(of_char c :: nat) div 16 < 16" "(of_char c :: nat) mod 16 < 16"
  using of_char_less_256[of c] by (simp_all add: less_mult_imp_div_less)

lemma fromHex_toHex: "fromHex (toHex upperHex bs) = bs"
proof (induction bs)
  case (Cons c bs)
  have "char_of ((of_char c :: nat) div 16 * 16 + of_char c mod 16) = c" by simp
  with Cons show ?case using byte_halves[of c] by (simp add: toHex_def hexByte_def hexVal_upper)
qed (simp add: toHex_def)

lemma toHex_upper: "even (length (toHex upperHex bs)) \<and> list_all (\<lambda>c. codeIn 48 57 c \<or> codeIn 65 70 c) (toHex upperHex bs)"
  using byte_halves upperHex_char by (induction bs) (auto simp: toHex_def hexByte_def)

lemma upper_utf8: "list_all (\<lambda>c. codeIn 48 57 c \<or> codeIn 65 70 c) s \<Longrightarrow> utf8Lossy s = s"
  using ascii_isUtf8[of s] by (force simp: isUtf8_def list_all_iff codeIn_def)

lemma open_sealed:
  assumes "lawfulCrypto cr nonces" and "aesKey \<noteq> ''''" and "encodeStage cr aesKey (nonces i) current ''aes'' = Inr out"
  shows "openEnvelope cr aesKey out = Inr current"
proof -
  obtain e t where s: "cr_seal cr (aesV2Key cr aesKey) (nonces i) aesPrefix current = (e, t)" by fastforce
  with assms(1) have law: "length t = 16" "cr_open cr (aesV2Key cr aesKey) (nonces i) aesPrefix e t = Some current" "length (nonces i) = 12"
    unfolding lawfulCrypto_def by (metis fst_conv snd_conv)+
  have out: "out = aesPrefix @ nonces i @ e @ t" using assms(2,3) s by (simp add: encodeStage_def)
  with law assms(2) show ?thesis by (simp add: openEnvelope_def Let_def orFail_def)
qed

text \<open>The stages after the first can be undone whatever the first one was.\<close>

lemma decode_encoded_stages:
  assumes "lawfulCrypto cr nonces" and "aesKey \<noteq> ''''"
  shows "set styles \<subseteq> {''aes'', ''hex''} \<Longrightarrow> encodeStages cr aesKey nonces i styles current = Inr out \<Longrightarrow>
    decodeStages cr aesKey (rev styles @ rest) out = decodeStages cr aesKey rest current"
proof (induction styles arbitrary: i current rest)
  case (Cons style styles)
  obtain c1 where c1: "encodeStage cr aesKey (nonces i) current style = Inr c1" "encodeStages cr aesKey nonces (Suc i) styles c1 = Inr out"
    using Cons.prems(2) by (auto simp: res_simps)
  have "decodeStages cr aesKey (rev styles @ style # rest) out = decodeStages cr aesKey (style # rest) c1"
    using Cons.IH[OF _ c1(2)] Cons.prems(1) by simp
  moreover have "decodeStages cr aesKey (style # rest) c1 = decodeStages cr aesKey rest current"
  proof (cases "style = ''aes''")
    case True
    with open_sealed[OF assms, of i current c1] c1(1) show ?thesis by simp
  next
    case False
    with Cons.prems(1) have "style = ''hex''" by auto
    with c1(1) toHex_upper[of current] fromHex_toHex[of current] show ?thesis by (auto simp: encodeStage_def)
  qed
  ultimately show ?case by simp
qed simp

lemma encodeStages_hex:
  assumes "encodeStages cr aesKey nonces i styles current = Inr out" and "styles \<noteq> []" and "last styles = ''hex''"
  shows "utf8Lossy out = out"
  using assms
proof (induction styles arbitrary: i current)
  case (Cons style styles)
  show ?case
  proof (cases "styles = []")
    case True
    with Cons.prems have "out = toHex upperHex current" by (simp add: encodeStage_def)
    with toHex_upper upper_utf8 show ?thesis by blast
  next
    case False
    with Cons show ?thesis by (auto simp: res_simps)
  qed
qed simp

subsection \<open>Dotted addresses\<close>

lemma char_of_octet: "octet p \<Longrightarrow> show_nat (of_char (char_of (read_nat p) :: char)) = p"
  by (auto simp: octet_def)

lemma unpack_dotted:
  assumes "isIPv4 s" and "packIp s = Inr bs"
  shows "unpackIp bs = Inr s"
proof -
  let ?ps = "splitS (CHR ''.'') s"
  have ps: "length ?ps = 4" "list_all octet ?ps" using assms(1) by (simp_all add: isIPv4_def)
  have "bs = map (\<lambda>p. char_of (read_nat p)) ?ps"
    using assms by (auto simp: packIp_def split: if_splits)
  moreover have "map (\<lambda>p. show_nat (of_char (char_of (read_nat p) :: char))) ?ps = ?ps"
    using ps(2) char_of_octet by (simp add: list_all_iff map_idI)
  ultimately show ?thesis using ps(1) joinS_splitS[of "CHR ''.''" s] by (simp add: unpackIp_def dottedText_def comp_def)
qed

text \<open>Encoding a text with any of the stages and decoding it gives the text.\<close>

lemma hostDecode_hostEncode:
  assumes crypto: "lawfulCrypto cr nonces" "aesKey \<noteq> ''''" and "isUtf8 s"
    and enc: "hostEncode cr nonces (VStr s) styles aesKey = Inr v"
    and ip: "set (tl styles) \<subseteq> {''aes'', ''hex''}" "hd styles = ''ip'' \<longrightarrow> isIPv4 s"
  shows "hostDecode cr v styles aesKey = Inr (VStr s)"
proof -
  have styles: "styles \<noteq> []" "set styles \<subseteq> set hostStyles" using enc by (auto simp: hostEncode_def list_all_iff split: if_splits)
  obtain out where out: "encodeStages cr aesKey nonces 0 styles s = Inr out" "v = (if last styles = ''hex'' then VStr (utf8Lossy out) else VBytes out)"
    using enc by (auto simp: hostEncode_def plainBytes_def res_simps split: if_splits)
  have v: "hostDecode cr v styles aesKey = bind_res (decodeStages cr aesKey (rev styles) out) (\<lambda>t. Inr (VStr t))"
    using encodeStages_hex[OF out(1) styles(1)] out(2) by (simp add: hostDecode_def)
  obtain first rest where fr: "styles = first # rest" using styles(1) by (cases styles) auto
  then obtain c1 where c1: "encodeStage cr aesKey (nonces 0) s first = Inr c1" "encodeStages cr aesKey nonces 1 rest c1 = Inr out"
    using out(1) by (auto simp: res_simps)
  have dec: "decodeStages cr aesKey (rev styles) out = decodeStages cr aesKey [first] c1"
    using decode_encoded_stages[OF crypto _ c1(2)] ip(1) fr by simp
  have "decodeStages cr aesKey [first] c1 = Inr s"
  proof (cases "first = ''ip''")
    case True
    with c1(1) assms(3) have "packIp s = Inr c1" by (simp add: encodeStage_def isUtf8_def)
    with unpack_dotted[of s c1] ip(2) fr True show ?thesis by simp
  next
    case False
    with styles(2) fr have "set [first] \<subseteq> {''aes'', ''hex''}" by (auto simp: hostStyles_def)
    moreover have "encodeStages cr aesKey nonces 0 [first] s = Inr c1" using c1(1) by simp
    ultimately show ?thesis using decode_encoded_stages[OF crypto, of "[first]" 0 s c1 "[]"] assms(3) by (simp add: isUtf8_def)
  qed
  with dec v show ?thesis by simp
qed

subsection \<open>Stored addresses\<close>

lemma hexVal_digit:
  assumes "n < 16"
  shows "hexVal (hexDigits ! n) = n \<and> hexChar (hexDigits ! n)"
proof -
  have "list_all (\<lambda>n. hexVal (hexDigits ! n) = n \<and> hexChar (hexDigits ! n)) [0..<16]" by code_simp
  with assms show ?thesis by (auto simp: list_all_iff)
qed

lemma readHex_snoc: "readHex (s @ [c]) = 16 * readHex s + hexVal c"
  by (simp add: readHex_def)

lemma showHex_read: "readHex (showHex n) = n \<and> list_all hexChar (showHex n) \<and> showHex n \<noteq> []"
proof (induction n rule: showHex.induct)
  case (1 n)
  show ?case
  proof (cases "n < 16")
    case True
    then show ?thesis using hexVal_digit[of n] by (subst (1 2 3) showHex.simps) (simp add: readHex_def)
  next
    case False
    with 1 hexVal_digit[of "n mod 16"] show ?thesis by (subst (1 2 3) showHex.simps) (simp add: readHex_snoc)
  qed
qed

lemma showHex_length: "n < 16 ^ Suc k \<Longrightarrow> length (showHex n) \<le> Suc k"
proof (induction k arbitrary: n)
  case 0
  then show ?case by (subst showHex.simps) simp
next
  case (Suc k)
  show ?case
  proof (cases "n < 16")
    case True
    then show ?thesis by (subst showHex.simps) simp
  next
    case False
    have "n div 16 < 16 ^ Suc k" using Suc.prems by (simp add: less_mult_imp_div_less)
    from Suc.IH[OF this] False show ?thesis by (subst showHex.simps) simp
  qed
qed

lemma showHex_group: "g < 65536 \<Longrightarrow> hexGroup (showHex g)"
  using showHex_read[of g] showHex_length[of g 3] by (simp add: hexGroup_def)

lemma hexChar_plain: "hexChar c \<Longrightarrow> c \<noteq> CHR '':'' \<and> c \<noteq> CHR ''.'' \<and> c \<noteq> CHR ''%''"
  by (auto simp: hexChar_def codeIn_def)

lemma showHex_plain: "CHR '':'' \<notin> set (showHex g)" "CHR ''.'' \<notin> set (showHex g)" "CHR ''%'' \<notin> set (showHex g)"
  using showHex_read[of g] hexChar_plain by (auto simp: list_all_iff)

text \<open>The groups of a part are read back from its text.\<close>

lemma hexGroups_split: "gs \<noteq> [] \<Longrightarrow> splitS (CHR '':'') (hexGroups gs) = map showHex gs"
  unfolding hexGroups_def by (rule splitS_joinS) (auto simp: showHex_plain)

lemma hexGroups_Cons: "hexGroups (g # gs) = showHex g @ (if gs = [] then [] else CHR '':'' # hexGroups gs)"
  by (cases gs) (auto simp: hexGroups_def)

lemma hexGroups_empty: "hexGroups gs = [] \<longleftrightarrow> gs = []"
proof (cases gs)
  case (Cons g rest)
  with showHex_read[of g] show ?thesis by (simp add: hexGroups_Cons)
qed (simp add: hexGroups_def)

lemma hexGroups_parse: "parsePart (hexGroups gs) = Inr gs"
proof (cases "gs = []")
  case False
  have "mapRes parseToken (map showHex gs) = Inr (map (\<lambda>g. [g]) gs)" for gs
    by (induction gs) (auto simp: parseToken_def showHex_plain showHex_read)
  with False show ?thesis by (simp add: parsePart_def hexGroups_empty hexGroups_split)
qed (simp add: parsePart_def hexGroups_def)

lemma hexGroups_count:
  assumes "\<forall>g \<in> set gs. g < 65536"
  shows "groupCount v4 (hexGroups gs) = Some (length gs)"
proof (cases "gs = []")
  case False
  have "list_all hexGroup (map showHex gs)" using assms showHex_group by (simp add: list_all_iff)
  with False show ?thesis by (simp add: groupCount_def hexGroups_empty hexGroups_split)
qed (simp add: groupCount_def hexGroups_def)

text \<open>The text of an address splits at its double colon only.\<close>

lemma splitPairs_nonempty: "splitPairs s \<noteq> []"
  by (induction s rule: splitPairs.induct) (auto split: list.splits)

lemma splitPairs_char: "c \<noteq> CHR '':'' \<Longrightarrow> splitPairs (c # t) = (c # hd (splitPairs t)) # tl (splitPairs t)"
  by (cases t) (auto split: list.splits simp: splitPairs_nonempty)

lemma splitPairs_colon:
  "t \<noteq> [] \<Longrightarrow> hd t \<noteq> CHR '':'' \<Longrightarrow> splitPairs (CHR '':'' # t) = (CHR '':'' # hd (splitPairs t)) # tl (splitPairs t)"
  by (cases t) (auto split: list.splits simp: splitPairs_nonempty)

lemma splitPairs_plain: "CHR '':'' \<notin> set p \<Longrightarrow> splitPairs (p @ t) = (p @ hd (splitPairs t)) # tl (splitPairs t)"
  by (induction p) (auto simp: splitPairs_nonempty splitPairs_char)

lemma splitPairs_double: "splitPairs (CHR '':'' # CHR '':'' # r) = [] # splitPairs r"
  by simp

lemma hexGroups_hd: "gs \<noteq> [] \<Longrightarrow> hd (hexGroups gs @ t) \<noteq> CHR '':''"
proof (cases gs)
  case (Cons g rest)
  have "hd (showHex g) \<in> set (showHex g)" using showHex_read[of g] by simp
  then have "hd (showHex g) \<noteq> CHR '':''" using showHex_plain(1)[of g] by metis
  with Cons show ?thesis using showHex_read[of g] by (simp add: hexGroups_Cons)
qed simp

lemma splitPairs_groups:
  assumes "t = [] \<or> (\<exists>r. t = CHR '':'' # CHR '':'' # r)"
  shows "splitPairs (hexGroups gs @ t) = (hexGroups gs @ hd (splitPairs t)) # tl (splitPairs t)"
proof (induction gs)
  case Nil
  then show ?case by (simp add: hexGroups_def splitPairs_nonempty)
next
  case (Cons g gs)
  show ?case
  proof (cases "gs = []")
    case True
    then show ?thesis using splitPairs_plain[OF showHex_plain(1)] by (simp add: hexGroups_Cons)
  next
    case False
    then have "splitPairs (CHR '':'' # hexGroups gs @ t) = (CHR '':'' # hexGroups gs @ hd (splitPairs t)) # tl (splitPairs t)"
      using splitPairs_colon[of "hexGroups gs @ t"] hexGroups_hd[of gs t] Cons by (simp add: hexGroups_empty)
    with False show ?thesis using splitPairs_plain[OF showHex_plain(1), of g "CHR '':'' # hexGroups gs @ t"]
      by (simp add: hexGroups_Cons)
  qed
qed

lemma joinS_chars: "c \<in> set (joinS [sep] ps) \<Longrightarrow> c \<noteq> sep \<Longrightarrow> \<exists>p \<in> set ps. c \<in> set p"
  by (induction "[sep]" ps rule: joinS.induct) auto

lemma split_chars: "c \<in> set s \<Longrightarrow> c \<noteq> sep \<Longrightarrow> \<exists>p \<in> set (splitS sep s). c \<in> set p"
  by (metis joinS_splitS joinS_chars)

lemma colon_not_dotted:
  assumes "CHR '':'' \<in> set s"
  shows "\<not> isIPv4 s"
proof
  assume "isIPv4 s"
  moreover from split_chars[OF assms, of "CHR ''.''"] obtain p where "p \<in> set (splitS (CHR ''.'') s)" "CHR '':'' \<in> set p" by auto
  ultimately have "codeIn 48 57 (CHR '':'')" by (auto simp: isIPv4_def octet_def list_all_iff)
  then show False by (simp add: codeIn_def)
qed

lemma hexGroups_percent: "CHR ''%'' \<notin> set (hexGroups gs)"
proof (induction gs)
  case (Cons g gs)
  then show ?case by (auto simp: hexGroups_Cons showHex_plain)
qed (simp add: hexGroups_def)

text \<open>The bytes of the groups\<close>

lemma groups_facts: "\<forall>g \<in> set (groupsOf bs). g < 65536" "length (groupsOf bs) = length bs div 2"
proof (induction bs rule: groupsOf.induct)
  case (1 a b bs)
  {
    case 1
    have "(of_char a * 256 + of_char b :: nat) < 65536" using of_char_less_256[of a] of_char_less_256[of b] by linarith
    with "1.IH"(1) show ?case by simp
  next
    case 2
    then show ?case using "1.IH"(2) by simp
  }
qed simp_all

lemma groupBytes_groups: "even (length bs) \<Longrightarrow> concat (map groupBytes (groupsOf bs)) = bs"
proof (induction bs rule: groupsOf.induct)
  case (1 a b bs)
  have "(of_char a * 256 + of_char b :: nat) div 256 = of_char a" "(of_char a * 256 + of_char b :: nat) mod 256 = of_char b"
    using of_char_less_256[of b] by simp_all
  then have "groupBytes (of_char a * 256 + of_char b) = [a, b]" unfolding groupBytes_def by (simp only: char_of_char)
  with 1 show ?case by simp
qed auto

text \<open>The run that is left out consists of zeros.\<close>

definition zeroRun :: "nat list \<Rightarrow> nat \<times> nat \<Rightarrow> bool" where
  "zeroRun gs best \<longleftrightarrow> (snd best = 0 \<or> 2 \<le> snd best) \<and> fst best + snd best \<le> length gs \<and>
     take (snd best) (drop (fst best) gs) = replicate (snd best) 0"

lemma takeWhile_zeros: "takeWhile ((=) 0) gs = replicate (length (takeWhile ((=) 0) gs)) (0::nat)"
  by (induction gs) auto

lemma bestRun_zero: "zeroRun gs best \<Longrightarrow> index \<le> length gs \<Longrightarrow> groups = drop index gs \<Longrightarrow> zeroRun gs (bestRun groups index best)"
proof (induction groups index best rule: bestRun.induct)
  case (1 groups index best)
  show ?case
  proof (cases groups)
    case Nil
    with 1 show ?thesis by (subst bestRun.simps) simp
  next
    case (Cons g rest)
    have i: "index < length gs" using Cons 1(5) by (cases "index < length gs") auto
    have rest: "rest = drop (Suc index) gs" using Cons 1(5) by (metis drop_Suc list.sel(3) tl_drop)
    show ?thesis
    proof (cases "g = 0")
      case False
      with 1(1)[OF Cons False 1(3) _ rest] i Cons show ?thesis by (subst bestRun.simps) simp
    next
      case True
      let ?n = "length (takeWhile ((=) 0) groups)"
      let ?best = "if ?n > snd best \<and> ?n \<ge> 2 then (index, ?n) else best"
      have n: "index + ?n \<le> length gs" "take ?n (drop index gs) = replicate ?n 0"
        using 1(5) i length_takeWhile_le[of "(=) 0" groups] takeWhile_zeros[of groups] takeWhile_eq_take[of "(=) 0" groups] by auto
      have "zeroRun gs ?best" using 1(3) n by (auto simp: zeroRun_def)
      moreover have "drop ?n groups = drop (index + ?n) gs" using 1(5) by (simp add: add.commute)
      ultimately have "zeroRun gs (bestRun (drop ?n groups) (index + ?n) ?best)"
        using 1(2)[OF Cons _ refl _ n(1)] True by simp
      moreover have "bestRun groups index best = bestRun (drop ?n groups) (index + ?n) ?best"
        by (subst bestRun.simps) (simp only: Cons True list.case Let_def refl not_True_eq_False if_False)
      ultimately show ?thesis by simp
    qed
  qed
qed

lemma zeroRun_split:
  assumes "zeroRun gs (start, run)"
  shows "gs = take start gs @ replicate run 0 @ drop (start + run) gs"
proof -
  have "drop start gs = take run (drop start gs) @ drop run (drop start gs)" by (rule append_take_drop_id[symmetric])
  also have "\<dots> = replicate run 0 @ drop (start + run) gs" using assms by (simp add: zeroRun_def add.commute)
  finally show ?thesis by (metis append_take_drop_id)
qed

text \<open>The two ways to write an address of groups\<close>

lemma pack_groups:
  assumes "\<forall>g \<in> set gs. g < 65536" and "length gs = 8"
  shows "packIp (hexGroups gs) = Inr (concat (map groupBytes gs))"
proof -
  obtain a b rest where gs: "gs = a # b # rest" using assms(2) by (auto simp: numeral_eq_Suc length_Suc_conv)
  have "splitPairs (hexGroups gs) = [hexGroups gs]" using splitPairs_groups[of "[]" gs] by simp
  moreover have "CHR '':'' \<in> set (hexGroups gs)" using gs by (simp add: hexGroups_Cons)
  ultimately show ?thesis
    using assms colon_not_dotted hexGroups_percent[of gs] hexGroups_count[OF assms(1), of True]
    by (simp add: packIp_def isIPv6_def hexGroups_parse packGroups_def)
qed

lemma pack_run:
  assumes "\<forall>g \<in> set l \<union> set r. g < 65536" and "length l + run + length r = 8" and "2 \<le> run"
  shows "packIp (hexGroups l @ ''::'' @ hexGroups r) = Inr (concat (map groupBytes (l @ replicate run 0 @ r)))"
proof -
  let ?s = "hexGroups l @ ''::'' @ hexGroups r"
  have "splitPairs ?s = [hexGroups l, hexGroups r]"
    using splitPairs_groups[of "''::'' @ hexGroups r" l] splitPairs_groups[of "[]" r] by simp
  moreover have "8 - length l - length r = run" using assms(2) by simp
  moreover have "groupCount False (hexGroups l) = Some (length l)" "groupCount True (hexGroups r) = Some (length r)"
    using assms(1) hexGroups_count by auto
  moreover have "CHR ''%'' \<notin> set ?s" "\<not> isIPv4 ?s" using hexGroups_percent colon_not_dotted[of ?s] by auto
  ultimately show ?thesis using assms(2,3) by (simp add: packIp_def isIPv6_def hexGroups_parse packGroups_def)
qed

text \<open>The address of a dotted one\<close>

lemma dotted_split: "bs \<noteq> [] \<Longrightarrow> splitS (CHR ''.'') (dottedText bs) = map (\<lambda>c. show_nat (of_char c)) bs"
proof -
  assume "bs \<noteq> []"
  moreover have "CHR ''.'' \<notin> set (show_nat n)" for n by (rule show_nat_no_char) simp
  ultimately show ?thesis unfolding dottedText_def by (intro splitS_joinS) auto
qed

lemma octet_show: "n \<le> 255 \<Longrightarrow> octet (show_nat n)"
  using show_nat_digits[of n] by (auto simp: octet_def list_all_iff codeIn_def)

lemma dotted_facts:
  assumes "length bs = 4"
  shows "isIPv4 (dottedText bs)" "CHR '':'' \<notin> set (dottedText bs)" "CHR ''.'' \<in> set (dottedText bs)" "CHR ''%'' \<notin> set (dottedText bs)"
proof -
  obtain a b c d where bs: "bs = [a, b, c, d]" using assms by (auto simp: numeral_eq_Suc length_Suc_conv)
  have "of_char x \<le> (255 :: nat)" for x using of_char_less_256[of x] by linarith
  then show "isIPv4 (dottedText bs)" using bs by (simp add: isIPv4_def dotted_split octet_show)
  then show "CHR '':'' \<notin> set (dottedText bs)" using colon_not_dotted by blast
  show "CHR ''.'' \<in> set (dottedText bs)" "CHR ''%'' \<notin> set (dottedText bs)"
    using bs show_nat_no_char[of "CHR ''%''"] by (simp_all add: dottedText_def)
qed

lemma pack_mapped:
  assumes "length bs = 4"
  shows "packIp (''::ffff:'' @ dottedText bs) = Inr (replicate 10 (CHR 0x00) @ [CHR 0xFF, CHR 0xFF] @ bs)"
proof -
  let ?d = "dottedText bs" and ?s = "''::ffff:'' @ dottedText bs"
  obtain a b c d where bs: "bs = [a, b, c, d]" using assms by (auto simp: numeral_eq_Suc length_Suc_conv)
  note d = dotted_facts[OF assms]
  have "?d \<noteq> []" using d(3) by auto
  moreover from this have "hd ?d \<in> set ?d" by simp
  ultimately have ne: "?d \<noteq> []" "hd ?d \<noteq> CHR '':''" using d(2) by metis+
  have pairs: "splitPairs ?s = [[], ''ffff:'' @ ?d]"
    using splitPairs_plain[OF d(2), of "[]"] splitPairs_colon[OF ne] splitPairs_plain[of "''ffff''" "CHR '':'' # ?d"] by simp
  have split: "splitS (CHR '':'') (''ffff:'' @ ?d) = [''ffff'', ?d]"
    using splitS_single[OF d(2)] by simp
  have "\<not> hexGroup ?d" using d(3) hexChar_plain by (auto simp: hexGroup_def list_all_iff)
  moreover have "hexGroup ''ffff''" by code_simp
  ultimately have count: "groupCount False [] = Some 0" "groupCount True (''ffff:'' @ ?d) = Some 3"
    using split d(1) by (simp_all add: groupCount_def)
  have parse: "parsePart (''ffff:'' @ ?d) = Inr [65535, of_char a * 256 + of_char b, of_char c * 256 + of_char d]"
  proof -
    have "readHex ''ffff'' = 65535" by (simp add: readHex_def hexVal_def codeIn_def)
    with split d(3) bs show ?thesis by (simp add: parsePart_def parseToken_def dotted_split)
  qed
  have pair: "groupBytes (of_char x * 256 + of_char y) = [x, y]" for x y using groupBytes_groups[of "[x, y]"] by simp
  then have "groupBytes 65535 = [CHR 0xFF, CHR 0xFF]" "groupBytes 0 = [CHR 0x00, CHR 0x00]"
    using pair[of "CHR 0xFF" "CHR 0xFF"] pair[of "CHR 0x00" "CHR 0x00"] by simp_all
  moreover from this(2) have "concat (map groupBytes (replicate 5 0)) = replicate 10 (CHR 0x00)"
    by (simp add: numeral_eq_Suc)
  moreover have "parsePart [] = Inr []" by (simp add: parsePart_def)
  moreover have "CHR ''%'' \<notin> set ?s" "\<not> isIPv4 ?s" using d(4) colon_not_dotted[of ?s] by auto
  moreover have "isIPv6 ?s" using pairs count by (simp add: isIPv6_def)
  ultimately show ?thesis using pairs parse bs pair by (simp add: packIp_def packGroups_def)
qed

lemma pack_unpack:
  assumes "length bs = 4 \<or> length bs = 16"
  shows "\<exists>t. unpackIp bs = Inr t \<and> packIp t = Inr bs"
proof (cases "length bs = 4")
  case True
  then have "bs \<noteq> []" by auto
  then have "map (\<lambda>p. char_of (read_nat p)) (splitS (CHR ''.'') (dottedText bs)) = bs"
    by (simp add: dotted_split comp_def)
  with True dotted_facts[OF True] show ?thesis by (simp add: unpackIp_def packIp_def)
next
  case False
  with assms have len: "length bs = 16" by simp
  let ?gs = "groupsOf bs"
  have gs: "\<forall>g \<in> set ?gs. g < 65536" "length ?gs = 8" "concat (map groupBytes ?gs) = bs"
    using groups_facts[of bs] groupBytes_groups[of bs] len by auto
  obtain start run where best: "bestRun ?gs 0 (0, 0) = (start, run)" by fastforce
  have zero: "zeroRun ?gs (start, run)" using bestRun_zero[of ?gs "(0, 0)" 0 ?gs] best by (simp add: zeroRun_def)
  show ?thesis
  proof (cases "take 12 bs = replicate 10 (CHR 0x00) @ [CHR 0xFF, CHR 0xFF]")
    case True
    have "bs = take 12 bs @ drop 12 bs" by simp
    with True pack_mapped[of "drop 12 bs"] len False best show ?thesis by (simp add: unpackIp_def)
  next
    case unmapped: False
    show ?thesis
    proof (cases "run = 0")
      case True
      with pack_groups[OF gs(1,2)] gs(3) len False best unmapped show ?thesis by (simp add: unpackIp_def)
    next
      case ne: False
      let ?l = "take start ?gs" and ?r = "drop (start + run) ?gs"
      have "\<forall>g \<in> set ?l \<union> set ?r. g < 65536" using gs(1) by (auto dest: in_set_takeD in_set_dropD)
      moreover have "length ?l + run + length ?r = 8" "2 \<le> run" using zero gs(2) ne by (auto simp: zeroRun_def)
      ultimately have "packIp (hexGroups ?l @ ''::'' @ hexGroups ?r) = Inr bs"
        using pack_run[of ?l ?r run] zeroRun_split[OF zero] gs(3) by simp
      with ne len False best unmapped show ?thesis by (simp add: unpackIp_def Let_def)
    qed
  qed
qed

subsection \<open>Rotated rows\<close>

text \<open>What a row codec promises: what it encodes under a key decodes under that key.\<close>

definition lawfulCodec :: "rowcodec \<Rightarrow> bool" where
  "lawfulCodec codec \<longleftrightarrow>
     (\<forall>v styles old new plain c. rc_decode codec v styles old = Inr plain \<longrightarrow> rc_encode codec plain styles new = Inr c \<longrightarrow>
        rc_decode codec c styles new = Inr plain)"

text \<open>A column after the loop: left as NULL, or encoded with the new key what the old key decodes.\<close>

definition columnRotated ::
    "(string \<times> jsvalue) list \<Rightarrow> rowcodec \<Rightarrow> (string \<times> jsvalue) list \<Rightarrow> (string \<times> string) option \<Rightarrow> string \<Rightarrow> string list \<Rightarrow> bool" where
  "columnRotated row codec out keys name styles \<longleftrightarrow>
     (case map_of row name of
        None \<Rightarrow> False
      | Some v \<Rightarrow>
          if v = VNull then map_of out name = Some VNull
          else \<exists>old new plain c. keys = Some (old, new) \<and> map_of out name = Some c \<and>
            rc_decode codec v styles old = Inr plain \<and> rc_decode codec c styles new = Inr plain)"

text \<open>The keys that the loop has read\<close>

definition keysRead :: "keyring \<Rightarrow> (string \<times> jsvalue) list \<Rightarrow> string \<Rightarrow> int \<Rightarrow> (string \<times> string) option \<Rightarrow> bool" where
  "keysRead ring row versionColumn target keys \<longleftrightarrow>
     (\<forall>old new. keys = Some (old, new) \<longrightarrow> (\<exists>stored version. map_of row versionColumn = Some stored \<and>
        storedVersion stored = Inr version \<and> keyOf ring version = Inr old \<and> keyOf ring target = Inr new))"

text \<open>The state of the loop: the columns that were passed are rotated, the others are as they were.\<close>

definition rotated ::
    "keyring \<Rightarrow> (string \<times> jsvalue) list \<Rightarrow> string \<Rightarrow> int \<Rightarrow> rowcodec \<Rightarrow> (string \<times> string list) list
       \<Rightarrow> (string \<times> jsvalue) list \<Rightarrow> (string \<times> string) option \<Rightarrow> bool" where
  "rotated ring row versionColumn target codec columns out keys \<longleftrightarrow>
     (\<forall>name. name \<notin> fst ` set columns \<longrightarrow> map_of out name = map_of row name) \<and>
     (\<forall>name styles. (name, styles) \<in> set columns \<longrightarrow> columnRotated row codec out keys name styles) \<and>
     keysRead ring row versionColumn target keys"

lemma columnRotated_kept:
  assumes "columnRotated row codec out keys name styles" and "map_of out' name = map_of out name" and "keys = None \<or> keys' = keys"
  shows "columnRotated row codec out' keys' name styles"
  using assms by (auto simp: columnRotated_def split: option.splits if_splits)

lemma rotateColumn_step:
  assumes codec: "lawfulCodec codec" and inv: "rotated ring row versionColumn target codec columns out keys"
    and new: "name \<notin> fst ` set columns"
    and step: "rotateColumn ring row versionColumn target codec (out, keys) (name, styles) = Inr (out', keys')"
  shows "rotated ring row versionColumn target codec (columns @ [(name, styles)]) out' keys'"
proof -
  obtain v where v: "map_of row name = Some v" using step by (auto simp: rotateColumn_def split: option.splits)
  have same: "map_of out name = map_of row name" using inv new unfolding rotated_def by blast
  have "(\<forall>n. n \<noteq> name \<longrightarrow> map_of out' n = map_of out n) \<and> (keys = None \<or> keys' = keys) \<and>
      columnRotated row codec out' keys' name styles \<and> keysRead ring row versionColumn target keys'"
  proof (cases "v = VNull")
    case True
    with step v have "out' = out" "keys' = keys" by (simp_all add: rotateColumn_def)
    with inv v True same show ?thesis by (simp add: rotated_def columnRotated_def)
  next
    case False
    obtain old nw plain c where k: "keys' = Some (old, nw)" "out' = map_set name c out" "rc_decode codec v styles old = Inr plain"
        "rc_encode codec plain styles nw = Inr c" "keys = None \<or> keys = Some (old, nw)"
      and ks: "keys = None \<longrightarrow> (\<exists>stored version. map_of row versionColumn = Some stored \<and> storedVersion stored = Inr version \<and>
        keyOf ring version = Inr old \<and> keyOf ring target = Inr nw)"
      using step v False by (auto simp: rotateColumn_def present_def res_simps split: option.splits)
    have "rc_decode codec c styles nw = Inr plain" using codec k(3,4) unfolding lawfulCodec_def by blast
    moreover have "keysRead ring row versionColumn target keys'"
      using inv k(1,5) ks by (auto simp: rotated_def keysRead_def)
    ultimately show ?thesis using k v False by (auto simp: columnRotated_def)
  qed
  note step' = this
  have "columnRotated row codec out' keys' n st" if "(n, st) \<in> set columns" for n st
  proof (rule columnRotated_kept)
    show "columnRotated row codec out keys n st" using inv that unfolding rotated_def by blast
    have "n \<noteq> name" using new that by force
    then show "map_of out' n = map_of out n" "keys = None \<or> keys' = keys" using step' by blast+
  qed
  with step' inv show ?thesis unfolding rotated_def by auto
qed

lemma foldRes_rotated:
  assumes codec: "lawfulCodec codec"
  shows "rotated ring row versionColumn target codec columns out keys \<Longrightarrow> distinct (map fst (columns @ rest)) \<Longrightarrow>
    foldRes (rotateColumn ring row versionColumn target codec) (out, keys) rest = Inr (out', keys') \<Longrightarrow>
    rotated ring row versionColumn target codec (columns @ rest) out' keys'"
proof (induction rest arbitrary: columns out keys)
  case (Cons column rest)
  obtain name styles where column: "column = (name, styles)" by fastforce
  obtain out1 keys1 where 1: "rotateColumn ring row versionColumn target codec (out, keys) column = Inr (out1, keys1)"
    "foldRes (rotateColumn ring row versionColumn target codec) (out1, keys1) rest = Inr (out', keys')"
    using Cons.prems(3) by (auto simp: res_simps)
  have "name \<notin> fst ` set columns" using Cons.prems(2) column by auto
  from rotateColumn_step[OF codec Cons.prems(1) this] 1(1) column
  have "rotated ring row versionColumn target codec (columns @ [column]) out1 keys1" by simp
  from Cons.IH[OF this _ 1(2)] Cons.prems(2) show ?case by simp
qed simp

lemma rotate_nulls:
  assumes "\<forall>(name, styles) \<in> set columns. map_of row name = Some VNull"
  shows "foldRes (rotateColumn ring row versionColumn target codec) st columns = Inr st"
  using assms by (induction columns) (auto simp: rotateColumn_def split: prod.splits)

lemma rotateRow_rotated:
  assumes "lawfulCodec codec" and "distinct (map fst columns)" and "versionColumn \<notin> fst ` set columns"
    and run: "rotateRow ring row versionColumn columns target codec = Inr out"
  shows "(\<forall>name. name \<noteq> versionColumn \<longrightarrow> name \<notin> fst ` set columns \<longrightarrow> map_of out name = map_of row name) \<and>
    (if \<exists>(name, styles) \<in> set columns. map_of row name \<noteq> Some VNull
     then map_of out versionColumn = Some (VInt target) \<and> (\<exists>stored version old new. map_of row versionColumn = Some stored \<and>
       storedVersion stored = Inr version \<and> keyOf ring version = Inr old \<and> keyOf ring target = Inr new \<and>
       (\<forall>(name, styles) \<in> set columns. \<forall>v. map_of row name = Some v \<and> v \<noteq> VNull \<longrightarrow>
          (\<exists>c plain. map_of out name = Some c \<and> rc_decode codec v styles old = Inr plain \<and> rc_decode codec c styles new = Inr plain)))
     else out = row)"
proof -
  obtain mid keys where mid: "foldRes (rotateColumn ring row versionColumn target codec) (row, None) columns = Inr (mid, keys)"
    "out = (if keys = None then mid else map_set versionColumn (VInt target) mid)"
    using run by (cases "foldRes (rotateColumn ring row versionColumn target codec) (row, None) columns")
      (auto simp: rotateRow_def split: if_splits prod.splits)
  have inv: "rotated ring row versionColumn target codec columns mid keys"
    using foldRes_rotated[OF assms(1), of ring row versionColumn target "[]" row None columns] mid(1) assms(2) by (simp add: rotated_def keysRead_def)
  show ?thesis
  proof (cases "\<exists>(name, styles) \<in> set columns. map_of row name \<noteq> Some VNull")
    case False
    then have "\<forall>(name, styles) \<in> set columns. map_of row name = Some VNull" by auto
    from rotate_nulls[OF this] mid have "out = row" by simp
    with False show ?thesis by auto
  next
    case True
    then obtain name styles where n: "(name, styles) \<in> set columns" "map_of row name \<noteq> Some VNull" by auto
    from inv n(1) have "columnRotated row codec mid keys name styles" unfolding rotated_def by blast
    with n(2) obtain old new where keys: "keys = Some (old, new)" by (auto simp: columnRotated_def split: option.splits if_splits)
    then have out: "out = map_set versionColumn (VInt target) mid" using mid(2) by simp
    have cols: "\<forall>(name, styles) \<in> set columns. \<forall>v. map_of row name = Some v \<and> v \<noteq> VNull \<longrightarrow>
        (\<exists>c plain. map_of out name = Some c \<and> rc_decode codec v styles old = Inr plain \<and> rc_decode codec c styles new = Inr plain)"
    proof safe
      fix n st v
      assume a: "(n, st) \<in> set columns" "map_of row n = Some v" "v \<noteq> VNull"
      then have "n \<noteq> versionColumn" using assms(3) by force
      moreover from inv a(1) have "columnRotated row codec mid keys n st" unfolding rotated_def by blast
      with a keys obtain plain c where "map_of mid n = Some c" "rc_decode codec v st old = Inr plain" "rc_decode codec c st new = Inr plain"
        by (auto simp: columnRotated_def)
      ultimately show "\<exists>c plain. map_of out n = Some c \<and> rc_decode codec v st old = Inr plain \<and> rc_decode codec c st new = Inr plain"
        by (auto simp: out)
    qed
    have rest: "map_of out n = map_of row n" if "n \<noteq> versionColumn" "n \<notin> fst ` set columns" for n
      using inv that unfolding rotated_def out by auto
    have version: "\<exists>stored version. map_of row versionColumn = Some stored \<and> storedVersion stored = Inr version \<and>
        keyOf ring version = Inr old \<and> keyOf ring target = Inr new" using inv keys by (simp add: rotated_def keysRead_def)
    have "map_of out versionColumn = Some (VInt target)" by (simp add: out)
    then show ?thesis using True cols rest version by auto
  qed
qed

end
