(* ===== verification/BindCheck.thy ===== *)
theory BindCheck
  imports Time Keys
begin

section \<open>Checks and transforms of parameters (\<open>bind_check.ts\<close>)\<close>

text \<open>
  A parameter is checked against the logical type of each slot it fills before any statement
  runs, and the value of a LIKE or a full-text operator is transformed. A value is a \<open>jsvalue\<close>;
  a number that is no integer is a \<open>VFloat\<close> with its text, \<open>NaN\<close> and the infinities included.
  The lemmas show what an accepted value satisfies, and that the transformed text of a LIKE
  operator matches exactly the texts that contain, start with or end with the value.
\<close>

record paramslot =
  sl_type :: string
  sl_precision :: nat
  sl_scale :: nat
  sl_length :: nat
  sl_notNull :: bool

definition bindSlotType :: "bindslot \<Rightarrow> paramslot" where
  "bindSlotType b =
     \<lparr>sl_type = bs_col_type b, sl_precision = (case bs_precision b of None \<Rightarrow> 0 | Some n \<Rightarrow> n),
      sl_scale = (case bs_scale b of None \<Rightarrow> 0 | Some n \<Rightarrow> n), sl_length = (case bs_length b of None \<Rightarrow> 0 | Some n \<Rightarrow> n),
      sl_notNull = (bs_not_null b = Some True)\<rparr>"

text \<open>\<open>/^[0-9a-f]{8}-[0-9a-f]{4}-[0-9a-f]{4}-[0-9a-f]{4}-[0-9a-f]{12}$/\<close>\<close>

definition canonicalUuid :: "string \<Rightarrow> bool" where
  "canonicalUuid s \<longleftrightarrow>
     map length (splitS (CHR ''-'') s) = [8, 4, 4, 4, 12] \<and> set s - {CHR ''-''} \<subseteq> set hexDigits"

definition integerRanges :: "string \<Rightarrow> (int \<times> int) option" where
  "integerRanges t =
     (if t = ''i16'' then Some (-32768, 32767)
      else if t = ''i32'' then Some (-2147483648, 2147483647)
      else if t = ''i64'' then Some (-9223372036854775808, 9223372036854775807)
      else None)"

definition checkAssign :: "jsvalue \<Rightarrow> paramslot \<Rightarrow> unit res" where
  "checkAssign v s = refuse (v = VNull \<and> sl_notNull s) CODEC_ENCODE"

text \<open>\<open>Array.from(value).length\<close>: the code points of a text, each with one byte that continues no sequence\<close>

definition codePoints :: "string \<Rightarrow> nat" where
  "codePoints s = length (filter (\<lambda>c. \<not> continuation c) s)"

definition nonFinite :: "string \<Rightarrow> bool" where
  "nonFinite t \<longleftrightarrow> t \<in> {''NaN'', ''Infinity'', ''-Infinity''}"

definition strOf :: "jsvalue \<Rightarrow> string option" where
  "strOf v = (case v of VStr s \<Rightarrow> Some s | _ \<Rightarrow> None)"

text \<open>The text of a character type.\<close>

definition checkText :: "string \<Rightarrow> paramslot \<Rightarrow> unit res" where
  "checkText s sl = checks
     [refuse (CHR 0x00 \<in> set s) CODEC_ENCODE,
      refuse (sl_type sl = ''varchar'' \<and> 0 < sl_length sl \<and> sl_length sl < codePoints s) CODEC_ENCODE,
      refuse (sl_type sl = ''uuid'' \<and> \<not> canonicalUuid s) CODEC_ENCODE]"

text \<open>\<open>!/^\d{4}-/.test(text) || text.startsWith('0000')\<close> is the negation of \<open>inRange\<close>.\<close>

definition checkTime :: "string \<Rightarrow> paramslot \<Rightarrow> string \<Rightarrow> unit res" where
  "checkTime s sl zone =
     (case timeValue (Some s) (sl_type sl) zone (sl_precision sl) of
        Inl _ \<Rightarrow> fail CODEC_ENCODE
      | Inr t \<Rightarrow> refuse (sl_type sl \<noteq> ''time'' \<and> \<not> inRange t) CODEC_ENCODE)"

definition checkParam :: "jsvalue \<Rightarrow> paramslot \<Rightarrow> string \<Rightarrow> unit res" where
  "checkParam v sl zone =
     (if v = VNull then Inr ()
      else if sl_type sl \<in> {''i16'', ''i32'', ''i64''} then
        (case v of
           VInt n \<Rightarrow> (case integerRanges (sl_type sl) of
              Some (low, high) \<Rightarrow> refuse (n < low \<or> high < n) CODEC_ENCODE
            | None \<Rightarrow> refuse (n < 0 \<or> 0 < n) CODEC_ENCODE)
         | _ \<Rightarrow> fail CODEC_ENCODE)
      else if sl_type sl = ''f64'' then
        (case v of VInt n \<Rightarrow> Inr () | VFloat t \<Rightarrow> refuse (nonFinite t) CODEC_ENCODE | _ \<Rightarrow> fail CODEC_ENCODE)
      else if sl_type sl = ''bool'' then (case v of VBool b \<Rightarrow> Inr () | _ \<Rightarrow> fail CODEC_ENCODE)
      else if sl_type sl = ''decimal'' then
        (case strOf v of
           None \<Rightarrow> fail CODEC_ENCODE
         | Some s \<Rightarrow> (case normalizeDecimal s (int (sl_precision sl)) (int (sl_scale sl)) of
             Inl _ \<Rightarrow> fail CODEC_ENCODE | Inr _ \<Rightarrow> Inr ()))
      else if sl_type sl \<in> {''varchar'', ''text'', ''uuid''} then
        (case strOf v of None \<Rightarrow> fail CODEC_ENCODE | Some s \<Rightarrow> checkText s sl)
      else if sl_type sl = ''bytes'' then
        (case v of VBytes b \<Rightarrow> Inr () | VStr s \<Rightarrow> Inr () | _ \<Rightarrow> fail CODEC_ENCODE)
      else if sl_type sl \<in> {''date'', ''time'', ''datetime''} then
        (case strOf v of None \<Rightarrow> fail CODEC_ENCODE | Some s \<Rightarrow> checkTime s sl zone)
      else Inr ())"

subsection \<open>Transforms\<close>

definition escapeLike :: "string \<Rightarrow> string" where
  "escapeLike s = replaceS (CHR ''_'') [CHR 0x5C, CHR ''_''] (replaceS (CHR ''%'') [CHR 0x5C, CHR ''%'']
     (replaceS (CHR 0x5C) [CHR 0x5C, CHR 0x5C] s))"

text \<open>\<open>value.split(/\s+/)\<close>\<close>

lemma skipSpace_length: "length (skipSpace s) \<le> length s"
proof (induction s rule: skipSpace.induct)
  case (1 s)
  show ?case
  proof (cases "0 < spaceLength s \<and> s \<noteq> []")
    case True
    with 1 show ?thesis by (subst skipSpace.simps) simp
  qed (subst skipSpace.simps, auto)
qed

lemma skipSpace_shorter: "0 < n \<Longrightarrow> length (skipSpace (drop n (c # cs))) < Suc (length cs)"
  using skipSpace_length[of "drop n (c # cs)"] by simp

function splitSpace :: "string \<Rightarrow> string list" where
  "splitSpace [] = [[]]"
| "splitSpace (c # cs) =
     (if 0 < spaceLength (c # cs) then [] # splitSpace (skipSpace (drop (spaceLength (c # cs)) (c # cs)))
      else (case splitSpace cs of w # ws \<Rightarrow> (c # w) # ws | [] \<Rightarrow> [[c]]))"
  by pat_completeness auto
termination by (relation "measure length") (auto intro: skipSpace_shorter)

definition operators :: string where
  "operators = ''+-<>()~*'' @ [CHR 34] @ ''@''"

definition fulltextTerms :: "string \<Rightarrow> string list" where
  "fulltextTerms s = filter (\<lambda>t. t \<noteq> []) (map (filter (\<lambda>c. c \<notin> set operators)) (splitSpace s))"

definition fulltextBoolean :: "string \<Rightarrow> string" where
  "fulltextBoolean s =
     (let terms = map (\<lambda>t. ''+'' @ t) (fulltextTerms s) in
      if terms = [] then '''' else joinS '' '' (butlast terms @ [last terms @ ''*'']))"

definition transformParam :: "string \<Rightarrow> jsvalue \<Rightarrow> jsvalue res" where
  "transformParam kind v =
     (if v = VNull then Inr VNull
      else (case strOf v of
        None \<Rightarrow> fail CODEC_ENCODE
      | Some s \<Rightarrow>
          if kind = ''like_contains'' then Inr (VStr (''%'' @ escapeLike s @ ''%''))
          else if kind = ''like_starts'' then Inr (VStr (escapeLike s @ ''%''))
          else if kind = ''like_ends'' then Inr (VStr (''%'' @ escapeLike s))
          else if kind = ''fulltext_boolean'' then
            (if fulltextBoolean s = '''' then fail IR_INVALID else Inr (VStr (fulltextBoolean s)))
          else Inr (VStr s)))"

subsection \<open>LIKE\<close>

text \<open>What a LIKE pattern with the escape character matches, characters compared exactly.\<close>

fun likeMatch :: "string \<Rightarrow> string \<Rightarrow> bool" where
  "likeMatch [] t = (t = [])"
| "likeMatch (p # ps) t =
     (if p = CHR ''%'' then likeMatch ps t \<or> (case t of [] \<Rightarrow> False | c # r \<Rightarrow> likeMatch (p # ps) r)
      else if p = CHR ''_'' then (case t of [] \<Rightarrow> False | c # r \<Rightarrow> likeMatch ps r)
      else if p = CHR 0x5C then
        (case ps of [] \<Rightarrow> False | q # qs \<Rightarrow> (case t of [] \<Rightarrow> False | c # r \<Rightarrow> c = q \<and> likeMatch qs r))
      else (case t of [] \<Rightarrow> False | c # r \<Rightarrow> c = p \<and> likeMatch ps r))"

definition likeChar :: "char \<Rightarrow> string" where
  "likeChar c = (if c \<in> {CHR 0x5C, CHR ''%'', CHR ''_''} then [CHR 0x5C, c] else [c])"

lemma escapeLike_Cons: "escapeLike (c # cs) = likeChar c @ escapeLike cs"
  by (simp add: escapeLike_def replaceS_def likeChar_def)

lemma likeMatch_char: "likeMatch (likeChar c @ ps) t \<longleftrightarrow> (\<exists>r. t = c # r \<and> likeMatch ps r)"
  by (cases t) (auto simp: likeChar_def)

lemma likeMatch_escape: "likeMatch (escapeLike v @ ps) t \<longleftrightarrow> (\<exists>r. t = v @ r \<and> likeMatch ps r)"
proof (induction v arbitrary: t)
  case (Cons c v)
  then show ?case by (auto simp: escapeLike_Cons likeMatch_char)
qed (simp add: escapeLike_def replaceS_def)

lemma likeMatch_any: "likeMatch (CHR ''%'' # ps) t \<longleftrightarrow> (\<exists>a r. t = a @ r \<and> likeMatch ps r)"
proof (induction t)
  case (Cons c t)
  show ?case
  proof
    assume "likeMatch (CHR ''%'' # ps) (c # t)"
    then have "likeMatch ps (c # t) \<or> (\<exists>a r. t = a @ r \<and> likeMatch ps r)" using Cons by simp
    then show "\<exists>a r. c # t = a @ r \<and> likeMatch ps r" by (metis append.left_neutral append_Cons)
  next
    assume "\<exists>a r. c # t = a @ r \<and> likeMatch ps r"
    then show "likeMatch (CHR ''%'' # ps) (c # t)" using Cons by (auto simp: Cons_eq_append_conv)
  qed
qed simp

lemma likeMatch_rest: "likeMatch ''%'' t"
  by (induction t) auto

lemma like_forms:
  "likeMatch (''%'' @ escapeLike v @ ''%'') t \<longleftrightarrow> (\<exists>a b. t = a @ v @ b)"
  "likeMatch (escapeLike v @ ''%'') t \<longleftrightarrow> (\<exists>b. t = v @ b)"
  "likeMatch (''%'' @ escapeLike v) t \<longleftrightarrow> (\<exists>a. t = a @ v)"
proof -
  have starts: "likeMatch (escapeLike v @ ''%'') r \<longleftrightarrow> (\<exists>b. r = v @ b)" for r
    using likeMatch_escape[of v "''%''" r] likeMatch_rest by (simp del: likeMatch.simps)
  show "likeMatch (escapeLike v @ ''%'') t \<longleftrightarrow> (\<exists>b. t = v @ b)" by (rule starts)
  show "likeMatch (''%'' @ escapeLike v @ ''%'') t \<longleftrightarrow> (\<exists>a b. t = a @ v @ b)"
    using likeMatch_any[of "escapeLike v @ ''%''" t] starts by (auto simp del: likeMatch.simps)
  have "likeMatch (escapeLike v) r \<longleftrightarrow> r = v" for r using likeMatch_escape[of v "[]" r] by simp
  then show "likeMatch (''%'' @ escapeLike v) t \<longleftrightarrow> (\<exists>a. t = a @ v)"
    using likeMatch_any[of "escapeLike v" t] by (simp del: likeMatch.simps)
qed

subsection \<open>Full-text terms\<close>

lemma spaceLength_0: "spaceLength (c # cs) = 0 \<Longrightarrow> c \<noteq> CHR '' ''"
proof
  assume "spaceLength (c # cs) = 0" "c = CHR '' ''"
  moreover have "'' '' \<in> set spaces" by (simp add: spaces_def)
  moreover have "startsWith (CHR '' '' # cs) '' ''" by (simp add: startsWith_def)
  ultimately have "filter (startsWith (c # cs)) spaces \<noteq> []" unfolding filter_empty_conv by blast
  then obtain w ws where w: "filter (startsWith (c # cs)) spaces = w # ws" by (cases "filter (startsWith (c # cs)) spaces") auto
  then have "w \<in> set (filter (startsWith (c # cs)) spaces)" by simp
  then have "w \<in> set spaces" by simp
  then have "w \<noteq> []" by (auto simp: spaces_def)
  with w show False using \<open>spaceLength (c # cs) = 0\<close> by (simp add: spaceLength_def)
qed

lemma splitSpace_no_space: "w \<in> set (splitSpace s) \<Longrightarrow> CHR '' '' \<notin> set w"
proof (induction s arbitrary: w rule: splitSpace.induct)
  case (2 c cs)
  then show ?case using spaceLength_0[of c cs] by (auto split: if_splits list.splits)
qed simp

lemma fulltextTerms_clean:
  "t \<in> set (fulltextTerms s) \<Longrightarrow> t \<noteq> [] \<and> set t \<inter> set operators = {} \<and> CHR '' '' \<notin> set t"
  using splitSpace_no_space[of _ s] by (auto simp: fulltextTerms_def)

text \<open>The text read back: its words at the spaces, without the sign of each and the star of the last.\<close>

lemma fulltextBoolean_words:
  assumes "fulltextTerms s \<noteq> []"
  shows "splitS (CHR '' '') (fulltextBoolean s) =
    map (\<lambda>t. ''+'' @ t) (butlast (fulltextTerms s)) @ [''+'' @ last (fulltextTerms s) @ ''*'']"
proof -
  let ?ws = "map (\<lambda>t. ''+'' @ t) (butlast (fulltextTerms s)) @ [''+'' @ last (fulltextTerms s) @ ''*'']"
  have "fulltextBoolean s = joinS '' '' ?ws"
    using assms by (simp add: fulltextBoolean_def Let_def map_butlast last_map)
  moreover have "CHR '' '' \<notin> set w" if "w \<in> set ?ws" for w
    using that fulltextTerms_clean[of _ s] assms by (auto dest: in_set_butlastD)
  ultimately show ?thesis by (simp only: splitS_joinS[of ?ws]) (rule splitS_joinS; simp)
qed

subsection \<open>What a check accepts\<close>

lemma checks_error: "checks cs = Inl e \<Longrightarrow> Inl e \<in> set cs"
  by (induction cs) (auto split: sum.splits)

lemma refuse_Inl: "refuse b c = Inl e \<Longrightarrow> e = OrmError c"
  by (simp add: refuse_def split: if_splits)

lemma checkText_error: "checkText s sl = Inl e \<Longrightarrow> e = OrmError CODEC_ENCODE"
  unfolding checkText_def by (drule checks_error) (auto dest: refuse_Inl[OF sym])

lemma checkTime_error: "checkTime s sl zone = Inl e \<Longrightarrow> e = OrmError CODEC_ENCODE"
  by (auto simp: checkTime_def dest: refuse_Inl split: sum.splits)

lemma checkParam_error: "checkParam v sl zone = Inl e \<Longrightarrow> e = OrmError CODEC_ENCODE"
  using checkText_error[of _ sl e] checkTime_error[of _ sl zone e]
  by (auto simp: checkParam_def dest: refuse_Inl split: if_splits jsvalue.splits option.splits sum.splits)

text \<open>The integer types hold the signed integers of their width.\<close>

definition widthOf :: "string \<Rightarrow> nat" where
  "widthOf t = (if t = ''i16'' then 16 else if t = ''i32'' then 32 else 64)"

lemma checkParam_integer:
  assumes "sl_type sl \<in> {''i16'', ''i32'', ''i64''}" and "v \<noteq> VNull"
  shows "checkParam v sl zone = Inr () \<longleftrightarrow>
    (\<exists>n. v = VInt n \<and> - (2 ^ (widthOf (sl_type sl) - 1)) \<le> n \<and> n < 2 ^ (widthOf (sl_type sl) - 1))"
  using assms by (cases v) (auto simp: checkParam_def integerRanges_def widthOf_def refuse_def)

end
