(* ===== verification/AuditedWrite.thy ===== *)
theory AuditedWrite
  imports Sessions Model
begin

section \<open>Writes and their audit record, and the row lock of SQLite (\<open>database.ts\<close>)\<close>

text \<open>
  A transaction with audit values inserts one audit record right before its first write of an
  audited table. A write that can match no row is guarded by a savepoint: when it changes no row
  or fails, the record is rolled back with it. The insert of the record is a model operation of
  its own and a parameter here.
\<close>

subsection \<open>The audit record\<close>

definition auditTables :: "runtimemodel list \<Rightarrow> string list" where
  "auditTables models =
     sort (remdups (filter (\<lambda>t. t \<noteq> '''') (concat (map (\<lambda>m. map (\<lambda>(n, e). e_auditRecord e) (m_entities m)) models))))"

text \<open>The last entity of a registered set with the table; a table of an external document is not one of the set.\<close>

definition auditTarget :: "runtimemodel list \<Rightarrow> string \<Rightarrow> entity option" where
  "auditTarget models table =
     find (\<lambda>e. e_table e = table \<and> \<not> e_external e) (rev (concat (map (\<lambda>m. map snd (m_entities m)) models)))"

definition addAuditValue :: "entity \<Rightarrow> (string \<times> jsvalue) list \<Rightarrow> string \<times> jsvalue \<Rightarrow> (string \<times> jsvalue) list res" where
  "addAuditValue e merged cv =
     (case fieldOf e (fst cv) of None \<Rightarrow> fail CONFIG | Some _ \<Rightarrow> Inr (map_set (fst cv) (snd cv) merged))"

definition auditRecord ::
    "runtimemodel list \<Rightarrow> (err + (string \<times> jsvalue) list) option \<Rightarrow> (string \<times> jsvalue) list \<Rightarrow> err + auditinsert" where
  "auditRecord models source values =
     (case (source, auditTables models) of
        (Some src, [table]) \<Rightarrow>
          (case auditTarget models table of
             None \<Rightarrow> Inl (orm CONFIG)
           | Some e \<Rightarrow>
               (case e_primaryKey e of
                  [key] \<Rightarrow>
                    (case src of
                       Inl err \<Rightarrow> Inl err
                     | Inr given \<Rightarrow>
                         (case foldRes (addAuditValue e) [] (sortedEntries (Some given) @ sortedEntries (Some values)) of
                            Inl err \<Rightarrow> Inl (Thrown err None)
                          | Inr merged \<Rightarrow>
                              if merged = [] then Inl (orm CONFIG)
                              else Inr \<lparr>ai_table = table, ai_key = key, ai_values = merged\<rparr>))
                | _ \<Rightarrow> Inl (orm CONFIG)))
      | _ \<Rightarrow> Inl (orm CONFIG))"

subsection \<open>The guard of a write\<close>

text \<open>What the function that \<open>auditFor\<close> returns does: nothing, or settle the savepoint of frame \<open>n\<close>.\<close>

datatype settle = NoSettle | Guarded nat

definition auditName :: string where
  "auditName = ''orm_audit''"

definition auditRollback :: "'s world \<Rightarrow> nat \<Rightarrow> err option \<Rightarrow> ('s, unit) io" where
  "auditRollback w n failed = (\<lambda>en.
     case undoSavepoint w n auditName en of
       (errors, en') \<Rightarrow>
         ((case failed of
             None \<Rightarrow> (case joinedErrors errors of None \<Rightarrow> Inr () | Some e \<Rightarrow> Inl e)
           | Some e \<Rightarrow> (case joinedErrors errors of None \<Rightarrow> Inl e | Some rb \<Rightarrow> Inl (RollbackFailed e rb))), en'))"

definition bindsAudit :: "planstep \<Rightarrow> bool" where
  "bindsAudit step \<longleftrightarrow> list_ex (\<lambda>s. bs_from s = ''audit'') (ps_bind_slots step)"

definition setAudit :: "nat \<Rightarrow> auditrecord option \<Rightarrow> ('s, unit) io" where
  "setAudit n a = ioModify (setFrame n (\<lambda>f. f\<lparr>fr_audit := a\<rparr>))"

definition auditFor ::
    "'s world \<Rightarrow> (auditinsert \<Rightarrow> ('s, auditrecord) io) \<Rightarrow> nat option \<Rightarrow> planstep \<Rightarrow> bool \<Rightarrow> ('s, settle) io" where
  "auditFor w insertAudit frame step guard =
     (case frame of
        None \<Rightarrow> ioRet NoSettle
      | Some n \<Rightarrow>
          ioBind (ioGet (\<lambda>en. en_frames en n)) (\<lambda>fr.
            case fr_pendingAudit fr of
              None \<Rightarrow> ioRet NoSettle
            | Some record \<Rightarrow>
                if fr_audit fr \<noteq> None \<or> \<not> bindsAudit step then ioRet NoSettle
                else if \<not> guard then
                  ioBind (insertAudit record) (\<lambda>a. ioBind (setAudit n (Some a)) (\<lambda>_. ioRet NoSettle))
                else
                  ioBind (savepointStep w n KSavepoint auditName) (\<lambda>_.
                  ioBind (ioTry (insertAudit record)) (\<lambda>r.
                    case r of
                      Inr a \<Rightarrow> ioBind (setAudit n (Some a)) (\<lambda>_. ioRet (Guarded n))
                    | Inl e \<Rightarrow>
                        ioBind (setAudit n None) (\<lambda>_.
                        ioBind (auditRollback w n (Some e)) (\<lambda>_. ioThrow e))))))"

definition settleWrite :: "'s world \<Rightarrow> settle \<Rightarrow> int \<Rightarrow> err option \<Rightarrow> ('s, unit) io" where
  "settleWrite w st affected failed =
     (case st of
        NoSettle \<Rightarrow> ioRet ()
      | Guarded n \<Rightarrow>
          if failed = None \<and> affected > 0 then savepointStep w n KRelease auditName
          else ioBind (setAudit n None) (\<lambda>_. auditRollback w n failed))"

subsection \<open>A write\<close>

text \<open>\<open>Number(value)\<close> on the values that a driver answers for a key\<close>

fun numberOf :: "jsvalue \<Rightarrow> jsvalue" where
  "numberOf (VInt n) = VInt n"
| "numberOf (VBool b) = VInt (if b then 1 else 0)"
| "numberOf (VFloat t) = VFloat t"
| "numberOf VNull = VInt 0"
| "numberOf (VStr s) = (if s \<noteq> [] \<and> list_all digit s then VInt (int (read_nat s)) else VFloat ''NaN'')"
| "numberOf _ = VFloat ''NaN''"

record driverresult =
  dr_rows :: "jsvalue list list"
  dr_affected :: int
  dr_insertId :: jsvalue

definition writeResult :: "request \<Rightarrow> planstep \<Rightarrow> driverresult \<Rightarrow> err + jsvalue \<times> int" where
  "writeResult r step result =
     (if rq_kind r = ''insert'' \<and> includesS (ps_sql step) '' RETURNING '' then
        Inr (case dr_rows result of
            (v # _) # _ \<Rightarrow> (case v of VStr s \<Rightarrow> VStr s | _ \<Rightarrow> numberOf v)
          | _ \<Rightarrow> VFloat ''NaN'', 1)
      else if rq_kind r = ''update'' \<and> rq_optimistic r \<noteq> None \<and> dr_affected result = 0 then Inl (orm OPTIMISTIC_LOCK)
      else
        Inr (if rq_kind r = ''insert'' \<and> rq_rows r = None \<and> dr_insertId result \<noteq> VNull then numberOf (dr_insertId result) else VNull,
          if rq_kind r = ''insert'' \<and> orEmpty (rq_on_duplicate r) \<noteq> [] then 1 else dr_affected result))"

definition writeStep :: "('s, driverresult) io \<Rightarrow> nat option \<Rightarrow> request \<Rightarrow> planstep \<Rightarrow> ('s, jsvalue \<times> int) io" where
  "writeStep runStep frame r step =
     guarded frame (ioBind runStep (\<lambda>result. case writeResult r step result of Inl e \<Rightarrow> ioThrow e | Inr kv \<Rightarrow> ioRet kv))"

text \<open>The identity key of a single insert is kept with its transaction.\<close>

definition insertedKey :: "jsvalue \<Rightarrow> nat option" where
  "insertedKey key =
     (case numberOf key of
        VInt n \<Rightarrow> if key \<noteq> VNull \<and> isSafeInteger n \<and> 0 < n then Some (nat n) else None
      | _ \<Rightarrow> None)"

definition recordInserted :: "runtimemodel option \<Rightarrow> nat option \<Rightarrow> request \<Rightarrow> jsvalue \<Rightarrow> ('s, unit) io" where
  "recordInserted m frame r key =
     (case (frame, insertedKey key, Option.bind m (\<lambda>m. map_of (m_entities m) (q_entity (rq_query r)))) of
        (Some n, Some sequence, Some e) \<Rightarrow>
          if rq_kind r = ''insert'' \<and> rq_rows r = None \<and> e_identity e \<noteq> '''' then
            ioModify (setFrame n (\<lambda>f.
              let keys = orEmpty (map_of (fr_inserted f) (q_entity (rq_query r))) in
              f\<lparr>fr_inserted := map_set (q_entity (rq_query r)) (if sequence \<in> set keys then keys else keys @ [sequence]) (fr_inserted f)\<rparr>))
          else ioRet ()
      | _ \<Rightarrow> ioRet ())"

text \<open>\<open>write\<close> after its request was planned: \<open>step\<close> is the main step of the plan.\<close>

definition writeRequest ::
    "'s world \<Rightarrow> (auditinsert \<Rightarrow> ('s, auditrecord) io) \<Rightarrow> ('s, driverresult) io \<Rightarrow> runtimemodel option \<Rightarrow> nat option
       \<Rightarrow> request \<Rightarrow> planstep \<Rightarrow> ('s, jsvalue \<times> int) io" where
  "writeRequest w insertAudit runStep m frame r step =
     ioBind (auditFor w insertAudit frame step (rq_kind r \<noteq> ''insert'')) (\<lambda>st.
     ioBind (ioTry (writeStep runStep frame r step)) (\<lambda>written.
       case written of
         Inl e \<Rightarrow> ioBind (settleWrite w st 0 (Some e)) (\<lambda>_. ioThrow e)
       | Inr (key, affected) \<Rightarrow>
           ioBind (settleWrite w st affected None) (\<lambda>_.
           ioBind (recordInserted m frame r key) (\<lambda>_.
           ioBind (ioModify (\<lambda>en. en\<lparr>en_lastAffected := Some affected\<rparr>)) (\<lambda>_. ioRet (key, affected))))))"

subsection \<open>The row lock of SQLite\<close>

definition rowLockSql :: string where
  \<open>rowLockSql = ''INSERT INTO "orm__row_lock" ("id") VALUES (1) ON CONFLICT ("id") DO UPDATE SET "id"=excluded."id"''\<close>

text \<open>\<open>String(Number(value))\<close> of the cell that PRAGMA busy_timeout answers\<close>

definition timeoutText :: "jsvalue list list \<Rightarrow> string" where
  "timeoutText rows =
     (case rows of
        (v # _) # _ \<Rightarrow> (case numberOf v of VInt n \<Rightarrow> show_int n | VFloat t \<Rightarrow> t | _ \<Rightarrow> ''NaN'')
      | _ \<Rightarrow> ''NaN'')"

fun causeOf :: "err \<Rightarrow> nativeerror option" where
  "causeOf (Thrown e cause) = cause"
| "causeOf _ = None"

text \<open>The lock itself: whether the statement that takes it was reached, and how it ended.\<close>

definition takeLock :: "'s world \<Rightarrow> nat \<Rightarrow> bool \<Rightarrow> 's env \<Rightarrow> err option \<times> 's env" where
  "takeLock w n noWait en =
     (case (if noWait then frameRun w n KUtility [] ''PRAGMA busy_timeout=0'' en else (Inr [], en)) of
        (Inl e, en1) \<Rightarrow> (Some e, en1)
      | (Inr _, en1) \<Rightarrow>
          (case frameRun w n KUtility [''orm__row_lock''] rowLockSql en1 of
             (Inr _, en2) \<Rightarrow> (None, en2)
           | (Inl e, en2) \<Rightarrow>
               (Some (if noWait \<and> errCode e \<noteq> None \<and> sqliteBusy ''sqlite'' (causeOf e) then Thrown (OrmError LOCK_NOT_AVAILABLE) (causeOf e)
                  else e), en2)))"

definition rowLock :: "'s world \<Rightarrow> nat \<Rightarrow> string \<Rightarrow> ('s, unit) io" where
  "rowLock w n mode = (\<lambda>en.
     if w_name w \<noteq> ''sqlite'' \<or> mode = '''' then (Inr (), en)
     else if \<not> endsWith mode ''_nowait'' then
       (case takeLock w n False en of (None, en1) \<Rightarrow> (Inr (), en1) | (Some e, en1) \<Rightarrow> (Inl e, en1))
     else
       (case frameRun w n KUtility [] ''PRAGMA busy_timeout'' en of
          (Inl e, en1) \<Rightarrow> (Inl e, en1)
        | (Inr rows, en1) \<Rightarrow>
            (case takeLock w n True en1 of
               (failure, en2) \<Rightarrow>
                 (case frameRun w n KUtility [] (''PRAGMA busy_timeout='' @ timeoutText rows) en2 of
                    (Inr _, en3) \<Rightarrow> (case failure of None \<Rightarrow> (Inr (), en3) | Some e \<Rightarrow> (Inl e, en3))
                  | (Inl restore, en3) \<Rightarrow>
                      (case failure of
                         None \<Rightarrow> (Inl restore, en3)
                       | Some e \<Rightarrow> (Inl (Thrown (OrmError (case errCode e of None \<Rightarrow> DRIVER | Some c \<Rightarrow> c)) None), en3))))))"

subsection \<open>The record is kept with the rows it explains\<close>

text \<open>A computation that leaves the audit of frame \<open>n\<close> as it is.\<close>

definition keepsAudit :: "nat \<Rightarrow> ('s, 'a) io \<Rightarrow> bool" where
  "keepsAudit n m \<longleftrightarrow> (\<forall>en. fr_audit (en_frames (snd (m en)) n) = fr_audit (en_frames en n))"

lemma keepsAuditD: "keepsAudit n m \<Longrightarrow> m en = (r, en') \<Longrightarrow> fr_audit (en_frames en' n) = fr_audit (en_frames en n)"
  unfolding keepsAudit_def by (metis snd_conv)

lemma savepointStep_same: "savepointStep w n kind name en = (r, en') \<Longrightarrow> sameFrames en en'"
proof -
  assume step: "savepointStep w n kind name en = (r, en')"
  show ?thesis
  proof (cases "en' = en")
    case False
    then obtain q where q: "frameRun w n kind [] (savepointText kind name) en = (q, en')"
      using step by (auto simp: savepointStep_def split: if_splits prod.splits sum.splits)
    with False have "control w n kind [] (savepointText kind name) [] en = (q, en')"
      by (auto simp: frameRun_def io_simps split: if_splits)
    from control_log[OF this] show ?thesis by blast
  qed simp
qed

lemma auditRollback_same: "auditRollback w n failed en = (r, en') \<Longrightarrow> sameFrames en en'"
  using savepointStep_same sameFrames_trans
  by (fastforce simp: auditRollback_def undoSavepoint_def split: prod.splits)

lemma guarded_audit:
  assumes "keepsAudit n m" and "guarded (Some n) m en = (r, en')"
  shows "fr_audit (en_frames en' n) = fr_audit (en_frames en n)"
  using assms keepsAuditD[OF assms(1), of "setFrame n (\<lambda>f. f\<lparr>fr_busy := True\<rparr>) en"]
  by (auto simp: guarded_def io_simps setFrame_def split: if_splits prod.splits sum.splits)

lemma writeStep_audit:
  assumes "keepsAudit n runStep" and "writeStep runStep (Some n) r step en = (q, en')"
  shows "fr_audit (en_frames en' n) = fr_audit (en_frames en n)"
proof -
  have "keepsAudit n (ioBind runStep (\<lambda>result. case writeResult r step result of Inl e \<Rightarrow> ioThrow e | Inr kv \<Rightarrow> ioRet kv))"
    using assms(1) by (auto simp: keepsAudit_def io_simps split: prod.splits sum.splits) (metis snd_conv)+
  from guarded_audit[OF this] assms(2) show ?thesis by (simp add: writeStep_def)
qed

lemma recordInserted_audit: "recordInserted m frame r key en = (q, en') \<Longrightarrow>
    q = Inr () \<and> fr_audit (en_frames en' n) = fr_audit (en_frames en n)"
  by (auto simp: recordInserted_def io_simps setFrame_def Let_def split: option.splits if_splits)

lemma write_audit:
  assumes frame: "fr_audit (en_frames en n) = None" "fr_pendingAudit (en_frames en n) = Some record"
    and step: "bindsAudit step" "rq_kind r \<noteq> ''insert''"
    and keeps: "keepsAudit n runStep" "keepsAudit n (insertAudit record)"
    and run: "writeRequest w insertAudit runStep m (Some n) r step en = (Inr (key, affected), en')"
  shows "fr_audit (en_frames en' n) \<noteq> None \<longleftrightarrow> 0 < affected"
proof -
  obtain st en1 where st: "auditFor w insertAudit (Some n) step True en = (Inr st, en1)"
    using run step by (auto simp: writeRequest_def ioBind_eq split: prod.splits sum.splits)
  obtain u en0 where sp: "savepointStep w n KSavepoint auditName en = (Inr u, en0)"
    using st frame step by (cases "savepointStep w n KSavepoint auditName en")
      (auto simp: auditFor_def io_simps split: sum.splits)
  obtain q en2 where ins: "insertAudit record en0 = (q, en2)" by fastforce
  have guarded: "st = Guarded n" "\<exists>a. fr_audit (en_frames en1 n) = Some a"
    using st frame step sp ins
    by (auto simp: auditFor_def setAudit_def io_simps setFrame_def split: sum.splits prod.splits)
  obtain en3 where ws: "writeStep runStep (Some n) r step en1 = (Inr (key, affected), en3)"
    using run step st by (auto simp: writeRequest_def io_simps split: prod.splits sum.splits)
  have a3: "fr_audit (en_frames en3 n) \<noteq> None" using writeStep_audit[OF keeps(1) ws] guarded(2) by auto
  obtain en4 en5 where settle: "settleWrite w st affected None en3 = (Inr (), en4)"
      and rec: "recordInserted m (Some n) r key en4 = (Inr (), en5)" "en' = en5\<lparr>en_lastAffected := Some affected\<rparr>"
    using run step st ws by (auto simp: writeRequest_def io_simps split: prod.splits sum.splits)
  have rest: "fr_audit (en_frames en' n) = fr_audit (en_frames en4 n)"
    using recordInserted_audit[OF rec(1)] rec(2) by simp
  show ?thesis
  proof (cases "0 < affected")
    case True
    with settle guarded(1) have "savepointStep w n KRelease auditName en3 = (Inr (), en4)" by (simp add: settleWrite_def)
    with savepointStep_same have "sameFrames en3 en4" by blast
    with True a3 rest show ?thesis by (simp add: sameFrames_def)
  next
    case False
    with settle guarded(1) have "auditRollback w n None (setFrame n (\<lambda>f. f\<lparr>fr_audit := None\<rparr>) en3) = (Inr (), en4)"
      by (simp add: settleWrite_def setAudit_def io_simps)
    with auditRollback_same have "sameFrames (setFrame n (\<lambda>f. f\<lparr>fr_audit := None\<rparr>) en3) en4" by blast
    with False rest show ?thesis by (simp add: sameFrames_def setFrame_def)
  qed
qed

subsection \<open>The wait of the connection is restored\<close>

lemma rowLock_restores:
  assumes "w_name w = ''sqlite''" and "endsWith mode ''_nowait''" and "\<not> fr_finished (en_frames en n)"
    and first: "frameRun w n KUtility [] ''PRAGMA busy_timeout'' en = (Inr rows, en1)" and lock: "rowLock w n mode en = (r, en')"
  shows "\<exists>L ok. en_log en' = en_log en1 @ L @ [Sent (fr_session (en_frames en n)) KUtility (''PRAGMA busy_timeout='' @ timeoutText rows) ok] \<and>
    (r = Inr () \<longrightarrow> ok)"
proof -
  from frameRun_log[OF first assms(3)] have s1: "sameFrames en en1" by blast
  have step: "\<exists>L. en_log en2 = en_log en0 @ L \<and> sameFrames en0 en2"
    if "frameRun w n KUtility tbls sql en0 = (q, en2)" "\<not> fr_finished (en_frames en0 n)" for tbls sql q en0 en2
    using frameRun_log[OF that] by blast
  have active1: "\<not> fr_finished (en_frames en1 n)" using s1 assms(3) by (simp add: sameFrames_def)
  obtain failure en2 where f: "takeLock w n True en1 = (failure, en2)" by fastforce
  have "\<exists>L. en_log en2 = en_log en1 @ L \<and> sameFrames en1 en2"
  proof -
    obtain q1 ea where q1: "frameRun w n KUtility [] ''PRAGMA busy_timeout=0'' en1 = (q1, ea)" by fastforce
    from step[OF q1 active1] obtain La where La: "en_log ea = en_log en1 @ La" "sameFrames en1 ea" by blast
    obtain q2 eb where q2: "frameRun w n KUtility [''orm__row_lock''] rowLockSql ea = (q2, eb)" by fastforce
    have "\<not> fr_finished (en_frames ea n)" using La(2) active1 by (simp add: sameFrames_def)
    from step[OF q2 this] obtain Lb where Lb: "en_log eb = en_log ea @ Lb" "sameFrames ea eb" by blast
    have "en2 = ea \<or> en2 = eb" using f q1 q2 by (auto simp: takeLock_def split: sum.splits)
    with La Lb sameFrames_trans[OF La(2) Lb(2)] show ?thesis by auto
  qed
  then obtain L where L: "en_log en2 = en_log en1 @ L" "sameFrames en1 en2" by blast
  obtain q3 en3 where q3: "frameRun w n KUtility [] (''PRAGMA busy_timeout='' @ timeoutText rows) en2 = (q3, en3)" by fastforce
  have active2: "\<not> fr_finished (en_frames en2 n)" "fr_session (en_frames en2 n) = fr_session (en_frames en n)"
    using L(2) active1 s1 by (simp_all add: sameFrames_def)
  then have "control w n KUtility [] (''PRAGMA busy_timeout='' @ timeoutText rows) [] en2 = (q3, en3)"
    using q3 by (simp add: frameRun_def io_simps)
  from control_log[OF this, unfolded active2(2)] obtain ok where
    ok: "en_log en3 = en_log en2 @ [Sent (fr_session (en_frames en n)) KUtility (''PRAGMA busy_timeout='' @ timeoutText rows) ok]"
    and c: "case q3 of Inr _ \<Rightarrow> ok | Inl e \<Rightarrow> (ok \<longrightarrow> subscriberError e) \<and> (quietFailures w en2 \<and> subscriberError e \<longrightarrow> ok)" by blast
  have ran: "\<not> isl q3 \<longrightarrow> ok" using c by (cases q3) auto
  have "mode \<noteq> ''''" using assms(2) by (auto simp: endsWith_def)
  then have "en' = en3" "r = Inr () \<longrightarrow> \<not> isl q3"
    using lock assms(1,2) first f q3 by (auto simp: rowLock_def split: sum.splits option.splits)
  with L(1) ok ran show ?thesis by (intro exI[of _ L] exI[of _ ok]) auto
qed

end
