(* ===== verification/Args.thy ===== *)
theory Args
  imports Host BindCheck Decimal AuditedWrite
begin

section \<open>The values of a statement (\<open>database.ts\<close>)\<close>

text \<open>
  The bind slots of a step are resolved to the values that the driver sends: parameters are checked,
  normalized, transformed and encoded, the audit key, the key version, the keys of the parents and
  the clock are filled in. The lemmas show that a statement gets exactly one value for each slot,
  and one for each parent value, so that the values meet the placeholders of a compiled statement.
\<close>

subsection \<open>The keys of a connection\<close>

record aesconfig =
  ac_version :: int
  ac_key :: string
  ac_keyring :: "keyring option"

text \<open>The key is the given one, or the one that the keys list for the version.\<close>

definition aesConfigAt :: "int \<Rightarrow> string \<Rightarrow> (int \<times> string) list option \<Rightarrow> aesconfig res" where
  "aesConfigAt version given aesKeys =
     (let listed = (case Option.bind aesKeys (\<lambda>ks. map_of ks version) of None \<Rightarrow> '''' | Some k \<Rightarrow> k) in
      if given \<noteq> '''' \<and> aesKeys \<noteq> None \<and> listed \<noteq> given then fail CONFIG
      else
        let key = (if given \<noteq> '''' then given else listed);
            keys = (case aesKeys of Some ks \<Rightarrow> Some ks | None \<Rightarrow> if key = '''' then None else Some [(version, key)]) in
        (case keys of
           None \<Rightarrow> Inr \<lparr>ac_version = version, ac_key = key, ac_keyring = None\<rparr>
         | Some ks \<Rightarrow> bind_res (newKeyring ks version) (\<lambda>ring.
             Inr \<lparr>ac_version = version, ac_key = key, ac_keyring = Some ring\<rparr>)))"

definition aesConfig :: "int option \<Rightarrow> string option \<Rightarrow> (int \<times> string) list option \<Rightarrow> aesconfig res" where
  "aesConfig aesVersion aesKey aesKeys =
     (let version = (case aesVersion of None \<Rightarrow> 1 | Some v \<Rightarrow> v) in
      if \<not> isSafeInteger version \<or> version < 1 then fail CONFIG
      else aesConfigAt version (case aesKey of None \<Rightarrow> '''' | Some k \<Rightarrow> k) aesKeys)"

subsection \<open>One slot\<close>

text \<open>What a connection gives to its statements; the random bytes of a slot are numbered by its position.\<close>

record binding =
  bn_dialect :: string
  bn_zone :: string
  bn_aes :: aesconfig
  bn_blindIndexKey :: string
  bn_crypto :: crypto
  bn_random :: "nat \<Rightarrow> nat \<Rightarrow> string"

text \<open>\<open>params[slot.param]\<close>: a position with no parameter is undefined.\<close>

definition paramAt :: "jsvalue list \<Rightarrow> int \<Rightarrow> jsvalue" where
  "paramAt params i = (if 0 \<le> i \<and> i < int (length params) then params ! nat i else VOther ''undefined'')"

definition boundTime :: "binding \<Rightarrow> bindslot \<Rightarrow> jsvalue \<Rightarrow> jsvalue res" where
  "boundTime bn sl v =
     (if bs_col_type sl \<in> {''datetime'', ''date'', ''time''} \<and> v \<noteq> VNull
      then bind_res (timeValue (strOf v) (bs_col_type sl) (bn_zone bn) (case bs_precision sl of None \<Rightarrow> 0 | Some n \<Rightarrow> n)) (\<lambda>t. Inr (VStr t))
      else Inr v)"

definition boundDecimal :: "binding \<Rightarrow> bindslot \<Rightarrow> jsvalue \<Rightarrow> jsvalue res" where
  "boundDecimal bn sl v =
     (let precision = (case bs_precision sl of None \<Rightarrow> 0 | Some n \<Rightarrow> int n); scale = (case bs_scale sl of None \<Rightarrow> 0 | Some n \<Rightarrow> int n) in
      if bs_col_type sl = ''decimal'' \<and> v \<noteq> VNull then
        (case strOf v of
           None \<Rightarrow> fail CODEC_ENCODE
         | Some s \<Rightarrow>
             if bn_dialect bn = ''sqlite'' then bind_res (decimalScaled s precision scale) (\<lambda>n. Inr (VInt n))
             else bind_res (normalizeDecimal s precision scale) (\<lambda>t. Inr (VStr t)))
      else Inr v)"

definition boundStyles :: "binding \<Rightarrow> nat \<Rightarrow> bindslot \<Rightarrow> jsvalue \<Rightarrow> jsvalue res" where
  "boundStyles bn i sl v =
     (if ''blind_index'' \<in> set (bs_host_styles sl) then (if v = VNull then Inr VNull else blindIndex (bn_crypto bn) v (bn_blindIndexKey bn))
      else if bs_host_styles sl \<noteq> [] then hostEncode (bn_crypto bn) (bn_random bn i) v (bs_host_styles sl) (ac_key (bn_aes bn))
      else Inr v)"

definition boundParam :: "binding \<Rightarrow> nat \<Rightarrow> bindslot \<Rightarrow> jsvalue \<Rightarrow> jsvalue res" where
  "boundParam bn i sl v =
     (let plain = (bs_transform sl = '''' \<and> bs_host_styles sl = []) in
      bind_res (checkAssign v (bindSlotType sl)) (\<lambda>_.
      bind_res (if plain then checkParam v (bindSlotType sl) (bn_zone bn) else Inr ()) (\<lambda>_.
      bind_res (boundTime bn sl
        (if plain \<and> bs_col_type sl = ''bytes'' then (case v of VStr s \<Rightarrow> VBytes s | _ \<Rightarrow> v) else v)) (\<lambda>v.
      bind_res (boundDecimal bn sl v) (\<lambda>v.
      bind_res (if bs_transform sl \<noteq> '''' then transformParam (bs_transform sl) v else Inr v) (\<lambda>v.
        boundStyles bn i sl v))))))"

definition auditValue :: "bindslot \<Rightarrow> auditrecord option \<Rightarrow> jsvalue res" where
  "auditValue sl audit =
     (case audit of
        None \<Rightarrow> fail CONFIG
      | Some (table, key) \<Rightarrow> if table \<noteq> bs_name sl then fail CONFIG else Inr key)"

text \<open>A clock value is masked in the event of the statement.\<close>

definition maskedNow :: jsvalue where
  "maskedNow = VStr ''$NOW''"

definition slotValues ::
    "binding \<Rightarrow> nat \<Rightarrow> jsvalue list \<Rightarrow> jsvalue list \<Rightarrow> auditrecord option \<Rightarrow> nat \<times> bindslot \<Rightarrow> (jsvalue \<times> jsvalue) list res" where
  "slotValues bn micros params parents audit is =
     (case is of
        (i, sl) \<Rightarrow>
          if bs_from sl = ''param'' then bind_res (boundParam bn i sl (paramAt params (bs_param sl))) (\<lambda>v. Inr [(v, v)])
          else if bs_from sl = ''audit'' then bind_res (auditValue sl audit) (\<lambda>v. Inr [(v, v)])
          else if bs_from sl = ''config'' then
            (if bs_name sl \<noteq> ''aes_version'' then fail CONFIG
             else Inr [(VInt (ac_version (bn_aes bn)), VInt (ac_version (bn_aes bn)))])
          else if bs_from sl = ''parent'' then Inr (map (\<lambda>v. (v, v)) parents)
          else if bs_from sl = ''now'' then
            bind_res (now micros (bn_zone bn) (case bs_precision sl of None \<Rightarrow> 6 | Some n \<Rightarrow> n)) (\<lambda>t. Inr [(VStr t, maskedNow)])
          else fail INTERNAL)"

text \<open>\<open>args\<close>: the values and what the event of the statement shows of them. The clock is read once.\<close>

definition args ::
    "binding \<Rightarrow> nat \<Rightarrow> planstep \<Rightarrow> jsvalue list \<Rightarrow> jsvalue list \<Rightarrow> auditrecord option \<Rightarrow> (jsvalue list \<times> jsvalue list) res" where
  "args bn micros step params parents audit =
     bind_res (mapRes (slotValues bn micros params parents audit) (List.enumerate 0 (ps_bind_slots step))) (\<lambda>vs.
       Inr (map fst (concat vs), map snd (concat vs)))"

subsection \<open>One value for each slot\<close>

definition slotCount :: "nat \<Rightarrow> bindslot list \<Rightarrow> nat" where
  "slotCount parents sls = sum_list (map (\<lambda>s. if bs_from s = ''parent'' then parents else 1) sls)"

lemma slotValues_length:
  "slotValues bn micros params parents audit (i, sl) = Inr vs \<Longrightarrow>
     length vs = (if bs_from sl = ''parent'' then length parents else 1)"
  by (auto simp: slotValues_def res_simps split: if_splits)

lemma mapRes_slots:
  "mapRes (slotValues bn micros params parents audit) (List.enumerate k sls) = Inr vs \<Longrightarrow>
     length (concat vs) = slotCount (length parents) sls"
proof (induction sls arbitrary: k vs)
  case (Cons sl sls)
  then obtain v rest where "slotValues bn micros params parents audit (k, sl) = Inr v"
    "mapRes (slotValues bn micros params parents audit) (List.enumerate (Suc k) sls) = Inr rest" "vs = v # rest"
    by (auto simp: res_simps)
  with Cons.IH[of "Suc k" rest] slotValues_length[of bn micros params parents audit k sl v] show ?case
    by (simp add: slotCount_def)
qed (simp add: slotCount_def)

lemma args_length:
  assumes "args bn micros step params parents audit = Inr (vals, masked)"
  shows "length vals = slotCount (length parents) (ps_bind_slots step) \<and> length masked = length vals"
  using assms mapRes_slots by (auto simp: args_def res_simps)

lemma slotCount_plain: "\<forall>s \<in> set sls. bs_from s \<noteq> ''parent'' \<Longrightarrow> slotCount n sls = length sls"
  by (induction sls) (auto simp: slotCount_def)

text \<open>The key that a connection encrypts with is the one its keyring has for the version it stores.\<close>

lemma newKeyring_key:
  assumes "newKeyring keys version = Inr ring"
  shows "kg_keys ring = keys \<and> kg_currentVersion ring = version \<and> (\<exists>k. map_of keys version = Some k \<and> k \<noteq> [])"
proof -
  have r: "ring = \<lparr>kg_keys = keys, kg_currentVersion = version\<rparr>" "map_of keys version \<noteq> None"
    "\<not> list_ex (\<lambda>(version, key). \<not> isSafeInteger version \<or> version < 1 \<or> key = []) keys"
    using assms by (simp_all add: newKeyring_def split: if_splits)
  then obtain k where k: "map_of keys version = Some k" by blast
  from map_of_SomeD[OF this] r(3) have "k \<noteq> []" by (auto simp: list_ex_iff)
  with r(1) k show ?thesis by simp
qed

lemma aesConfigAt_key:
  assumes c: "aesConfigAt version given aesKeys = Inr c" and ring: "ac_keyring c = Some ring"
  shows "keyOf ring (ac_version c) = Inr (ac_key c) \<and> ac_key c \<noteq> '''' \<and> kg_currentVersion ring = ac_version c"
proof (cases aesKeys)
  case None
  with c ring have "given \<noteq> ''''" and r: "newKeyring [(version, given)] version = Inr ring" "ac_version c = version" "ac_key c = given"
    by (auto simp: aesConfigAt_def Let_def bind_res_def split: if_splits sum.splits)
  from newKeyring_key[OF r(1)] r(2,3) show ?thesis by (simp add: keyOf_def orFail_def)
next
  case (Some ks)
  have r: "newKeyring ks version = Inr ring" and v: "ac_version c = version"
    and k: "map_of ks version = Some k \<Longrightarrow> ac_key c = k" for k
    using c ring Some by (auto simp: aesConfigAt_def Let_def bind_res_def split: if_splits sum.splits)
  from newKeyring_key[OF r] obtain key where "map_of ks version = Some key" "key \<noteq> []" "kg_keys ring = ks" "kg_currentVersion ring = version" by blast
  with k v show ?thesis by (simp add: keyOf_def orFail_def)
qed

lemma aesConfig_key:
  assumes "aesConfig aesVersion aesKey aesKeys = Inr c" and "ac_keyring c = Some ring"
  shows "keyOf ring (ac_version c) = Inr (ac_key c) \<and> ac_key c \<noteq> '''' \<and> kg_currentVersion ring = ac_version c"
proof (rule aesConfigAt_key[OF _ assms(2)])
  show "aesConfigAt (case aesVersion of None \<Rightarrow> 1 | Some v \<Rightarrow> v) (case aesKey of None \<Rightarrow> '''' | Some k \<Rightarrow> k) aesKeys = Inr c"
    using assms(1) by (simp add: aesConfig_def Let_def split: if_splits)
qed

end
