(* ===== verification/Example.thy ===== *)
theory Example
  imports PlanSelect
begin

section \<open>Evaluation, and a small model\<close>

text \<open>
  The walks over a request are evaluated by the simplifier: the collection \<open>eval_simps\<close> unfolds
  every function of the engine, a recursive one only at a constructor, so that rewriting ends.
  The entity \<open>user\<close> below is what the concrete requests of the later theories are about.
\<close>

named_theorems eval_simps \<open>equations that evaluate the engine on a concrete request\<close>

lemmas vquery_at [eval_simps] = vquery.simps[where q = "Query q1 q2 q3 q4 q5 q6 q7 q8 q9 q10 q11 q12 q13 q14 q15 q16" for q1 q2 q3 q4 q5 q6 q7 q8 q9 q10 q11 q12 q13 q14 q15 q16]
lemmas vgroup_at [eval_simps] = vgroup.simps[where g = "Group a b c" for a b c]
lemmas vpred_at [eval_simps] = vpred.simps[where p = "Pred a b c d e f g h i j" for a b c d e f g h i j]
lemmas vsub_at [eval_simps] = vsub.simps[where sub = "Subquery a b c" for a b c]
lemmas scopes_at [eval_simps] = scopes.simps[where q = "Query q1 q2 q3 q4 q5 q6 q7 q8 q9 q10 q11 q12 q13 q14 q15 q16" for q1 q2 q3 q4 q5 q6 q7 q8 q9 q10 q11 q12 q13 q14 q15 q16]
lemmas joinedRefs_at [eval_simps] = joinedRefs.simps[where g = "Group a b c" for a b c]
lemmas placedJoins_at [eval_simps] = placedJoins.simps[where g = "Group a b c" for a b c]
lemmas buildScopes_at [eval_simps] = buildScopes.simps[where q = "Query q1 q2 q3 q4 q5 q6 q7 q8 q9 q10 q11 q12 q13 q14 q15 q16" for q1 q2 q3 q4 q5 q6 q7 q8 q9 q10 q11 q12 q13 q14 q15 q16]
lemmas renderGroup_at [eval_simps] = renderGroup.simps[where g = "Group a b c" for a b c]
lemmas renderPred_at [eval_simps] = renderPred.simps[where pr = "Pred a b c e f g h i j k" for a b c e f g h i j k]
lemmas subSelect_at [eval_simps] = subSelect.simps[where sub = "Subquery a b c" for a b c]
lemmas renderJoins_at [eval_simps] = renderJoins.simps[where pl = "Place (Scope a b c e f) g h" for a b c e f g h]
lemmas collectJoinWhere_at [eval_simps] = collectJoinWhere.simps[where pl = "Place (Scope a b c e f) g h" for a b c e f g h]
lemmas orderParts_at [eval_simps] = orderParts.simps[where s = "Scope a b c e f" for a b c e f]
lemmas selectList_at [eval_simps] = selectList.simps[where pl = "Place (Scope a b c e f) g h" for a b c e f g h]
lemmas selectStep_at [eval_simps] = selectStep.simps[where q = "Query q1 q2 q3 q4 q5 q6 q7 q8 q9 q10 q11 q12 q13 q14 q15 q16" for q1 q2 q3 q4 q5 q6 q7 q8 q9 q10 q11 q12 q13 q14 q15 q16]
lemmas relationSteps_at [eval_simps] = relationSteps.simps[where s = "Scope a b c e f" for a b c e f]

lemma run_eval [eval_simps]:
  "bnd f g s = (case f s of Inl e \<Rightarrow> Inl e | Inr (a, t) \<Rightarrow> g a t)"
  "n < 10 \<Longrightarrow> show_nat n = [digit_char n]"
  by (simp add: bnd_def) (subst show_nat.simps, simp)

lemmas model_eval [eval_simps] = fieldOf_def entityOf_def

lemmas dialect_eval [eval_simps] = columnFunctionTypes_def columnFunctionArity_def valueFunctionUnits_def
  intervalBounds_def isValueFunction_def castTo_def guardInterval_def guardResult_def quoteWith_def literal_def
  lockSuffix_def tupleIn_def conflictUpsert_def asciiLower_def mysql_readExpr_def mysql_writeExpr_def
  mysql_columnFunction_def upperUnit_def mysql_valueFunction_def mysql_fulltext_def postgres_readTime_def
  postgres_columnFunction_def intervalField_def postgres_clock_def postgres_valueFunction_def postgres_fulltext_def
  postgres_restartIdentity_def sqlite_quote_def sqlite_clockOperand_def sqlite_columnFunction_def
  sqlite_valueFunction_def sqlite_restartIdentity_def dialectOf_def

lemmas validate_eval [eval_simps] = meetClasses_def meetKind_def comparable_def equality_def opsByType_def
  hostStages_def columnOps_def numericTypes_def typeAllows_def opAllowed_def meets_def baseOp_def isIP_def
  colPairOpAllowed_def rootPlace_def joinPlace_def ref_def vparams_def ventity_def objectPrototype_def
  vcolumnFunction_def vassign_def vpredTuple_def vpredFulltext_def compareOps_def vpredFunction_def vpredValue_def
  vpredColumn_def vpredPlain_def falsy_def hasGroupBy_def itemConn_def vcolumnNames_def vcolumnFns_def
  vjoinColumns_def vkey_def vrelationHead_def vorder_def vlimit_def lockModes_def vqueryTail_def vsubHead_def
  assignedColumns_def conflictCandidates_def conflictKey_def valuedPred_def valuedColumns_def covered_def
  uniqueNames_def eqItem_def restoreAssign_def restoreKey_def IR_VERSION_def kinds_def writeKinds_def vset_def
  vonDuplicate_def vwrite_def validate_def

lemmas builder_eval [eval_simps] = newBuilder_def slot_def b_table_def tables_def push_def typed_def b_param_def
  transformed_def colParam_def b_config_def b_now_def columnIn_def b_audit_def parentList_def setLastHost_def
  cmp_def indexOf_def keyRefs_def isAES_def assignsAES_def assigned_def validateAESAssignments_def allocatedKey_def
  omissible_def validateRequiredAssignments_def addBlindIndex_def addBlindIndexAssignments_def
  isBlindIndexTarget_def sqlStart_def styleInputType_def markAssigned_def functionType_def intervalType_def
  joinScope_def joinedPlace_def qcol_def qualifiedCols_def

lemmas planexpr_eval [eval_simps] = sqlStyles_def readSqlStyles_def clientStyles_def readColumn_def renderValue_def
  renderBlindIndexValue_def between_def resolvePath_def columnFunction_def renderTuple_def renderFulltext_def
  renderValuePred_def renderFunctionPred_def blindIndexColumn_def renderColumnPred_def renderOrderItem_def
  renderOrder_def

lemmas plancond_eval [eval_simps] = joinItems_def groupText_def nonempty_def renderPlainPred_def subHead_def
  limitText_def subTail_def joinHead_def whereText_def softDeleteGuard_def

lemmas planwrite_eval [eval_simps] = renderAssign_def clock_def auditAssignment_def renderSets_def
  versionAssignment_def managedInsertColumns_def mainStep_def insertValue_def rowValue_def insertRow_def
  upsertText_def returningText_def insertHead_def insertTail_def insertSql_def insertStep_def rootOf_def
  updateSql_def updateStep_def deleteSql_def deleteStep_def restoreSql_def restoreStep_def restartIdentityStep_def

lemmas planselect_eval [eval_simps] = pushNew_def modeColumns_def removeColumns_def relationColumns_def
  projection_def subType_def outName_def outField_def selectExpr_def selectColumn_def versionColumn_def ownList_def
  joinChild_def selectGroupCountList_def withKey_def selectHead_def perParentOf_def windowOrder_def windowText_def
  parentCondition_def cutPerParent_def limitPart_def lockPart_def selectTail_def returnsRows_def selectWhere_def
  selectBody_def countGroups_def finishSelect_def rowNumberText_def selectSql_def addStep_def parentOf_def
  withExtra_def selectRole_def addSelect_def withChildren_def setAssemble_def contextOf_def relationChild_def
  paginateSteps_def planSteps_def plannerCompile_def compile_def

declare Let_def [eval_simps] refuse_def [eval_simps] orFail_def [eval_simps] isSafeInteger_def [eval_simps] present_def [eval_simps] replaceS_def [eval_simps] digit_char_def [eval_simps] enumerate_eq_zip [eval_simps]

subsection \<open>The entity \<open>user\<close>\<close>

definition plainField :: "string \<Rightarrow> string \<Rightarrow> field" where
  "plainField n t = \<lparr>f_name = n, f_type = t, f_nullable = False, f_identity = False, f_hasDefault = False,
     f_defaultNow = False, f_precision = 0, f_scale = 0, f_length = 0, f_stages = [], f_selected = True,
     f_primary = False, f_foreign = False, f_blindIndex = ''''\<rparr>"

definition userEntity :: "string \<Rightarrow> entity" where
  "userEntity softDelete =
     \<lparr>e_name = ''user'', e_table = ''user'',
      e_fields = [(plainField ''id'' ''i64'')\<lparr>f_primary := True\<rparr>, plainField ''x'' ''i64'',
        (plainField ''gone'' ''datetime'')\<lparr>f_nullable := True\<rparr>],
      e_primaryKey = [''id''], e_identity = '''', e_uniques = [], e_indexes = [], e_indexColumns = [], e_updated = '''',
      e_softDelete = softDelete, e_aesVersion = '''', e_keyPrefix = '''', e_order = '''', e_auditColumn = '''',
      e_auditRecord = '''', e_external = False\<rparr>"

definition userModel :: "string \<Rightarrow> runtimemodel" where
  "userModel softDelete = \<lparr>m_manifestHash = ''h'', m_entities = [(''user'', userEntity softDelete)]\<rparr>"

definition eqOn :: "string option \<Rightarrow> string \<Rightarrow> int \<Rightarrow> item" where
  "eqOn conn column p =
     Item (Some (Pred conn (Some column) (Some ''eq'') (Some p) None None None None None None)) None None"

definition userQuery :: "item list \<Rightarrow> query" where
  "userQuery items = Query ''user'' None None (Some (Group None None items)) None None None None None None None None
     None None None None"

definition userRequest :: "string \<Rightarrow> item list \<Rightarrow> int \<Rightarrow> request" where
  "userRequest kind items n =
     \<lparr>rq_query = userQuery items, rq_ir_version = 1, rq_manifest_hash = ''h'', rq_kind = kind, rq_load = None,
      rq_set = None, rq_on_duplicate = None, rq_rows = None, rq_optimistic = None, rq_agg = None, rq_n_params = n\<rparr>"

lemmas user_eval [eval_simps] = plainField_def userEntity_def userModel_def eqOn_def userQuery_def userRequest_def

lemma validate_count: "validate (userModel '''') (userRequest ''count'' [eqOn None ''x'' 0] 1) = Inr ()"
  by (simp add: eval_simps)

text \<open>The plan of a statement with no output columns, which the examples below compare with.\<close>

definition paramSlot :: "int \<Rightarrow> string \<Rightarrow> bindslot" where
  "paramSlot p t = \<lparr>bs_from = ''param'', bs_param = p, bs_transform = [], bs_name = [], bs_step = 0, bs_column = [],
     bs_host_styles = [], bs_col_type = t, bs_key_types = None, bs_precision = None, bs_scale = None, bs_length = None,
     bs_not_null = None\<rparr>"

definition plainPlan :: "string \<Rightarrow> string \<Rightarrow> bindslot list \<Rightarrow> plan" where
  "plainPlan kind sql slots =
     \<lparr>pl_manifest_hash = ''h'', pl_kind = kind,
      pl_steps = [\<lparr>ps_id = 0, ps_role = ''main'', ps_sql = sql, ps_tables = [''user''], ps_lock = None,
        ps_bind_slots = slots, ps_assemble = None, ps_parent = None\<rparr>]\<rparr>"

lemmas plan_eval [eval_simps] = paramSlot_def plainPlan_def

lemma plan_count:
  \<open>compile (userModel '''') ''postgres'' False (userRequest ''count'' [eqOn None ''x'' 0] 1) =
     Inr (plainPlan ''count'' ''SELECT COUNT(*) FROM "user" AS "a" WHERE "a"."x" = $1'' [paramSlot 0 ''i64''])\<close>
  by (simp add: eval_simps)

end
