(* ===== verification/Expand.thy ===== *)
theory Expand
  imports Execute
begin

section \<open>The expanded statement binds its values\<close>

text \<open>
  A relation step is compiled with one placeholder for the keys of all its parents. At run time
  \<open>expandParent\<close> replaces it by as many placeholders as there are values. The lemmas show that the
  text and the values then still agree.
\<close>

text \<open>
  The replacement reads the text without regard to quotes. It is right for a statement that is
  \<open>quiet\<close>: no placeholder marker stands inside quotes, and the text of a dialect with question
  marks holds no dollar sign, by which the source tells the dialects apart.
\<close>

fun quietRun :: "dialect \<Rightarrow> char option \<Rightarrow> string \<Rightarrow> bool" where
  "quietRun d st [] = True"
| "quietRun d None (c # cs) = quietRun d (if c = identQuote d \<or> c = CHR 39 then Some c else None) cs"
| "quietRun d (Some q) (c # cs) = (c \<noteq> marker d \<and> quietRun d (if c = q then None else Some q) cs)"

definition quiet :: "dialect \<Rightarrow> string \<Rightarrow> bool" where
  "quiet d sql \<longleftrightarrow> quietRun d None sql \<and> (marker d = CHR ''?'' \<longrightarrow> CHR ''$'' \<notin> set sql)"

text \<open>A replacement text: outside quotes, with tokens \<open>T\<close>, and set off from a preceding placeholder.\<close>

definition inserts :: "dialect \<Rightarrow> string \<Rightarrow> string list \<Rightarrow> bool" where
  "inserts d t T \<longleftrightarrow> t \<noteq> [] \<and> fragment d t T"

lemma inserts_lex: "inserts d t T \<Longrightarrow> noDigit y \<Longrightarrow> lexRun d None (t @ y) = (T @ fst (lexRun d None y), snd (lexRun d None y))"
  by (simp add: inserts_def fragment_def placeholders_def balanced_def lexRun_append)

lemma inserts_noDigit: "inserts d t T \<Longrightarrow> noDigit (t @ y)"
  by (cases t) (auto simp: inserts_def fragment_def noDigit_def)

lemma marker_no_quote: "marker d \<noteq> identQuote d" "marker d \<noteq> CHR 39"
  by (simp_all add: marker_def identQuote_def)

lemma noDigit_replaceMark:
  "(\<And>i. inserts d (f i) (T i)) \<Longrightarrow> noDigit s \<Longrightarrow> noDigit (replaceMark f k s)"
  using inserts_noDigit[of d "f k"] by (cases s) (auto simp: noDigit_def)

lemma lexRun_replaceMark:
  assumes m: "marker d = CHR ''?''" and f: "\<And>i. inserts d (f i) (T i)"
  shows "quietRun d st s \<Longrightarrow> \<forall>t \<in> set (fst (lexRun d st s)). t = [] \<Longrightarrow>
    lexRun d st (replaceMark f k s) =
      (concat (map T [k..<k + length (fst (lexRun d st s))]), snd (lexRun d st s))"
proof (induction s arbitrary: st k)
  case (Cons c cs)
  show ?case
  proof (cases st)
    case None
    show ?thesis
    proof (cases "c = CHR ''?''")
      case True
      with Cons.prems None m have c: "noDigit cs" "quietRun d None cs" "\<forall>t \<in> set (fst (lexRun d None cs)). t = []"
        using marker_no_quote[of d] by (cases cs; auto simp: noDigit_def split: if_splits)+
      have "noDigit (replaceMark f (Suc k) cs)"
        using noDigit_replaceMark[of d f T cs "Suc k"] f c(1) by simp
      from inserts_lex[OF f this] Cons.IH[OF c(2,3)] True None m marker_no_quote[of d] show ?thesis
        by (simp add: upt_conv_Cons del: upt_Suc)
    next
      case False
      with None m Cons show ?thesis by (auto split: if_splits)
    qed
  next
    case (Some q)
    with Cons m show ?thesis by auto
  qed
qed simp

lemma lexRun_skip_digits: "lexRun d None (dropWhile isDigit cs) = lexRun d None cs"
  "quietRun d None (dropWhile isDigit cs) = quietRun d None cs"
  using plain_char plain_digit by (induction cs) (auto simp: isDigit_def)

lemma noDigit_replaceDollar:
  "(\<And>i. inserts d (f i) (T i)) \<Longrightarrow> noDigit s \<Longrightarrow> noDigit (replaceDollar f s)"
  using inserts_noDigit[of d "f _"] by (cases s) (auto simp: noDigit_def)

lemma noDigit_dropWhile: "noDigit (dropWhile isDigit s)"
  using hd_dropWhile[of isDigit s] by (auto simp: noDigit_def)

lemma lexRun_replaceDollar:
  assumes m: "marker d = CHR ''$''" and f: "\<And>i. inserts d (f i) (T i)"
  shows "quietRun d st s \<Longrightarrow> \<forall>t \<in> set (fst (lexRun d st s)). t \<noteq> [] \<Longrightarrow>
    lexRun d st (replaceDollar f s) =
      (concat (map (\<lambda>t. T (read_nat t)) (fst (lexRun d st s))), snd (lexRun d st s))"
proof (induction "length s" arbitrary: st s rule: less_induct)
  case less
  show ?case
  proof (cases s)
    case Nil
    then show ?thesis by simp
  next
    case (Cons c cs)
    show ?thesis
    proof (cases st)
      case None
      show ?thesis
      proof (cases "c = CHR ''$''")
        case True
        let ?rest = "dropWhile isDigit cs"
        from True Cons less.prems None m have c: "takeWhile isDigit cs \<noteq> []" "quietRun d None ?rest"
            "\<forall>t \<in> set (fst (lexRun d None ?rest)). t \<noteq> []"
          using marker_no_quote[of d] by (auto simp: lexRun_skip_digits)
        have "length ?rest < length s" using Cons by (simp add: le_imp_less_Suc length_dropWhile_le)
        from less.hyps[OF this c(2,3)]
          inserts_lex[OF f noDigit_replaceDollar[OF f noDigit_dropWhile[of cs]], of "read_nat (takeWhile isDigit cs)"]
        show ?thesis using True Cons None m c(1) marker_no_quote[of d] by (simp add: lexRun_skip_digits)
      next
        case False
        with None m Cons less.prems less.hyps[of cs] show ?thesis by (auto split: if_splits)
      qed
    next
      case (Some q)
      with Cons m less.prems less.hyps[of cs] show ?thesis by auto
    qed
  qed
qed

lemma inserts_parentText:
  assumes "0 < n" and "\<And>m. inserts d (f m) (T m)"
  shows "inserts d (parentText width n f) (concat (map T [0..<n]))"
proof -
  have sep: "fragment d '')'' []" "fragment d '', '' []" "fragment d ''), ('' []"
    by (simp_all add: lex_eval)
  have "fragment d ((if m = 0 then '''' else if width > 1 \<and> m mod width = 0 then ''), ('' else '', '') @ f m) (T m)" for m
    using fragment_append[OF sep(2), of "f m" "T m"] fragment_append[OF sep(3), of "f m" "T m"] assms(2)[of m]
    by (auto simp: inserts_def)
  then have "fragments d (map (\<lambda>m. (if m = 0 then '''' else if width > 1 \<and> m mod width = 0 then ''), ('' else '', '') @ f m) [0..<n])
      (concat (map T [0..<n]))"
    by (simp add: fragments_def fragment_def comp_def)
  from fragment_concat[OF this] have "fragment d (parentText width n f) (concat (map T [0..<n]))"
    by (simp add: parentText_def)
  moreover have "parentText width n f \<noteq> []"
    using assms by (auto simp: parentText_def inserts_def)
  ultimately show ?thesis by (simp add: inserts_def)
qed

lemma startsWith_append: "startsWith t p \<Longrightarrow> startsWith (t @ r) p"
proof -
  assume t: "startsWith t p"
  then have "length p \<le> length t" by (metis startsWith_def length_take min.cobounded1 nle_le min_def)
  with t show ?thesis by (simp add: startsWith_def)
qed

lemma includes_token:
  "marker d = CHR ''$'' \<Longrightarrow> t \<in> set (fst (lexRun d st s)) \<Longrightarrow> startsWith t p \<Longrightarrow> includesS s (CHR ''$'' # p)"
proof (induction s arbitrary: st)
  case (Cons c cs)
  show ?case
  proof (cases "st = None \<and> c = CHR ''$'' \<and> t = takeWhile isDigit cs")
    case True
    have "startsWith (t @ dropWhile isDigit cs) p" by (rule startsWith_append[OF Cons.prems(3)])
    with True have "startsWith (c # cs) (CHR ''$'' # p)" by (simp add: startsWith_def)
    then show ?thesis by simp
  next
    case False
    with Cons show ?thesis by (cases st) (auto split: if_splits)
  qed
qed simp

text \<open>The numbers of the placeholders after the list of the parents took \<open>n\<close> numbers.\<close>

lemma renumber:
  assumes "1 \<le> p" and "p \<le> k" and "0 < n"
  shows "concat (map (\<lambda>i. if i = p then map (\<lambda>m. show_nat (i + m)) [0..<n]
      else [show_nat (if p < i then i + n - 1 else i)]) [1..<Suc k]) = map show_nat [1..<k + n]"
proof -
  let ?T = "\<lambda>i. if i = p then map (\<lambda>m. show_nat (i + m)) [0..<n] else [show_nat (if p < i then i + n - 1 else i)]"
  have split: "[1..<Suc k] = [1..<p] @ p # [Suc p..<Suc k]"
    using assms upt_add_eq_append[of 1 p "Suc k - p"] upt_conv_Cons[of p "Suc k"] by simp
  have before: "concat (map ?T [1..<p]) = map show_nat [1..<p]"
    by (subst concat_map_singleton[symmetric], rule arg_cong[of _ _ concat], rule map_cong) auto
  have at: "?T p = map show_nat [p..<p + n]"
    using arg_cong[OF map_add_upt[of p n], of "map show_nat"] by (simp add: comp_def add.commute)
  have "concat (map ?T [Suc p..<Suc k]) = map (\<lambda>i. show_nat (i + n - 1)) [Suc p..<Suc k]"
    by (subst concat_map_singleton[symmetric], rule arg_cong[of _ _ concat], rule map_cong) auto
  also have "\<dots> = map show_nat [p + n..<k + n]"
    using assms by (intro list_eq_iff_nth_eq[THEN iffD2] conjI allI impI) (auto simp: ac_simps simp del: upt_Suc)
  finally have after: "concat (map ?T [Suc p..<Suc k]) = map show_nat [p + n..<k + n]" .
  have "[1..<k + n] = [1..<p] @ [p..<p + n] @ [p + n..<k + n]"
    using assms upt_add_eq_append[of 1 p "k + n - p"] upt_add_eq_append[of p "p + n" "k - p"] by (simp add: add.commute)
  then show ?thesis unfolding split map_append concat_append list.map concat.simps before at after by simp
qed


lemma tokens_dollar: "tokens postgres i j = map show_nat [Suc i..<Suc j]"
  by (simp add: tokens_def)

lemma tokens_mark: "d = mysql \<or> d = sqlite \<Longrightarrow> tokens d i j = replicate (j - i) []"
  by (auto simp: tokens_def map_replicate_const simp del: upt_Suc)

lemma parentSlot_one:
  assumes "length (filter (\<lambda>s. bs_from s = ''parent'') bs) = 1"
  shows "\<exists>i < length bs. parentSlot bs = Some i"
proof -
  let ?par = "\<lambda>(i, s). bs_from s = ''parent''"
  have "filter (\<lambda>s. bs_from s = ''parent'') bs \<noteq> []" using assms by auto
  then obtain s where "s \<in> set bs" "bs_from s = ''parent''" by (auto simp: filter_empty_conv)
  then obtain i where "i < length bs" "bs_from (bs ! i) = ''parent''" by (auto simp: in_set_conv_nth)
  then have "(i, bs ! i) \<in> set (filter ?par (enumerate 0 bs))" by (simp add: in_set_enumerate_eq)
  then obtain e es where e: "filter ?par (enumerate 0 bs) = e # es"
    by (cases "filter ?par (enumerate 0 bs)") simp_all
  then have "e \<in> set (filter ?par (enumerate 0 bs))" by simp
  then have "fst e < length bs" by (simp add: in_set_enumerate_eq)
  with e show ?thesis by (cases e) (simp add: parentSlot_def)
qed

lemma expandSql_dollar:
  assumes al: "aligned postgres step" and q: "quiet postgres (ps_sql step)"
    and one: "length (filter (\<lambda>s. bs_from s = ''parent'') (ps_bind_slots step)) = 1" and n: "0 < n"
  shows "balanced postgres (expandSql step w n) \<and>
    placeholders postgres (expandSql step w n) = tokens postgres 0 (length (ps_bind_slots step) - 1 + n)"
proof -
  let ?d = postgres and ?k = "length (ps_bind_slots step)"
  have m: "marker ?d = CHR ''$''" by (simp add: marker_def)
  obtain i where i: "i < ?k" "parentSlot (ps_bind_slots step) = Some i" using parentSlot_one[OF one] by auto
  have toks: "fst (lexRun ?d None (ps_sql step)) = map show_nat [1..<Suc ?k]" "snd (lexRun ?d None (ps_sql step)) = None"
    using al by (auto simp: aligned_def placeholders_def balanced_def tokens_dollar)
  have "show_nat 1 \<in> set (fst (lexRun ?d None (ps_sql step)))" using toks(1) i(1) by auto
  then have inc: "includesS (ps_sql step) ''$1''"
    by (rule includes_token[OF m]) (subst show_nat.simps, simp add: digit_char_def startsWith_def)
  let ?f = "\<lambda>j. if j = i + 1 then parentText w n (\<lambda>m. ''$'' @ show_nat (j + m))
    else ''$'' @ show_nat (if j > i + 1 then j + n - 1 else j)"
  let ?T = "\<lambda>j. if j = i + 1 then map (\<lambda>m. show_nat (j + m)) [0..<n]
    else [show_nat (if i + 1 < j then j + n - 1 else j)]"
  have ins: "inserts ?d (''$'' @ show_nat j) [show_nat j]" for j
    using fragment_dollar[OF m, of j] by (simp add: inserts_def)
  have f: "inserts ?d (?f j) (?T j)" for j
  proof (cases "j = i + 1")
    case True
    show ?thesis
      using inserts_parentText[OF n ins, of w "\<lambda>m. j + m"] unfolding concat_map_singleton by (simp only: True if_True simp_thms)
  next
    case False
    then show ?thesis by (simp only: ins if_False)
  qed
  have "lexRun ?d None (replaceDollar ?f (ps_sql step)) =
      (concat (map (\<lambda>t. ?T (read_nat t)) (map show_nat [1..<Suc ?k])), None)"
    by (subst lexRun_replaceDollar[OF m f]) (use q toks in \<open>auto simp: quiet_def simp del: upt_Suc\<close>)
  also have "concat (map (\<lambda>t. ?T (read_nat t)) (map show_nat [1..<Suc ?k])) = concat (map ?T [1..<Suc ?k])"
    unfolding map_map comp_def read_show_nat ..
  also have "\<dots> = map show_nat [1..<?k + n]"
    by (rule renumber) (use i(1) n in simp_all)
  finally have "lexRun ?d None (expandSql step w n) = (map show_nat [1..<?k + n], None)"
    unfolding expandSql_def Let_def i(2) option.case using inc by (simp only: if_True)
  moreover have "[1..<?k + n] = [Suc 0..<Suc (?k - 1 + n)]" using i(1) by (intro arg_cong2[of _ _ _ _ upt]) simp_all
  ultimately show ?thesis by (simp only: placeholders_def balanced_def tokens_dollar fst_conv snd_conv simp_thms)
qed

text \<open>With question marks each placeholder stays one, and the one of the parents becomes \<open>n\<close>.\<close>

lemma concat_marks:
  "concat (map (\<lambda>s. if P s then replicate n x else [x]) bs) =
     replicate (length (filter P bs) * n + length (filter (\<lambda>s. \<not> P s) bs)) x"
  by (induction bs) (simp_all add: replicate_add replicate_append_same)

lemma includes_char: "includesS s (c # p) \<Longrightarrow> c \<in> set s"
  by (induction s) (auto simp: startsWith_def)

lemma expandSql_mark:
  assumes al: "aligned d step" and q: "quiet d (ps_sql step)" and d: "d = mysql \<or> d = sqlite"
    and one: "length (filter (\<lambda>s. bs_from s = ''parent'') (ps_bind_slots step)) = 1" and n: "0 < n"
  shows "balanced d (expandSql step w n) \<and>
    placeholders d (expandSql step w n) = tokens d 0 (length (ps_bind_slots step) - 1 + n)"
proof -
  let ?bs = "ps_bind_slots step" and ?par = "\<lambda>s. bs_from s = ''parent''"
  have m: "marker d = CHR ''?''" using d by (auto simp: marker_def)
  have toks: "fst (lexRun d None (ps_sql step)) = replicate (length ?bs) []" "snd (lexRun d None (ps_sql step)) = None"
    using al by (auto simp: aligned_def placeholders_def balanced_def tokens_mark[OF d])
  have inc: "\<not> includesS (ps_sql step) ''$1''" using q m includes_char by (auto simp: quiet_def)
  let ?f = "\<lambda>k. if k < length ?bs \<and> ?par (?bs ! k) then parentText w n (\<lambda>_. ''?'') else ''?''"
  let ?T = "\<lambda>k. if k < length ?bs \<and> ?par (?bs ! k) then replicate n [] else [[]]"
  have ins: "inserts d ''?'' [[]]"
    using d by (auto simp: inserts_def lex_eval placeholders_def balanced_def marker_def identQuote_def)
  have f: "inserts d (?f k) (?T k)" for k
    using ins inserts_parentText[OF n, of d "\<lambda>_. ''?''" "\<lambda>_. [[]]" w]
    by (simp add: concat_map_singleton map_replicate_const)
  have "lexRun d None (expandSql step w n) = (concat (map ?T [0..<length ?bs]), None)"
    unfolding expandSql_def using inc
    by (simp only: if_False, subst lexRun_replaceMark[OF m f]) (use q toks in \<open>auto simp: quiet_def\<close>)
  also have "map ?T [0..<length ?bs] = map (\<lambda>s. if ?par s then replicate n [] else [[]]) ?bs"
    by (rule nth_equalityI) simp_all
  finally have "lexRun d None (expandSql step w n) = (replicate (length ?bs - 1 + n) [], None)"
    using one sum_length_filter_compl[of ?par ?bs] unfolding concat_marks by (simp add: add.commute)
  then show ?thesis by (simp add: placeholders_def balanced_def tokens_mark[OF d])
qed

text \<open>
  The two cases as one fact: the expansion of an aligned, quiet relation step is aligned with the
  slots in which the one slot of the parents stands \<open>n\<close> times.
\<close>

lemma expandSql_binds:
  assumes "dialectOf name = Some d" and "aligned d step" and "quiet d (ps_sql step)"
    and "length (filter (\<lambda>s. bs_from s = ''parent'') (ps_bind_slots step)) = 1" and "0 < n"
  shows "balanced d (expandSql step w n) \<and>
    placeholders d (expandSql step w n) = tokens d 0 (length (ps_bind_slots step) - 1 + n)"
proof -
  from assms(1) consider "d = postgres" | "d = mysql \<or> d = sqlite"
    by (auto simp: dialectOf_def split: if_splits)
  then show ?thesis
  proof cases
    case 1
    with expandSql_dollar assms(2-) show ?thesis by simp
  next
    case 2
    from expandSql_mark[OF assms(2,3) 2 assms(4,5)] show ?thesis .
  qed
qed

text \<open>The statement of a relation, expanded for the keys of its parents, binds its values.\<close>

lemma expandParent_binds:
  assumes d: "dialectOf name = Some d" "aligned d step" "quiet d (ps_sql step)"
    and one: "length (filter (\<lambda>s. bs_from s = ''parent'') (ps_bind_slots step)) = 1"
    and parent: "ps_parent step = Some pref" "pr_keys pref \<noteq> []"
    and source: "source \<noteq> []" "length (pr_keys pref) dvd length source" "length source \<le> 2 ^ 30"
  shows "\<exists>sql vs. expandParent step source = Inr (sql, vs) \<and> take (length source) vs = source \<and> set vs = set source \<and>
    balanced d sql \<and> placeholders d sql =
      tokens d 0 (length (filter (\<lambda>s. bs_from s \<noteq> ''parent'') (ps_bind_slots step)) + length vs)"
proof -
  let ?w = "length (pr_keys pref)"
  have w: "0 < ?w" using parent(2) by simp
  then have le: "length source \<le> 2 ^ 30 * ?w" using source(3) by (cases ?w) auto
  obtain sz vs where v: "expandParent step source = Inr (expandSql step ?w (sz * ?w), vs)" "0 < sz"
      "length vs = sz * ?w" "take (length source) vs = source" "set vs = set source"
    using expandParent_values[OF parent(1) refl w source(1,2) le] by auto
  have "0 < sz * ?w" using v(2) w by simp
  note b = expandSql_binds[OF d one this, of ?w]
  have "length (ps_bind_slots step) - 1 = length (filter (\<lambda>s. bs_from s \<noteq> ''parent'') (ps_bind_slots step))"
    using one sum_length_filter_compl[of "\<lambda>s. bs_from s = ''parent''" "ps_bind_slots step"] by simp
  with b v show ?thesis by auto
qed

end
