(* ===== verification/Relations.thy ===== *)
theory Relations
  imports Execute "HOL-Library.Sublist"
begin

section \<open>The rows of a relation reach their parents\<close>

text \<open>
  What the execution of a relation step computes: the values it binds are the key tuples of the
  first eligible row of each key, and the groups it returns give every parent exactly the rows of
  the table that match it, whatever the chunks were.
\<close>

subsection \<open>The values of the parents\<close>

text \<open>A parent takes part when it is not skipped and its key has no NULL.\<close>

definition eligible :: "parentref \<Rightarrow> jsvalue list \<Rightarrow> jsvalue list \<Rightarrow> bool" where
  "eligible pref params row \<longleftrightarrow> \<not> skipsParent pref params row \<and> VNull \<notin> set (keyValues (pr_keys pref) row)"

lemma rowKey_eq:
  "rowKey row refs = (if VNull \<in> set (keyValues refs row) then Inr None
     else bind_res (keyOfValues (keyValues refs row)) (\<lambda>k. Inr (Some k)))"
  by (simp add: rowKey_def keyValues_def Let_def)

lemma addParent_cases:
  assumes "addParent pref params (ks, vs) p = Inr acc"
  obtains (new) k where "eligible pref params p" "rowKey p (pr_keys pref) = Inr (Some k)" "k \<notin> set ks"
      "acc = (ks @ [k], vs @ keyValues (pr_keys pref) p)"
  | (old) "acc = (ks, vs)" "eligible pref params p \<Longrightarrow> \<exists>k \<in> set ks. rowKey p (pr_keys pref) = Inr (Some k)"
proof -
  show thesis
  proof (cases "eligible pref params p")
    case True
    then obtain k where k: "rowKey p (pr_keys pref) = Inr (Some k)"
      using assms by (auto simp: addParent_def eligible_def rowKey_eq split: if_splits sum.splits simp: bind_res_Inr_iff)
    show thesis
    proof (cases "k \<in> set ks")
      case True
      with k \<open>eligible pref params p\<close> assms show thesis by (intro old) (auto simp: addParent_def eligible_def)
    next
      case False
      with k True assms show thesis by (intro new[of k]) (auto simp: addParent_def eligible_def)
    qed
  next
    case False
    with assms show thesis by (intro old) (auto simp: addParent_def eligible_def rowKey_eq split: if_splits)
  qed
qed

text \<open>\<open>rs\<close>: the first eligible row of each key that is not among the seen keys \<open>ks\<close>.\<close>

definition firstRows :: "parentref \<Rightarrow> jsvalue list \<Rightarrow> string list \<Rightarrow> jsvalue list list \<Rightarrow> jsvalue list list \<Rightarrow> bool" where
  "firstRows pref params ks parents rs \<longleftrightarrow>
     subseq rs parents \<and> distinct (map (\<lambda>r. rowKey r (pr_keys pref)) rs) \<and>
     (\<forall>r \<in> set rs. eligible pref params r \<and> rowKey r (pr_keys pref) \<notin> Inr ` Some ` set ks) \<and>
     (\<forall>p \<in> set parents. eligible pref params p \<longrightarrow>
        rowKey p (pr_keys pref) \<in> Inr ` Some ` set ks \<union> (\<lambda>r. rowKey r (pr_keys pref)) ` set rs)"

lemma foldRes_addParent:
  "foldRes (addParent pref params) (ks, vs) parents = Inr acc \<Longrightarrow>
   \<exists>rs. firstRows pref params ks parents rs \<and> snd acc = vs @ concat (map (keyValues (pr_keys pref)) rs)"
proof (induction parents arbitrary: ks vs)
  case Nil
  then show ?case by (intro exI[of _ "[]"]) (auto simp: firstRows_def)
next
  case (Cons p ps)
  from Cons.prems obtain acc1 where a: "addParent pref params (ks, vs) p = Inr acc1"
    "foldRes (addParent pref params) acc1 ps = Inr acc" by (auto simp: bind_res_Inr_iff)
  from a(1) show ?case
  proof (cases rule: addParent_cases)
    case (new k)
    from Cons.IH[OF a(2)[unfolded new(4)]] obtain rs where rs: "firstRows pref params (ks @ [k]) ps rs"
      "snd acc = (vs @ keyValues (pr_keys pref) p) @ concat (map (keyValues (pr_keys pref)) rs)" by blast
    then show ?thesis using new
      by (intro exI[of _ "p # rs"]) (auto simp: firstRows_def)
  next
    case old
    from Cons.IH[OF a(2)[unfolded old(1)]] obtain rs where rs: "firstRows pref params ks ps rs"
      "snd acc = vs @ concat (map (keyValues (pr_keys pref)) rs)" by blast
    then show ?thesis using old(2)
      by (intro exI[of _ rs]) (auto simp: firstRows_def)
  qed
qed

lemma parentValues_rows:
  assumes "ps_parent step = Some pref" and "parentValues step parents params = Inr vs"
  shows "\<exists>rs. firstRows pref params [] parents rs \<and> vs = concat (map (keyValues (pr_keys pref)) rs)"
  using assms foldRes_addParent[of pref params "[]" "[]" parents]
  by (auto simp: parentValues_def present_def simp: bind_res_Inr_iff)

subsection \<open>Groups\<close>

definition rowsOf :: "keyref list \<Rightarrow> string \<Rightarrow> (nat \<times> jsvalue list) list \<Rightarrow> nat list" where
  "rowsOf keys k rows = map fst (filter (\<lambda>ir. rowKey (snd ir) keys = Inr (Some k)) rows)"

lemma foldRes_addRow:
  "foldRes (addRow keys) byKey rows = Inr out \<Longrightarrow>
   orEmpty (map_of out k) = orEmpty (map_of byKey k) @ rowsOf keys k rows"
proof (induction rows arbitrary: byKey)
  case (Cons r rows)
  from Cons.prems obtain byKey1 where b: "addRow keys byKey r = Inr byKey1" "foldRes (addRow keys) byKey1 rows = Inr out"
    by (auto simp: bind_res_Inr_iff)
  from Cons.IH[OF b(2)] b(1) show ?case
    by (auto simp: addRow_def bind_res_Inr_iff rowsOf_def orEmpty_def split: option.splits if_splits)
qed (simp add: rowsOf_def)

lemma groupRows_rows:
  assumes "groupRows keys data = Inr out"
  shows "map (\<lambda>i. data ! i) (orEmpty (map_of out k)) = filter (\<lambda>r. rowKey r keys = Inr (Some k)) data"
proof -
  have "orEmpty (map_of out k) = rowsOf keys k (enumerate 0 data)"
    using foldRes_addRow[of keys "[]" "enumerate 0 data" out k] assms by (simp add: groupRows_def orEmpty_def)
  moreover have "map (\<lambda>i. data ! i) (rowsOf keys k (enumerate 0 data)) = filter (\<lambda>r. rowKey r keys = Inr (Some k)) data"
  proof -
    have "map (\<lambda>i. data ! i) (rowsOf keys k (enumerate 0 data)) =
        map snd (filter (\<lambda>ir. rowKey (snd ir) keys = Inr (Some k)) (enumerate 0 data))"
      by (auto simp: rowsOf_def in_set_enumerate_eq)
    also have "\<dots> = filter (\<lambda>r. rowKey r keys = Inr (Some k)) (map snd (enumerate 0 data))"
      by (simp only: filter_map comp_def)
    finally show ?thesis by simp
  qed
  ultimately show ?thesis by simp
qed

lemma groupRows_total:
  assumes "\<forall>r \<in> set data. \<exists>k. rowKey r keys = Inr k"
  shows "\<exists>out. groupRows keys data = Inr out"
proof -
  have "\<forall>ir \<in> set rows. \<exists>k. rowKey (snd ir) keys = Inr k \<Longrightarrow> \<exists>out. foldRes (addRow keys) byKey rows = Inr out" for rows byKey
  proof (induction rows arbitrary: byKey)
    case (Cons r rows)
    then obtain k where "rowKey (snd r) keys = Inr k" by auto
    with Cons show ?case by (cases k) (auto simp: addRow_def)
  qed simp
  moreover have "\<forall>ir \<in> set (enumerate 0 data). \<exists>k. rowKey (snd ir) keys = Inr k"
    using assms by (auto simp: in_set_enumerate_eq)
  ultimately show ?thesis by (simp add: groupRows_def)
qed

subsection \<open>A relation is complete\<close>

lemma chunks_chunks:
  "0 < w \<Longrightarrow> 0 < m \<Longrightarrow> concat (map (chunks w) (chunks (m * w) xs)) = chunks w xs"
proof (induction "length xs" arbitrary: xs rule: less_induct)
  case less
  have take: "chunks w (take (m * w) xs) @ chunks w (drop (m * w) xs) = chunks w xs" for m xs
  proof (induction m arbitrary: xs)
    case 0
    show ?case by (simp add: chunks_step[of w "[]"])
  next
    case (Suc m)
    show ?case
    proof (cases "xs = []")
      case False
      then have "chunks w (take (Suc m * w) xs) = take w xs # chunks w (take (m * w) (drop w xs))"
        using less.prems by (subst chunks_step) (simp add: drop_take min_def)
      with False less.prems Suc[of "drop w xs"] show ?thesis
        by (subst (3) chunks_step) (simp add: add.commute)
    qed (simp add: chunks_step[of w "[]"])
  qed
  show ?case
  proof (cases "xs = []")
    case True
    then show ?thesis by (simp add: chunks_step)
  next
    case False
    then have "length (drop (m * w) xs) < length xs" using less.prems by simp
    from less.hyps[OF this less.prems] take[of m xs] False less.prems show ?thesis
      by (subst chunks_step) simp
  qed
qed

lemma chunks_tuples:
  "0 < w \<Longrightarrow> \<forall>t \<in> set ts. length t = w \<Longrightarrow> chunks w (concat ts) = ts"
proof (induction ts)
  case (Cons t ts)
  then show ?case by (subst chunks_step) auto
qed (simp add: chunks_step)

lemma filter_once:
  "distinct (concat tss) \<Longrightarrow> t \<in> set (concat tss) \<Longrightarrow>
     concat (map (\<lambda>ts. if t \<in> set ts then x else []) tss) = x"
proof (induction tss)
  case (Cons ts tss)
  show ?case
  proof (cases "t \<in> set ts")
    case True
    with Cons.prems have "\<forall>us \<in> set tss. t \<notin> set us" by auto
    then have "concat (map (\<lambda>ts. if t \<in> set ts then x else []) tss) = []" by auto
    with True show ?thesis by simp
  qed (use Cons in auto)
qed simp

lemma rowKey_Some_iff:
  assumes "\<forall>v \<in> set (keyValues refs row). typedKey v \<or> v = VNull" and "\<forall>v \<in> set (keyValues refs' row'). typedKey v"
    and "rowKey row' refs' = Inr (Some k)"
  shows "rowKey row refs = Inr (Some k) \<longleftrightarrow> keyValues refs row = keyValues refs' row'"
proof (cases "VNull \<in> set (keyValues refs row)")
  case True
  moreover have "VNull \<notin> set (keyValues refs' row')" using assms(2) by (metis typedKey.simps(6))
  ultimately show ?thesis by (auto simp: rowKey_eq)
next
  case False
  with assms(1) have "\<forall>v \<in> set (keyValues refs row). typedKey v" by auto
  from keyOfValues_eq[OF this assms(2)] assms(3) False show ?thesis
    by (auto simp: rowKey_eq bind_res_Inr_iff split: if_splits)
qed

lemma typed_rowKey:
  "\<forall>v \<in> set (keyValues refs row). typedKey v \<or> v = VNull \<Longrightarrow> \<exists>k. rowKey row refs = Inr k"
proof (cases "VNull \<in> set (keyValues refs row)")
  case False
  moreover assume "\<forall>v \<in> set (keyValues refs row). typedKey v \<or> v = VNull"
  ultimately obtain k where "keyOfValues (keyValues refs row) = Inr k"
    using keyOfValues_typed[of "keyValues refs row"] by metis
  with False show ?thesis by (simp add: rowKey_eq)
qed (simp add: rowKey_eq)

text \<open>What the database answers to a chunk: the rows of the table whose key is one of its tuples.\<close>

definition answers :: "(jsvalue list \<Rightarrow> jsvalue list list res) \<Rightarrow> keyref list \<Rightarrow> nat \<Rightarrow> jsvalue list list \<Rightarrow> bool" where
  "answers sel keys w table \<longleftrightarrow> (\<forall>c. sel c = Inr (filter (\<lambda>r. keyValues keys r \<in> set (chunks w c)) table))"

lemma mapRes_Inr: "mapRes (\<lambda>x. Inr (f x)) xs = Inr (map f xs)"
  by (induction xs) simp_all

lemma relationData_rows:
  assumes sel: "answers (select step) keys w table" and parent: "ps_parent step = Some pref" "w = length (pr_keys pref)" "0 < w"
    and ts: "\<forall>t \<in> set ts. length t = w" "distinct ts" "t \<in> set ts"
    and data: "relationData select step (concat ts) driver = Inr data"
  shows "filter (\<lambda>r. keyValues keys r = t) data = filter (\<lambda>r. keyValues keys r = t) table" "set data \<subseteq> set table"
proof -
  have ne: "concat ts \<noteq> []" using ts(1,3) parent(3) by (auto simp: concat_eq_Nil_conv)
  have sel': "select step = (\<lambda>c. Inr (filter (\<lambda>r. keyValues keys r \<in> set (chunks w c)) table))"
    using sel by (auto simp: answers_def)
  obtain cs where cs: "relationChunks step (concat ts) driver = Inr cs"
      "data = concat (map (\<lambda>c. filter (\<lambda>r. keyValues keys r \<in> set (chunks w c)) table) cs)"
    using data unfolding relationData_def sel' if_not_P[OF ne] by (auto simp: bind_res_Inr_iff mapRes_Inr)
  show "set data \<subseteq> set table" using cs(2) by auto
  obtain j where "cs = chunks (2 ^ j * w) (concat ts)"
    using relationChunks_eq[OF parent(1,2) cs(1)] by blast
  then have tss: "concat (map (chunks w) cs) = ts"
    using chunks_chunks[OF parent(3), of "2 ^ j" "concat ts"] chunks_tuples[OF parent(3) ts(1)] by simp
  have "filter (\<lambda>r. keyValues keys r = t) data =
      concat (map (\<lambda>c. if t \<in> set c then filter (\<lambda>r. keyValues keys r = t) table else []) (map (chunks w) cs))"
    unfolding cs(2) filter_concat map_map
    by (intro arg_cong[of _ _ concat] map_cong) (auto simp: filter_empty_conv intro!: filter_cong)
  also have "\<dots> = filter (\<lambda>r. keyValues keys r = t) table"
    by (rule filter_once) (use ts(2,3) in \<open>simp_all only: tss\<close>)
  finally show "filter (\<lambda>r. keyValues keys r = t) data = filter (\<lambda>r. keyValues keys r = t) table" .
qed

lemma relationStep_complete:
  assumes step: "ps_role step = ''relation''" "ps_parent step = Some pref" "pr_keys pref \<noteq> []"
    and keys: "childKeys p (ps_id step) = Inr keys"
    and sel: "answers (select step) keys (length (pr_keys pref)) table"
    and parents: "parents = (if pr_step pref = 0 then main else case map_of out (pr_step pref) of None \<Rightarrow> [] | Some sd \<Rightarrow> sd_data sd)"
    and typed: "\<forall>r \<in> set table. \<forall>v \<in> set (keyValues keys r). typedKey v \<or> v = VNull"
      "\<forall>q \<in> set parents. \<forall>v \<in> set (keyValues (pr_keys pref) q). typedKey v \<or> v = VNull"
    and run: "relationStep select p params driver main out step = Inr out'"
    and q: "q \<in> set parents" "eligible pref params q"
  shows "\<exists>sd k. map_of out' (ps_id step) = Some sd \<and> rowKey q (pr_keys pref) = Inr (Some k) \<and>
    map (\<lambda>i. sd_data sd ! i) (orEmpty (map_of (sd_byKey sd) k)) =
      filter (\<lambda>r. keyValues keys r = keyValues (pr_keys pref) q) table"
proof -
  let ?kv = "keyValues (pr_keys pref)"
  from run step keys obtain vs data byKey where r: "parentValues step parents params = Inr vs"
      "relationData select step vs driver = Inr data" "groupRows keys data = Inr byKey"
      "out' = map_set (ps_id step) \<lparr>sd_step = step, sd_data = data, sd_byKey = byKey\<rparr> out"
    by (auto simp: relationStep_def bind_res_Inr_iff present_def parents[symmetric])
  from parentValues_rows[OF step(2) r(1)] obtain rs where rs: "firstRows pref params [] parents rs" "vs = concat (map ?kv rs)"
    by blast
  have typedq: "eligible pref params q' \<Longrightarrow> q' \<in> set parents \<Longrightarrow> \<forall>v \<in> set (?kv q'). typedKey v" for q'
    using typed(2) by (auto simp: eligible_def)
  obtain k where k: "rowKey q (pr_keys pref) = Inr (Some k)"
    using keyOfValues_typed[OF typedq[OF q(2,1)]] q(2) by (auto simp: rowKey_eq eligible_def)
  have sub: "set rs \<subseteq> set parents" using rs(1) by (auto simp: firstRows_def dest: list_emb_set)
  have elig: "\<forall>q' \<in> set rs. eligible pref params q'" using rs(1) by (auto simp: firstRows_def)
  have "distinct (map ?kv rs)"
    using rs(1) by (auto simp: firstRows_def distinct_map inj_on_def rowKey_eq)
  moreover have "?kv q \<in> ?kv ` set rs"
  proof -
    obtain q' where q': "q' \<in> set rs" "rowKey q' (pr_keys pref) = Inr (Some k)"
      using rs(1) q k by (auto simp: firstRows_def)
    then have "?kv q' = ?kv q"
      using rowKey_Some_iff[OF _ typedq[OF q(2,1)] k] typed(2) sub by blast
    with q'(1) show ?thesis by (metis imageI)
  qed
  ultimately have data: "filter (\<lambda>r. keyValues keys r = ?kv q) data = filter (\<lambda>r. keyValues keys r = ?kv q) table"
      "set data \<subseteq> set table"
    using relationData_rows[OF sel step(2) refl _ _ _ _ r(2)[unfolded rs(2)], of "?kv q"] step(3)
    by (auto simp: keyValues_def)
  have "filter (\<lambda>r. rowKey r keys = Inr (Some k)) data = filter (\<lambda>r. keyValues keys r = ?kv q) data"
    using rowKey_Some_iff[OF _ typedq[OF q(2,1)] k] typed(1) data(2) by (intro filter_cong) auto
  then show ?thesis using groupRows_rows[OF r(3), of k] r(4) k data(1) by auto
qed

lemma relationStep_returns:
  assumes step: "ps_parent step = Some pref" "pr_keys pref \<noteq> []"
    and keys: "childKeys p (ps_id step) = Inr keys"
    and sel: "answers (select step) keys (length (pr_keys pref)) table"
    and parents: "parents = (if pr_step pref = 0 then main else case map_of out (pr_step pref) of None \<Rightarrow> [] | Some sd \<Rightarrow> sd_data sd)"
    and typed: "\<forall>r \<in> set table. \<forall>v \<in> set (keyValues keys r). typedKey v \<or> v = VNull"
      "\<forall>q \<in> set parents. \<forall>v \<in> set (keyValues (pr_keys pref) q). typedKey v \<or> v = VNull"
    and limit: "int (length (filter (\<lambda>s. bs_from s \<noteq> ''parent'') (ps_bind_slots step)) + length (pr_keys pref)) \<le> driverLimit driver"
  shows "\<exists>out'. relationStep select p params driver main out step = Inr out'"
proof -
  have fold: "\<exists>acc'. foldRes (addParent pref params) acc ps = Inr acc'" if "set ps \<subseteq> set parents" for acc ps
    using that
  proof (induction ps arbitrary: acc)
    case (Cons q ps)
    then have "q \<in> set parents" by simp
    then obtain k where "rowKey q (pr_keys pref) = Inr k" using typed_rowKey typed(2) by blast
    then have "\<exists>acc'. addParent pref params acc q = Inr acc'"
      by (cases k) (simp_all add: addParent_def)
    then obtain acc' where "addParent pref params acc q = Inr acc'" ..
    with Cons.IH[of acc'] Cons.prems show ?case by simp
  qed simp
  obtain acc' where "foldRes (addParent pref params) ([], []) parents = Inr acc'" using fold by blast
  then obtain vs where vs: "parentValues step parents params = Inr vs"
    by (simp add: parentValues_def present_def step)
  have "1 \<le> (driverLimit driver - int (length (filter (\<lambda>s. bs_from s \<noteq> ''parent'') (ps_bind_slots step)))) div int (length (pr_keys pref))"
    using limit step(2) by (simp add: pos_imp_zdiv_pos_iff int_one_le_iff_zero_less)
  then obtain cs where cs: "relationChunks step vs driver = Inr cs"
    using step by (simp add: relationChunks_def present_def Let_def)
  have sel': "select step = (\<lambda>c. Inr (filter (\<lambda>r. keyValues keys r \<in> set (chunks (length (pr_keys pref)) c)) table))"
    using sel by (auto simp: answers_def)
  have "\<exists>data. relationData select step vs driver = Inr data \<and> set data \<subseteq> set table"
    unfolding relationData_def sel' cs by (auto simp: mapRes_Inr)
  then obtain data where data: "relationData select step vs driver = Inr data" "set data \<subseteq> set table" by blast
  obtain byKey where "groupRows keys data = Inr byKey"
    using groupRows_total[of data keys] typed_rowKey typed(1) data(2) by blast
  with vs data keys step show ?thesis
    by (auto simp: relationStep_def present_def parents[symmetric])
qed

end
