(* ===== verification/Names.thy ===== *)
theory Names
  imports Validate Text
begin

section \<open>Method names (\<open>names.ts\<close>)\<close>

text \<open>
  The methods of a model are named by a grammar: a name splits into words at its capitals, and
  the words name columns, operators and connectors. Names of columns are in lower case with
  underscores, so the capitals of a method name are those the grammar writes. The lemmas show that
  a name splits without loss, that every key names columns of the entity, and that the name that
  spells a list of order keys parses to that list. Letters beyond ASCII, which no column has, are
  kept by the change of case.
\<close>

definition isUpper :: "char \<Rightarrow> bool" where
  "isUpper c \<longleftrightarrow> codeIn 65 90 c"

definition toUpper :: "char \<Rightarrow> char" where
  "toUpper c = (if codeIn 97 122 c then char_of (of_char c - (32::nat)) else c)"

definition toLower :: "char \<Rightarrow> char" where
  "toLower c = (if isUpper c then char_of (of_char c + (32::nat)) else c)"

definition upperFirst :: "string \<Rightarrow> string" where
  "upperFirst name = (case name of [] \<Rightarrow> [] | c # cs \<Rightarrow> toUpper c # cs)"

definition pascal :: "string \<Rightarrow> string" where
  "pascal name = concat (map upperFirst (splitS (CHR ''_'') name))"

definition snake :: "string \<Rightarrow> string" where
  "snake name =
     concat (map (\<lambda>(i, c). if isUpper c then (if 0 < i then ''_'' else '''') @ [toLower c] else [c]) (enumerate 0 name))"

text \<open>Splits words before each separator; a part has the separator that starts it.\<close>

fun splitWordsFrom :: "string list \<Rightarrow> string \<Rightarrow> string list \<Rightarrow> string list \<Rightarrow> (string \<times> string list) list" where
  "splitWordsFrom seps sep part [] = [(sep, part)]"
| "splitWordsFrom seps sep part (w # ws) =
     (if w \<in> set seps then (sep, part) # splitWordsFrom seps w [] ws else splitWordsFrom seps sep (part @ [w]) ws)"

definition splitWords :: "string list \<Rightarrow> string list \<Rightarrow> (string \<times> string list) list" where
  "splitWords ws seps = splitWordsFrom seps '''' [] ws"

function words :: "string \<Rightarrow> string list" where
  "words [] = []"
| "words (c # cs) = (c # takeWhile (\<lambda>c. \<not> isUpper c) cs) # words (dropWhile (\<lambda>c. \<not> isUpper c) cs)"
  by pat_completeness auto
termination by (relation "measure length") (auto simp: le_imp_less_Suc length_dropWhile_le)

definition columnIndex :: "entity \<Rightarrow> string \<Rightarrow> string option" where
  "columnIndex e name = map_of (rev (map (\<lambda>f. (pascal (f_name f), f_name f)) (e_fields e))) name"

definition columnName :: "runtimemodel \<Rightarrow> entity option \<Rightarrow> string \<Rightarrow> string" where
  "columnName m e name =
     (case e of
        Some e \<Rightarrow> orEmpty (columnIndex e name)
      | None \<Rightarrow> (case List.map_filter (\<lambda>(n, e). columnIndex e name) (m_entities m) of [] \<Rightarrow> '''' | c # _ \<Rightarrow> c))"

text \<open>
  An operator of a key: the text of the table, or the member that the table inherits from
  \<open>Object.prototype\<close> when the word is the name of one.
\<close>

datatype opword = OpText string | OpMember string

definition leadingOps :: "string \<Rightarrow> opword option" where
  "leadingOps w =
     (case map_of [(''Ne'', ''ne''), (''Eq'', ''''), (''Gt'', ''gt''), (''Lt'', ''lt''), (''Ge'', ''ge''), (''Le'', ''le''),
        (''Lk'', ''lk''), (''Lb'', ''lb''), (''Between'', ''between'')] w of
        Some op \<Rightarrow> Some (OpText op)
      | None \<Rightarrow> if w \<in> set objectPrototype then Some (OpMember w) else None)"

definition compareWords :: "string \<Rightarrow> opword option" where
  "compareWords w =
     (case map_of [(''Eq'', ''''), (''Ne'', ''ne''), (''Gt'', ''gt''), (''Lt'', ''lt''), (''Ge'', ''ge''), (''Le'', ''le'')] w of
        Some op \<Rightarrow> Some (OpText op)
      | None \<Rightarrow> if w \<in> set objectPrototype then Some (OpMember w) else None)"

record chainkey =
  ck_conn :: string
  ck_op :: opword
  ck_column :: string
  ck_columns :: "string list"
  ck_compare :: string

definition chainKey :: "opword \<Rightarrow> string \<Rightarrow> string list \<Rightarrow> string \<Rightarrow> chainkey" where
  "chainKey op column columns compare =
     \<lparr>ck_conn = '''', ck_op = op, ck_column = column, ck_columns = columns, ck_compare = compare\<rparr>"

text \<open>The columns of the words between the words \<open>With\<close>.\<close>

definition splitWith :: "entity \<Rightarrow> string list \<Rightarrow> string list option" where
  "splitWith e ws =
     (let cols = map (\<lambda>(sep, part). columnIndex e (concat part)) (splitWords ws [''With'']) in
      if None \<in> set cols then None else Some (map the cols))"

definition tupleKey :: "entity \<Rightarrow> string \<Rightarrow> nat \<Rightarrow> string list \<Rightarrow> chainkey list" where
  "tupleKey e op least ws =
     (case splitWith e ws of
        None \<Rightarrow> []
      | Some cols \<Rightarrow> if least \<le> length cols then [chainKey (OpText op) '''' cols ''''] else [])"

definition wholeKeys :: "entity \<Rightarrow> string list \<Rightarrow> chainkey list" where
  "wholeKeys e ws =
     (case columnIndex e (concat ws) of None \<Rightarrow> [] | Some c \<Rightarrow> [chainKey (OpText '''') c [] ''''])"

definition leadingKeys :: "entity \<Rightarrow> string list \<Rightarrow> chainkey list" where
  "leadingKeys e ws =
     (case leadingOps (hd ws) of
        None \<Rightarrow> []
      | Some op \<Rightarrow>
          if length ws \<le> 1 then []
          else if hd ws = ''Ne'' \<and> ws ! 1 = ''Tuple'' then tupleKey e ''ne_tuple'' 2 (drop 2 ws)
          else (case columnIndex e (concat (tl ws)) of None \<Rightarrow> [] | Some c \<Rightarrow> [chainKey op c [] '''']))"

definition fulltextKeys :: "entity \<Rightarrow> string list \<Rightarrow> chainkey list" where
  "fulltextKeys e ws =
     (if hd ws = ''Fulltext'' then
        (let boolean = (1 < length ws \<and> ws ! 1 = ''Boolean'') in
         tupleKey e (if boolean then ''fulltext_boolean'' else ''fulltext'') 1 (drop (if boolean then 2 else 1) ws))
      else [])"

definition compareKeys :: "runtimemodel \<Rightarrow> entity \<Rightarrow> string list \<Rightarrow> chainkey list" where
  "compareKeys m e ws =
     concat (map (\<lambda>i.
       case (compareWords (ws ! i), columnIndex e (concat (take i ws))) of
         (Some op, Some left) \<Rightarrow>
           (let right = columnName m None (concat (drop (i + 1) ws)) in
            if right = '''' then [] else [chainKey op left [] right])
       | _ \<Rightarrow> []) [1..<length ws - 1])"

definition parseKey :: "runtimemodel \<Rightarrow> entity \<Rightarrow> string list \<Rightarrow> chainkey res" where
  "parseKey m e ws =
     (if ws = [] then fail CONFIG
      else (case wholeKeys e ws @ leadingKeys e ws @ (if hd ws = ''Tuple'' then tupleKey e ''tuple'' 2 (tl ws) else [])
              @ fulltextKeys e ws @ compareKeys m e ws of
        [k] \<Rightarrow> Inr k
      | _ \<Rightarrow> fail CONFIG))"

definition parseChain :: "runtimemodel \<Rightarrow> entity \<Rightarrow> string \<Rightarrow> chainkey list res" where
  "parseChain m e name =
     (if words name = [] then fail CONFIG
      else mapRes (\<lambda>(sep, part). bind_res (parseKey m e part) (\<lambda>k. Inr (k\<lparr>ck_conn := map toLower sep\<rparr>)))
        (splitWords (words name) [''And'', ''Or'']))"

record orderkey =
  ok_column :: string
  ok_desc :: bool

definition orderOf :: "entity \<Rightarrow> string list \<Rightarrow> orderkey res" where
  "orderOf e part =
     (if length part < 2 \<or> last part \<notin> {''Asc'', ''Desc''} then fail CONFIG
      else (case columnIndex e (concat (butlast part)) of
        None \<Rightarrow> fail CONFIG
      | Some column \<Rightarrow> Inr \<lparr>ok_column = column, ok_desc = (last part = ''Desc'')\<rparr>))"

definition parseOrder :: "entity \<Rightarrow> string \<Rightarrow> orderkey list res" where
  "parseOrder e name = mapRes (\<lambda>(sep, part). orderOf e part) (splitWords (words name) [''And''])"

definition splitPair :: "runtimemodel \<Rightarrow> entity option \<Rightarrow> entity option \<Rightarrow> string \<Rightarrow> (string \<times> string) res" where
  "splitPair m left right name =
     (let ws = words name;
          found = concat (map (\<lambda>i.
            let l = columnName m left (concat (take i ws)); r = columnName m right (concat (drop (i + 1) ws)) in
            if ws ! i = ''With'' \<and> l \<noteq> '''' \<and> r \<noteq> '''' then [(l, r)] else []) [0..<length ws]) in
      case found of [p] \<Rightarrow> Inr p | _ \<Rightarrow> fail CONFIG)"

subsection \<open>Words\<close>

lemma concat_words: "concat (words s) = s"
  by (induction s rule: words.induct) simp_all

lemma words_append:
  assumes "a \<noteq> []" and "b = [] \<or> isUpper (hd b)"
  shows "words (a @ b) = words a @ words b"
  using assms(1)
proof (induction a rule: words.induct)
  case (2 c cs)
  have b: "takeWhile (\<lambda>c. \<not> isUpper c) b = []" "dropWhile (\<lambda>c. \<not> isUpper c) b = b"
    using assms(2) by (cases b; simp)+
  show ?case
  proof (cases "\<exists>x \<in> set cs. isUpper x")
    case True
    then have "dropWhile (\<lambda>c. \<not> isUpper c) cs \<noteq> []" by auto
    moreover from True obtain x where "x \<in> set cs" "isUpper x" by blast
    then have "takeWhile (\<lambda>c. \<not> isUpper c) (cs @ b) = takeWhile (\<lambda>c. \<not> isUpper c) cs"
      "dropWhile (\<lambda>c. \<not> isUpper c) (cs @ b) = dropWhile (\<lambda>c. \<not> isUpper c) cs @ b"
      by (simp_all add: takeWhile_append1 dropWhile_append1)
    ultimately show ?thesis using 2 by simp
  next
    case False
    then have "takeWhile (\<lambda>c. \<not> isUpper c) cs = cs" "dropWhile (\<lambda>c. \<not> isUpper c) cs = []"
      by (auto simp: takeWhile_eq_all_conv)
    moreover have "takeWhile (\<lambda>c. \<not> isUpper c) (cs @ b) = cs" "dropWhile (\<lambda>c. \<not> isUpper c) (cs @ b) = b"
      using False b by (simp_all add: takeWhile_append2 dropWhile_append2)
    ultimately show ?thesis by (simp only: append_Cons words.simps append_Nil)
  qed
qed simp

lemma splitWordsFrom_append:
  "set ws \<inter> set seps = {} \<Longrightarrow> splitWordsFrom seps sep part (ws @ rest) = splitWordsFrom seps sep (part @ ws) rest"
  by (induction ws arbitrary: part) auto

lemma splitWords_join:
  assumes "\<forall>p \<in> set (part # parts). set p \<inter> set seps = {}" and "s \<in> set seps"
  shows "splitWordsFrom seps sep [] (part @ concat (map (\<lambda>p. s # p) parts)) = (sep, part) # map (\<lambda>p. (s, p)) parts"
  using assms
proof (induction parts arbitrary: sep part)
  case Nil
  then show ?case using splitWordsFrom_append[of part seps sep "[]" "[]"] by simp
next
  case (Cons p parts)
  then show ?case using splitWordsFrom_append[of part seps sep "[]"] by simp
qed

subsection \<open>Keys name columns of the entity\<close>

lemma columnIndex_SomeD: "columnIndex e name = Some c \<Longrightarrow> c \<in> f_name ` set (e_fields e) \<and> pascal c = name"
  by (auto simp: columnIndex_def dest!: map_of_SomeD)

lemma splitWith_columns: "splitWith e ws = Some cols \<Longrightarrow> set cols \<subseteq> f_name ` set (e_fields e)"
proof
  fix c assume s: "splitWith e ws = Some cols" and c: "c \<in> set cols"
  define found where "found = map (\<lambda>(sep, part). columnIndex e (concat part)) (splitWords ws [''With''])"
  have f: "None \<notin> set found" "cols = map the found"
    using s by (auto simp: splitWith_def found_def Let_def split: if_splits)
  with c have "Some c \<in> set found" by (auto, metis option.exhaust_sel)
  then show "c \<in> f_name ` set (e_fields e)" unfolding found_def by (auto dest: columnIndex_SomeD[OF sym])
qed

definition columnsOf :: "chainkey \<Rightarrow> string set" where
  "columnsOf k = set (ck_columns k) \<union> ({ck_column k} - {''''})"

lemma key_columns: "columnsOf (chainKey op c cs cmp) = set cs \<union> ({c} - {''''})"
  by (simp add: columnsOf_def chainKey_def)

lemma tupleKey_columns: "k \<in> set (tupleKey e op n ws) \<Longrightarrow> columnsOf k \<subseteq> f_name ` set (e_fields e)"
  by (cases "splitWith e ws") (auto simp: tupleKey_def key_columns dest: splitWith_columns split: if_splits)

lemma leadingKeys_columns: "k \<in> set (leadingKeys e ws) \<Longrightarrow> columnsOf k \<subseteq> f_name ` set (e_fields e)"
  by (cases "leadingOps (hd ws)"; cases "columnIndex e (concat (tl ws))")
    (auto simp: leadingKeys_def key_columns split: if_splits dest: columnIndex_SomeD dest!: tupleKey_columns)

lemma compareKeys_columns: "k \<in> set (compareKeys m e ws) \<Longrightarrow> columnsOf k \<subseteq> f_name ` set (e_fields e)"
  by (auto simp: compareKeys_def Let_def key_columns split: option.splits if_splits dest: columnIndex_SomeD[OF sym])

lemma wholeKeys_columns: "k \<in> set (wholeKeys e ws) \<Longrightarrow> columnsOf k \<subseteq> f_name ` set (e_fields e)"
  by (auto simp: wholeKeys_def key_columns split: option.splits dest: columnIndex_SomeD[OF sym])

lemma parseKey_columns:
  assumes "parseKey m e ws = Inr k"
  shows "columnsOf k \<subseteq> f_name ` set (e_fields e)"
proof -
  from assms have "k \<in> set (wholeKeys e ws @ leadingKeys e ws @ (if hd ws = ''Tuple'' then tupleKey e ''tuple'' 2 (tl ws) else [])
      @ fulltextKeys e ws @ compareKeys m e ws)"
    unfolding parseKey_def by (simp only: split: if_splits list.splits) auto
  then consider "k \<in> set (wholeKeys e ws)" | "k \<in> set (leadingKeys e ws)" | "k \<in> set (compareKeys m e ws)"
    | op n ws' where "k \<in> set (tupleKey e op n ws')"
    by (auto simp: fulltextKeys_def Let_def split: if_splits)
  then show ?thesis
    using wholeKeys_columns leadingKeys_columns compareKeys_columns tupleKey_columns by cases blast+
qed

lemma mapRes_mem: "mapRes f xs = Inr ys \<Longrightarrow> y \<in> set ys \<Longrightarrow> \<exists>x \<in> set xs. f x = Inr y"
  by (induction xs arbitrary: ys) (auto simp: bind_res_Inr_iff)

lemma parseChain_columns:
  assumes "parseChain m e name = Inr ks" and "k \<in> set ks"
  shows "columnsOf k \<subseteq> f_name ` set (e_fields e)"
proof -
  from assms(1) have "mapRes (\<lambda>(sep, part). bind_res (parseKey m e part) (\<lambda>k. Inr (k\<lparr>ck_conn := map toLower sep\<rparr>)))
      (splitWords (words name) [''And'', ''Or'']) = Inr ks"
    by (simp add: parseChain_def split: if_splits)
  from mapRes_mem[OF this assms(2)] obtain sep part k' where "parseKey m e part = Inr k'" "k = k'\<lparr>ck_conn := map toLower sep\<rparr>"
    by (auto simp: bind_res_Inr_iff)
  with parseKey_columns[of m e part k'] show ?thesis by (simp add: columnsOf_def)
qed

subsection \<open>Order keys\<close>

definition orderWord :: "orderkey \<Rightarrow> string" where
  "orderWord k = pascal (ok_column k) @ (if ok_desc k then ''Desc'' else ''Asc'')"

text \<open>A column whose name can stand in a method name: it is found, it starts with a letter and has no word \<open>And\<close>.\<close>

definition spelled :: "entity \<Rightarrow> string \<Rightarrow> bool" where
  "spelled e c \<longleftrightarrow> columnIndex e (pascal c) = Some c \<and> pascal c \<noteq> [] \<and> isUpper (hd (pascal c)) \<and> ''And'' \<notin> set (words (pascal c))"

lemma words_order:
  assumes "spelled e (ok_column k)"
  shows "words (orderWord k) = words (pascal (ok_column k)) @ [if ok_desc k then ''Desc'' else ''Asc'']"
    "''And'' \<notin> set (words (orderWord k))" "orderWord k \<noteq> []" "isUpper (hd (orderWord k))"
proof -
  let ?dir = "if ok_desc k then ''Desc'' else ''Asc''"
  have dir: "words ?dir = [?dir]" "isUpper (hd ?dir)" by (simp_all add: isUpper_def codeIn_def)
  have p: "pascal (ok_column k) \<noteq> []" "isUpper (hd (pascal (ok_column k)))" "''And'' \<notin> set (words (pascal (ok_column k)))"
    using assms by (simp_all add: spelled_def)
  show w: "words (orderWord k) = words (pascal (ok_column k)) @ [?dir]"
    unfolding orderWord_def words_append[OF p(1) disjI2[OF dir(2)]] dir(1) ..
  show "''And'' \<notin> set (words (orderWord k))" unfolding w using p(3) by simp
  show "orderWord k \<noteq> []" "isUpper (hd (orderWord k))" using p by (simp_all add: orderWord_def)
qed

lemma words_join:
  assumes "\<forall>w \<in> set (a # as). w \<noteq> [] \<and> isUpper (hd w)"
  shows "words (joinS ''And'' (a # as)) = words a @ concat (map (\<lambda>w. ''And'' # words w) as)"
  using assms
proof (induction as arbitrary: a)
  case (Cons b as)
  let ?j = "joinS ''And'' (b # as)"
  have andw: "words ''And'' = [''And'']" "isUpper (hd (''And'' @ ?j))" by (simp_all add: isUpper_def codeIn_def)
  have "hd ?j = hd b" using Cons.prems by (cases as) auto
  then have j: "isUpper (hd ?j)" using Cons.prems by simp
  have "words (a @ ''And'' @ ?j) = words a @ words ''And'' @ words ?j"
    using words_append[OF _ disjI2[OF andw(2)], of a] words_append[OF _ disjI2[OF j], of "''And''"] Cons.prems by simp
  with Cons andw show ?case by simp
qed simp

lemma orderOf_word:
  assumes "spelled e (ok_column k)"
  shows "orderOf e (words (orderWord k)) = Inr k"
proof -
  have "words (pascal (ok_column k)) \<noteq> []" using assms by (cases "pascal (ok_column k)") (auto simp: spelled_def)
  then have "\<not> length (words (orderWord k)) < 2"
    using words_order(1)[OF assms] by (cases "words (pascal (ok_column k))") auto
  then show ?thesis using assms by (simp add: orderOf_def words_order(1)[OF assms] concat_words spelled_def)
qed

lemma mapRes_inverse: "\<forall>x \<in> set xs. f (g x) = Inr x \<Longrightarrow> mapRes f (map g xs) = Inr xs"
  by (induction xs) auto

lemma parseOrder_spelled:
  assumes "ks \<noteq> []" and "\<forall>k \<in> set ks. spelled e (ok_column k)"
  shows "parseOrder e (joinS ''And'' (map orderWord ks)) = Inr ks"
proof -
  obtain k ks' where ks: "ks = k # ks'" using assms(1) by (cases ks) auto
  have "words (joinS ''And'' (map orderWord ks)) = words (orderWord k) @ concat (map (\<lambda>w. ''And'' # words w) (map orderWord ks'))"
    unfolding ks list.map by (rule words_join) (use assms(2) words_order(3,4) in \<open>auto simp: ks\<close>)
  then have sp: "splitWords (words (joinS ''And'' (map orderWord ks))) [''And''] =
      ([], words (orderWord k)) # map (\<lambda>k. (''And'', words (orderWord k))) ks'"
    using splitWords_join[of "words (orderWord k)" "map (\<lambda>k. words (orderWord k)) ks'" "[''And'']" "''And''" "[]"] assms(2) words_order(2)
    by (auto simp: splitWords_def ks comp_def)
  show ?thesis
    unfolding parseOrder_def sp
    using mapRes_inverse[of ks' "\<lambda>(sep, part). orderOf e part" "\<lambda>k. (''And'', words (orderWord k))"] orderOf_word assms(2)
    by (simp add: ks)
qed

end
