(* ===== verification/SplitIn.thy ===== *)
theory SplitIn
  imports Relations Canonical
begin

section \<open>Reads with a long IN list (\<open>database.ts\<close>)\<close>

text \<open>
  A read whose statement needs more placeholders than the driver permits runs in parts: the
  longest IN list of its conditions is cut into lists within the limit, and the rows of the parts
  are merged by their keys. The plans come from an argument \<open>planOf\<close>, the plan cache, and the rows
  of a statement from an argument, the driver. The lemmas show that every part is within the
  limit and that the parts together hold every value of the list, up to the text of a value.
\<close>

subsection \<open>The list that is split\<close>

definition rootItems :: "request \<Rightarrow> item list" where
  "rootItems r = (case q_where (rq_query r) of None \<Rightarrow> [] | Some g \<Rightarrow> g_items g)"

text \<open>The length of the list of values of an item; zero when it is no IN list of values.\<close>

definition inLength :: "item \<Rightarrow> nat" where
  "inLength it =
     (case i_pred it of
        Some p \<Rightarrow> if p_op p = Some ''in'' \<and> p_sub p = None then length (orEmpty (p_ps p)) else 0
      | None \<Rightarrow> 0)"

definition rootInTarget :: "request \<Rightarrow> nat option" where
  "rootInTarget r =
     foldl (\<lambda>target (i, it).
       if 0 < inLength it \<and> (case target of None \<Rightarrow> True | Some t \<Rightarrow> inLength (rootItems r ! t) < inLength it)
       then Some i else target) None (enumerate 0 (rootItems r))"

definition setPs :: "int list \<Rightarrow> pred \<Rightarrow> pred" where
  "setPs ps p = Pred (p_conn p) (p_column p) (p_op p) (p_p p) (Some ps) (p_ref p) (p_fn p) (p_value p) (p_cols p) (p_sub p)"

definition setItems :: "item list \<Rightarrow> query \<Rightarrow> query" where
  "setItems items q =
     Query (q_entity q) (q_columns q) (q_on q)
       (map_option (\<lambda>g. Group (g_conn g) (g_not g) items) (q_where q)) (q_joins q) (q_relations q) (q_order q)
       (q_group_by q) (q_limit q) (q_force_index q) (q_lock q) (q_key_by q) (q_flatten q) (q_limit_per_parent q)
       (q_if_parent q) (q_no_cascade_delete q)"

text \<open>The list of values of the item \<open>target\<close>: \<open>present\<close> fails on another item.\<close>

definition targetPs :: "request \<Rightarrow> nat \<Rightarrow> int list res" where
  "targetPs r target =
     (if target < length (rootItems r) then
        bind_res (present (i_pred (rootItems r ! target))) (\<lambda>p. present (p_ps p))
      else Inl JsError)"

text \<open>The copy; the request itself is as before, since the list that was taken out is put back.\<close>

definition withRootInList :: "request \<Rightarrow> nat \<Rightarrow> int list \<Rightarrow> request res" where
  "withRootInList r target ps =
     bind_res (targetPs r target) (\<lambda>_.
       let it = rootItems r ! target in
       Inr (r\<lparr>rq_query := setItems ((rootItems r)[target := Item (map_option (setPs ps) (i_pred it)) (i_group it) (i_joined it)])
         (rq_query r)\<rparr>))"

subsection \<open>The parts\<close>

definition itemConnOf :: "item \<Rightarrow> string option" where
  "itemConnOf it =
     (case Option.bind (i_pred it) p_conn of
        Some c \<Rightarrow> Some c
      | None \<Rightarrow> (case Option.bind (i_group it) g_conn of
          Some c \<Rightarrow> Some c
        | None \<Rightarrow> Option.bind (i_joined it) jr_conn))"

text \<open>A condition of the list is joined with OR to its neighbour.\<close>

definition joinedWithOr :: "item list \<Rightarrow> bool" where
  "joinedWithOr items \<longleftrightarrow>
     (\<exists>i \<in> set [0..<length items].
        (case i_pred (items ! i) of
           None \<Rightarrow> False
         | Some p \<Rightarrow> p_conn p = Some ''or'' \<or> (i + 1 < length items \<and> itemConnOf (items ! (i + 1)) = Some ''or'')))"

text \<open>\<open>ps.filter(...)\<close>: the first parameter of each text of a value.\<close>

fun uniqueBy :: "(int \<Rightarrow> string) \<Rightarrow> string set \<Rightarrow> int list \<Rightarrow> int list" where
  "uniqueBy key seen [] = []"
| "uniqueBy key seen (i # is) =
     (if key i \<in> seen then uniqueBy key seen is else i # uniqueBy key (insert (key i) seen) is)"

definition padSlice :: "int list \<Rightarrow> int list res" where
  "padSlice slice =
     (case bucket (length slice) of
        None \<Rightarrow> Inl NoReturn
      | Some n \<Rightarrow> if slice = [] then Inl JsError else Inr (slice @ replicate (n - length slice) (last slice)))"

definition rootInParts :: "request \<Rightarrow> nat \<Rightarrow> string \<Rightarrow> jsvalue list \<Rightarrow> request list res" where
  "rootInParts r need driver params =
     (if int need \<le> driverLimit driver then Inr []
      else if q_limit (rq_query r) \<noteq> None \<or> orEmpty (q_order (rq_query r)) \<noteq> [] \<or> orEmpty (q_group_by (rq_query r)) \<noteq> []
        \<or> q_where (rq_query r) = None then fail IR_INVALID
      else if joinedWithOr (rootItems r) then fail IR_INVALID
      else (case rootInTarget r of
        None \<Rightarrow> fail IR_INVALID
      | Some target \<Rightarrow>
          bind_res (targetPs r target) (\<lambda>ps.
            let available = driverLimit driver - (int need - int (length ps)) in
            if available < 1 then fail IR_INVALID
            else
              (let chunk = doubleBelow (nat available) 1;
                   unique = uniqueBy (\<lambda>i. scalarKey (cellAt params i)) {} ps in
               mapRes (\<lambda>slice. bind_res (padSlice slice) (withRootInList r target)) (chunks chunk unique)))))"

definition splitReadPlan ::
    "(request \<Rightarrow> plan res) \<Rightarrow> string \<Rightarrow> request \<Rightarrow> jsvalue list \<Rightarrow> (plan \<times> nat) res" where
  "splitReadPlan planOf driver r params =
     (let whole = bind_res (planOf r) (\<lambda>p. bind_res (mainStepOf p) (\<lambda>st. Inr (p, length (ps_bind_slots st)))) in
      case (if int (length params) > driverLimit driver then rootInTarget r else None) of
        None \<Rightarrow> whole
      | Some target \<Rightarrow>
          bind_res (targetPs r target) (\<lambda>ps.
          bind_res (withRootInList r target (take 1 ps)) (\<lambda>short.
          bind_res (planOf short) (\<lambda>p.
          bind_res (mainStepOf p) (\<lambda>st.
            let need = length (ps_bind_slots st) - 1 + length ps in
            if int need \<le> driverLimit driver then whole else Inr (p, need))))))"

definition readParts ::
    "(request \<Rightarrow> plan res) \<Rightarrow> string \<Rightarrow> bool \<Rightarrow> request \<Rightarrow> jsvalue list \<Rightarrow> (plan \<times> request list) res" where
  "readParts planOf driver inTransaction r params =
     bind_res (checkLock inTransaction (rq_query r)) (\<lambda>_.
     bind_res (splitReadPlan planOf driver r params) (\<lambda>(p, need).
     bind_res (rootInParts r need driver params) (\<lambda>parts. Inr (p, parts))))"

subsection \<open>The merged rows\<close>

text \<open>\<open>seen\<close> and \<open>main\<close> of the loop over the rows of the parts\<close>

definition addSplitRow ::
    "keyref list \<Rightarrow> string list \<times> jsvalue list list \<Rightarrow> jsvalue list \<Rightarrow> (string list \<times> jsvalue list list) res" where
  "addSplitRow keys acc row =
     bind_res (splitRowKey row keys) (\<lambda>k.
       Inr (if k \<in> set (fst acc) then acc else (fst acc @ [k], snd acc @ [row])))"

definition addPart ::
    "(request \<Rightarrow> plan res) \<Rightarrow> (plan \<Rightarrow> planstep \<Rightarrow> jsvalue list list res) \<Rightarrow> string list \<times> jsvalue list list \<Rightarrow> request
       \<Rightarrow> (string list \<times> jsvalue list list) res" where
  "addPart planOf selectRows acc part =
     bind_res (planOf part) (\<lambda>p.
     bind_res (mainStepOf p) (\<lambda>st.
     bind_res (selectRows p st) (\<lambda>rows.
     bind_res (present (ps_assemble st)) (\<lambda>a. foldRes (addSplitRow (as_key a)) acc rows))))"

definition mainRows ::
    "(request \<Rightarrow> plan res) \<Rightarrow> (plan \<Rightarrow> planstep \<Rightarrow> jsvalue list list res) \<Rightarrow> plan \<Rightarrow> request list \<Rightarrow> jsvalue list list res" where
  "mainRows planOf selectRows cached parts =
     (if parts = [] then bind_res (mainStepOf cached) (selectRows cached)
      else bind_res (foldRes (addPart planOf selectRows) ([], []) parts) (\<lambda>acc. Inr (snd acc)))"

text \<open>The count of a split request is the sum of its parts; another aggregate has no parts to merge.\<close>

definition scalarParts ::
    "(request \<Rightarrow> plan res) \<Rightarrow> (plan \<Rightarrow> planstep \<Rightarrow> jsvalue res) \<Rightarrow> (jsvalue \<Rightarrow> int) \<Rightarrow> request \<Rightarrow> plan \<Rightarrow> request list \<Rightarrow> jsvalue res" where
  "scalarParts planOf run toNumber r cached parts =
     (case parts of
        [] \<Rightarrow> bind_res (mainStepOf cached) (run cached)
      | [part] \<Rightarrow> bind_res (planOf part) (\<lambda>p. bind_res (mainStepOf p) (run p))
      | _ \<Rightarrow>
          if rq_kind r \<noteq> ''count'' then fail IR_INVALID
          else bind_res (foldRes (\<lambda>total part.
            bind_res (planOf part) (\<lambda>p. bind_res (mainStepOf p) (\<lambda>st. bind_res (run p st) (\<lambda>v. Inr (total + toNumber v))))) 0 parts)
            (\<lambda>total. Inr (VInt total)))"

subsection \<open>Every part is within the limit\<close>

lemma uniqueBy_subset: "set (uniqueBy key seen is) \<subseteq> set is"
  by (induction "is" arbitrary: seen) auto

lemma uniqueBy_keys: "key ` set (uniqueBy key seen is) \<union> seen = key ` set is \<union> seen"
proof (induction "is" arbitrary: seen)
  case (Cons i "is")
  from Cons[of seen] Cons[of "insert (key i) seen"] show ?case by auto
qed simp

lemma uniqueBy_distinct: "distinct (map key (uniqueBy key seen is)) \<and> key ` set (uniqueBy key seen is) \<inter> seen = {}"
proof (induction "is" arbitrary: seen)
  case (Cons i "is")
  from Cons[of seen] Cons[of "insert (key i) seen"] show ?case by auto
qed simp

lemma padSlice_ok:
  assumes "slice \<noteq> []" and "length slice \<le> 2 ^ j" and "j \<le> 30"
  shows "\<exists>ps. padSlice slice = Inr ps \<and> length ps \<le> 2 ^ j \<and> set ps = set slice \<and> take (length slice) ps = slice"
proof -
  have "length slice \<le> 2 ^ 30" using assms(2,3) power_increasing[of j 30 "2::nat"] by linarith
  then obtain i where i: "bucket (length slice) = Some (2 ^ i)" "length slice \<le> 2 ^ i"
      "2 ^ i = (1::nat) \<or> 2 ^ i < 2 * length slice" using bucket_Some by blast
  have "2 ^ i \<le> (2::nat) ^ j"
  proof (cases "2 ^ i = (1::nat)")
    case False
    then have "2 ^ i < 2 * (2::nat) ^ j" using i(3) assms(2) by linarith
    then show ?thesis by (rule power2_le)
  qed simp
  then show ?thesis using i assms(1) by (auto simp: padSlice_def)
qed

lemma rootItems_set: "q_where (rq_query r) \<noteq> None \<Longrightarrow> rootItems (r\<lparr>rq_query := setItems items (rq_query r)\<rparr>) = items"
  by (cases "q_where (rq_query r)") (auto simp: rootItems_def setItems_def)

lemma withRootInList_ok:
  assumes "targetPs r target = Inr ps"
  shows "\<exists>r'. withRootInList r target qs = Inr r' \<and> targetPs r' target = Inr qs \<and>
    rootItems r' = (rootItems r)[target := rootItems r' ! target] \<and> i_pred (rootItems r' ! target) = map_option (setPs qs) (i_pred (rootItems r ! target))"
proof -
  have t: "target < length (rootItems r)" using assms by (auto simp: targetPs_def split: if_splits)
  then have "q_where (rq_query r) \<noteq> None" by (auto simp: rootItems_def split: option.splits)
  from rootItems_set[OF this] t assms show ?thesis
    by (auto simp: withRootInList_def Let_def targetPs_def present_def setPs_def split: option.splits if_splits)
qed

text \<open>The item that is chosen has values.\<close>

lemma rootInTarget_ps:
  assumes "rootInTarget r = Some target"
  shows "\<exists>ps. targetPs r target = Inr ps \<and> ps \<noteq> [] \<and> length ps = inLength (rootItems r ! target) \<and> target < length (rootItems r)"
proof -
  let ?f = "\<lambda>target (i, it). if 0 < inLength it \<and> (case target of None \<Rightarrow> True | Some t \<Rightarrow> inLength (rootItems r ! t) < inLength it)
       then Some i else target"
  have "\<forall>(i, it) \<in> set es. i < length (rootItems r) \<and> rootItems r ! i = it \<Longrightarrow>
      foldl ?f t0 es = Some t \<Longrightarrow> t0 = Some t \<or> (t < length (rootItems r) \<and> 0 < inLength (rootItems r ! t))" for es t0 t
  proof (induction es arbitrary: t0)
    case (Cons e es)
    from Cons.prems(2) have "foldl ?f (?f t0 e) es = Some t" by simp
    from Cons.IH[OF _ this] Cons.prems(1) show ?case by (cases e) (auto split: if_splits)
  qed simp
moreover have "\<forall>(i, it) \<in> set (enumerate 0 (rootItems r)). i < length (rootItems r) \<and> rootItems r ! i = it"
    by (auto simp: in_set_enumerate_eq)
  ultimately have t: "target < length (rootItems r)" "0 < inLength (rootItems r ! target)"
    using assms unfolding rootInTarget_def by blast+
  then show ?thesis
    by (auto simp: targetPs_def inLength_def present_def orEmpty_def split: option.splits if_splits)
qed

lemma mapRes_Inr_map: "\<forall>x \<in> set xs. \<exists>y. f x = Inr y \<Longrightarrow> \<exists>ys. mapRes f xs = Inr ys"
  by (induction xs) fastforce+

lemma mapRes_image: "mapRes f xs = Inr ys \<Longrightarrow> Inr ` set ys = f ` set xs"
proof (induction xs arbitrary: ys)
  case (Cons x xs)
  from Cons.prems obtain z zs where "f x = Inr z" "mapRes f xs = Inr zs" "ys = z # zs" by (auto simp: bind_res_Inr_iff)
  with Cons.IH[of zs] show ?case by simp
qed simp

lemma doubleBelow_limit:
  assumes "1 \<le> n" and "n \<le> 65535"
  shows "\<exists>j\<le>30. doubleBelow n 1 = 2 ^ j \<and> 2 ^ j \<le> n"
proof -
  obtain j where j: "doubleBelow n 1 = 2 ^ j" "2 ^ j \<le> n" using doubleBelow_power[of 0 n] assms(1) by auto
  have "(2::nat) ^ j < 2 ^ 16" using j(2) assms(2) by simp
  then have "j < 16" using power_less_imp_less_exp[of "2::nat" j 16] by simp
  with j show ?thesis by (intro exI[of _ j]) simp
qed

lemma part_ok:
  assumes "targetPs r target = Inr ps" and "slice \<noteq> []" and "length slice \<le> 2 ^ j" and "j \<le> 30"
  shows "\<exists>part qs. bind_res (padSlice slice) (withRootInList r target) = Inr part \<and> targetPs part target = Inr qs \<and>
    set qs = set slice \<and> length qs \<le> 2 ^ j"
proof -
  obtain qs where q: "padSlice slice = Inr qs" "length qs \<le> 2 ^ j" "set qs = set slice" using padSlice_ok[OF assms(2-4)] by blast
  obtain part where "withRootInList r target qs = Inr part" "targetPs part target = Inr qs" using withRootInList_ok[OF assms(1)] by blast
  with q show ?thesis by auto
qed

text \<open>
  A statement over the limit either fails before it runs or has parts; each part has its list
  within the limit, and every value of the list stands in a part, up to its text.
\<close>

lemma rootInParts_split:
  assumes over: "driverLimit driver < int need" and ok: "rootInParts r need driver params = Inr parts"
    and bound: "\<forall>it \<in> set (rootItems r). inLength it \<le> need"
  shows "\<exists>target ps. targetPs r target = Inr ps \<and>
    (\<forall>part \<in> set parts. \<exists>qs. targetPs part target = Inr qs \<and> qs \<noteq> [] \<and> set qs \<subseteq> set ps \<and>
       int need - int (length ps) + int (length qs) \<le> driverLimit driver) \<and>
    (\<forall>p \<in> set ps. \<exists>part \<in> set parts. \<exists>qs q. targetPs part target = Inr qs \<and> q \<in> set qs \<and>
       scalarKey (cellAt params q) = scalarKey (cellAt params p))"
proof -
  from over ok obtain target where t: "rootInTarget r = Some target"
    by (auto simp: rootInParts_def split: if_splits option.splits)
  obtain ps where ps: "targetPs r target = Inr ps" "length ps \<le> need" using rootInTarget_ps[OF t] bound by (metis nth_mem)
  define available where "available = driverLimit driver - (int need - int (length ps))"
  define key where "key = (\<lambda>i. scalarKey (cellAt params i))"
  define cs where "cs = chunks (doubleBelow (nat available) 1) (uniqueBy key {} ps)"
  define f where "f = (\<lambda>slice. bind_res (padSlice slice) (withRootInList r target))"
  from over ok t ps(1) have av: "1 \<le> available" and parts: "mapRes f cs = Inr parts"
    by (auto simp: rootInParts_def Let_def available_def key_def cs_def f_def split: if_splits)
  have "available \<le> 65535" using ps(2) by (simp add: available_def driverLimit_def)
  then obtain j where j: "j \<le> 30" "doubleBelow (nat available) 1 = 2 ^ j" "2 ^ j \<le> nat available"
    using doubleBelow_limit[of "nat available"] av by (auto simp: le_nat_iff nat_le_iff)
  have slice: "\<exists>part qs. f c = Inr part \<and> targetPs part target = Inr qs \<and> set qs = set c \<and> length qs \<le> 2 ^ j \<and> c \<noteq> [] \<and> set c \<subseteq> set ps"
    if "c \<in> set cs" for c
  proof -
    have c: "c \<noteq> [] \<and> length c \<le> 2 ^ j \<and> set c \<subseteq> set (uniqueBy key {} ps)"
      using chunks_mem[of c "2 ^ j"] that unfolding cs_def j(2) by blast
    then show ?thesis using part_ok[OF ps(1), of c j] j(1) uniqueBy_subset[of key "{}" ps] unfolding f_def by blast
  qed
  have img: "Inr ` set parts = f ` set cs" by (rule mapRes_image[OF parts])
  have fits: "int need - int (length ps) + int (length qs) \<le> driverLimit driver" if "length qs \<le> 2 ^ j" for qs :: "int list"
  proof -
    have "int (length qs) \<le> available" using that j(3) av by linarith
    then show ?thesis by (simp add: available_def)
  qed
  have "\<exists>qs. targetPs part target = Inr qs \<and> qs \<noteq> [] \<and> set qs \<subseteq> set ps \<and> int need - int (length ps) + int (length qs) \<le> driverLimit driver"
    if "part \<in> set parts" for part
  proof -
    from that have "Inr part \<in> f ` set cs" unfolding img[symmetric] by (rule imageI)
    then obtain c where c: "c \<in> set cs" "Inr part = f c" by (rule imageE)
    from slice[OF c(1)] obtain qs where "targetPs part target = Inr qs" "set qs = set c" "length qs \<le> 2 ^ j" "c \<noteq> []" "set c \<subseteq> set ps"
      unfolding c(2)[symmetric] by auto
    with fits[of qs] show ?thesis by auto
  qed
  moreover have "\<exists>part \<in> set parts. \<exists>qs q. targetPs part target = Inr qs \<and> q \<in> set qs \<and> key q = key p" if "p \<in> set ps" for p
  proof -
    from that have "key p \<in> key ` set ps" by (rule imageI)
    then have "key p \<in> key ` set (uniqueBy key {} ps)" using uniqueBy_keys[of key "{}" ps] by simp
    then obtain q where "q \<in> set (uniqueBy key {} ps)" "key q = key p" by (metis imageE)
    moreover have "concat cs = uniqueBy key {} ps" unfolding cs_def j(2) by (rule concat_chunks) simp
    ultimately obtain c where "c \<in> set cs" "q \<in> set c" by (metis UN_E set_concat)
    from slice[OF \<open>c \<in> set cs\<close>] obtain part qs where part: "f c = Inr part" "targetPs part target = Inr qs" "set qs = set c" by blast
    have "f c \<in> Inr ` set parts" unfolding img using \<open>c \<in> set cs\<close> by (rule imageI)
    then have "part \<in> set parts" unfolding part(1) by auto
    with part \<open>q \<in> set c\<close> \<open>key q = key p\<close> show ?thesis by blast
  qed
  ultimately show ?thesis using ps(1) unfolding key_def by blast
qed

subsection \<open>Each row once\<close>

text \<open>The accumulator of the merge: the keys of its rows, each once.\<close>

definition mergeInv :: "keyref list \<Rightarrow> string list \<times> jsvalue list list \<Rightarrow> bool" where
  "mergeInv keys acc \<longleftrightarrow> distinct (fst acc) \<and> map (\<lambda>row. splitRowKey row keys) (snd acc) = map Inr (fst acc)"

lemma addSplitRow_inv:
  assumes "addSplitRow keys acc row = Inr acc'" and "mergeInv keys acc"
  shows "mergeInv keys acc' \<and> set (snd acc) \<subseteq> set (snd acc') \<and> set (snd acc') \<subseteq> insert row (set (snd acc)) \<and>
    (\<exists>row' \<in> set (snd acc'). splitRowKey row' keys = splitRowKey row keys)"
proof -
  obtain k where k: "splitRowKey row keys = Inr k" "acc' = (if k \<in> set (fst acc) then acc else (fst acc @ [k], snd acc @ [row]))"
    using assms(1) by (auto simp: addSplitRow_def bind_res_Inr_iff)
  show ?thesis
  proof (cases "k \<in> set (fst acc)")
    case True
    then have "Inr k \<in> (\<lambda>row. splitRowKey row keys) ` set (snd acc)"
      using assms(2) by (metis (no_types, lifting) mergeInv_def image_eqI list.set_map)
    with True k assms(2) show ?thesis by auto
  next
    case False
    with k assms(2) show ?thesis by (auto simp: mergeInv_def)
  qed
qed

lemma foldRes_addSplitRow:
  "foldRes (addSplitRow keys) acc rows = Inr acc' \<Longrightarrow> mergeInv keys acc \<Longrightarrow>
   mergeInv keys acc' \<and> set (snd acc) \<subseteq> set (snd acc') \<and> set (snd acc') \<subseteq> set (snd acc) \<union> set rows \<and>
   (\<forall>row \<in> set rows. \<exists>row' \<in> set (snd acc'). splitRowKey row' keys = splitRowKey row keys)"
proof (induction rows arbitrary: acc)
  case (Cons row rows)
  from Cons.prems(1) obtain acc1 where a: "addSplitRow keys acc row = Inr acc1" "foldRes (addSplitRow keys) acc1 rows = Inr acc'"
    by (auto simp: bind_res_Inr_iff)
  note one = addSplitRow_inv[OF a(1) Cons.prems(2)]
  from Cons.IH[OF a(2)] one show ?case by auto
qed simp

text \<open>What a split read returns, when its parts are planned with one key and their rows are read.\<close>

lemma mainRows_once:
  assumes ok: "mainRows planOf selectRows cached parts = Inr main" and parts: "parts \<noteq> []"
    and planned: "\<forall>part \<in> set parts. \<exists>p st a. planOf part = Inr p \<and> mainStepOf p = Inr st \<and> ps_assemble st = Some a \<and>
      as_key a = keys \<and> selectRows p st = Inr (found part)"
  shows "distinct (map (\<lambda>row. splitRowKey row keys) main) \<and> set main \<subseteq> (\<Union>part \<in> set parts. set (found part)) \<and>
    (\<forall>part \<in> set parts. \<forall>row \<in> set (found part). \<exists>row' \<in> set main. splitRowKey row' keys = splitRowKey row keys)"
proof -
  have fold: "foldRes (addPart planOf selectRows) acc ps = Inr acc' \<Longrightarrow> set ps \<subseteq> set parts \<Longrightarrow> mergeInv keys acc \<Longrightarrow>
      mergeInv keys acc' \<and> set (snd acc) \<subseteq> set (snd acc') \<and> set (snd acc') \<subseteq> set (snd acc) \<union> (\<Union>part \<in> set ps. set (found part)) \<and>
      (\<forall>part \<in> set ps. \<forall>row \<in> set (found part). \<exists>row' \<in> set (snd acc'). splitRowKey row' keys = splitRowKey row keys)" for ps acc acc'
  proof (induction ps arbitrary: acc)
    case (Cons part ps)
    obtain p st a where q: "planOf part = Inr p" "mainStepOf p = Inr st" "ps_assemble st = Some a" "as_key a = keys"
        "selectRows p st = Inr (found part)" using planned Cons.prems(2) by auto
    from Cons.prems(1) obtain acc1 where
      b: "addPart planOf selectRows acc part = Inr acc1" and a2: "foldRes (addPart planOf selectRows) acc1 ps = Inr acc'"
      by (auto simp: bind_res_Inr_iff)
    from b q have a1: "foldRes (addSplitRow keys) acc (found part) = Inr acc1"
      by (simp add: addPart_def present_def)
    note one = foldRes_addSplitRow[OF a1 Cons.prems(3)]
    have "set ps \<subseteq> set parts" using Cons.prems(2) by simp
    note rest = Cons.IH[OF a2 this conjunct1[OF one]]
    have "\<forall>row \<in> set (found part). \<exists>row' \<in> set (snd acc'). splitRowKey row' keys = splitRowKey row keys"
      using one rest by blast
    with one rest show ?case unfolding list.set by blast
  qed simp
  from ok parts obtain acc where "foldRes (addPart planOf selectRows) ([], []) parts = Inr acc" "main = snd acc"
    by (auto simp: mainRows_def bind_res_Inr_iff)
  moreover from fold[OF this(1)] have "mergeInv keys acc" by (simp add: mergeInv_def)
  moreover have "distinct (map (\<lambda>row. splitRowKey row keys) (snd acc))"
    using \<open>mergeInv keys acc\<close> unfolding mergeInv_def by (metis distinct_map inj_Inr inj_on_subset subset_UNIV)
  ultimately show ?thesis using fold[of "([], [])" parts acc] by (simp add: mergeInv_def)
qed

end
