(* ===== verification/Scenario.thy ===== *)
theory Scenario
  imports Example Expand Relations BindCheck Names SplitIn
begin

section \<open>A relation of the small model\<close>

text \<open>
  A plan with one relation: the posts of each user, whose rows carry the key of their user first.
  The examples of the root theory run it on a table of three posts.
\<close>

definition parentKeySlot :: bindslot where
  "parentKeySlot = (paramSlot (- 1) ''i64'')\<lparr>bs_from := ''parent'', bs_column := ''id''\<rparr>"

definition idKey :: "keyref list" where
  "idKey = [\<lparr>kr_column = ''id'', kr_index = 0\<rparr>]"

definition ownerKey :: "keyref list" where
  "ownerKey = [\<lparr>kr_column = ''user_id'', kr_index = 0\<rparr>]"

definition postStep :: planstep where
  \<open>postStep =
     \<lparr>ps_id = 1, ps_role = ''relation'',
      ps_sql = ''SELECT "a"."user_id" AS "user_id", "a"."title" AS "title" FROM "post" AS "a" WHERE "a"."user_id" IN ($1)'',
      ps_tables = [''post''], ps_lock = None, ps_bind_slots = [parentKeySlot], ps_assemble = None,
      ps_parent = Some \<lparr>pr_step = 0, pr_keys = idKey, pr_if_parent = None\<rparr>\<rparr>\<close>

definition postPlan :: plan where
  \<open>postPlan =
     \<lparr>pl_manifest_hash = ''h'', pl_kind = ''select'',
      pl_steps =
        [\<lparr>ps_id = 0, ps_role = ''main'', ps_sql = ''SELECT "a"."id" AS "id" FROM "user" AS "a"'', ps_tables = [''user''],
          ps_lock = None, ps_bind_slots = [],
          ps_assemble = Some (Assemble ''user'' ''a'' []
            [Child ''posts'' ''many'' 1 idKey ownerKey [] False False None] idKey None),
          ps_parent = None\<rparr>, postStep]\<rparr>\<close>

definition postTable :: "jsvalue list list" where
  "postTable = [[VInt 1, VStr ''p''], [VInt 2, VStr ''q''], [VInt 1, VStr ''r'']]"

definition postSelect :: "planstep \<Rightarrow> jsvalue list \<Rightarrow> jsvalue list list res" where
  "postSelect step c = Inr (filter (\<lambda>r. keyValues ownerKey r \<in> set (chunks 1 c)) postTable)"

lemmas scenario_defs = parentKeySlot_def idKey_def ownerKey_def postStep_def postPlan_def postTable_def

lemma postSelect_answers: "answers (postSelect step) ownerKey 1 postTable"
  by (simp add: answers_def postSelect_def)

lemma postPlan_keys: "childKeys postPlan (ps_id postStep) = Inr ownerKey"
  by (simp add: childKeys_def scenario_defs orFail_def List.map_filter_def)

lemma postgres_chars: "identQuote postgres = CHR 34" "marker postgres = CHR ''$''"
  "d_placeholder postgres n = ''$'' @ show_nat n"
  by (simp_all add: identQuote_def marker_def postgres_def)

lemma postStep_aligned: "aligned postgres postStep" "quiet postgres (ps_sql postStep)"
  by (simp_all add: postStep_def aligned_def tokens_def quiet_def balanced_def placeholders_def postgres_chars
    run_eval digit_char_def isDigit_def)

lemma post_parent:
  "ps_role postStep = ''relation''" "ps_parent postStep = Some \<lparr>pr_step = 0, pr_keys = idKey, pr_if_parent = None\<rparr>"
  "idKey \<noteq> []" "length idKey = 1" "ps_id postStep = 1"
  by (simp_all add: postStep_def idKey_def)

lemma post_slots:
  "filter (\<lambda>s. bs_from s \<noteq> ''parent'') (ps_bind_slots postStep) = []"
  "length (filter (\<lambda>s. bs_from s = ''parent'') (ps_bind_slots postStep)) = 1"
  by (simp_all add: postStep_def parentKeySlot_def)

lemma post_typed:
  "\<forall>r \<in> set postTable. \<forall>v \<in> set (keyValues ownerKey r). typedKey v \<or> v = VNull"
  "\<forall>q \<in> set [[VInt 1], [VInt 2], [VInt 3]]. \<forall>v \<in> set (keyValues idKey q). typedKey v \<or> v = VNull"
  by (simp_all add: postTable_def ownerKey_def idKey_def keyValues_def cell_def)

lemmas post_facts = post_parent post_slots post_typed postSelect_answers postPlan_keys

lemma post_returns:
  "1 \<le> driverLimit driver \<Longrightarrow>
     \<exists>out. relationStep postSelect postPlan [] driver [[VInt 1], [VInt 2], [VInt 3]] [] postStep = Inr out"
  using relationStep_returns[OF post_parent(2) _ postPlan_keys, where select = postSelect and table = postTable
      and parents = "[[VInt 1], [VInt 2], [VInt 3]]" and main = "[[VInt 1], [VInt 2], [VInt 3]]"] post_facts
  by simp

subsection \<open>Evaluation of values, names and split lists\<close>

lemmas decimal_eval = normalizeDecimal_def decimalScaled_def decimalFromScaled_def validScale_def isDecimal_def isDigits_def isSign_def
  unsigned_def wholePart_def fractionPart_def stripZeros_def padEnd_def padStart_def bigInt_def scaledText_def scaledValue_def
  read_nat_def digitVal_def startsWith_def show_nat.simps digit_char_def

lemmas time_eval = timeValue_def readTime_def timeForm_def timeFormDate_def timeFormTime_def timeFormDateTime_def readDateTime_def
  readDate_def readClock_def readFraction_def readOffset_def zoneOffset_def validDate_def fraction_def digit_def digitsN_def
  spaces_def spaceLength_def read_nat_def digitVal_def startsWith_def padEnd_def orFail_def

definition slotOf :: "string \<Rightarrow> paramslot" where
  "slotOf t = bindSlotType (paramSlot 0 t)"

lemma slotOf_type: "sl_type (slotOf t) = t"
  by (simp add: slotOf_def bindSlotType_def paramSlot_def)

definition inOn :: "string \<Rightarrow> int list \<Rightarrow> item" where
  "inOn column ps =
     Item (Some (Pred None (Some column) (Some ''in'') None (Some ps) None None None None None)) None None"

lemmas split_eval = rootInParts_def rootItems_def inLength_def rootInTarget_def targetPs_def withRootInList_def setPs_def setItems_def
  itemConnOf_def joinedWithOr_def padSlice_def mainRows_def addPart_def addSplitRow_def mainStepOf_def splitRowKey_def rowKey_def
  keyOfValues_def cellAt_def cell_def driverLimit_def inOn_def

lemma pascal_user: "pascal ''id'' = ''Id''" "pascal ''gone'' = ''Gone''"
  by code_simp+

subsection \<open>A condition that escapes the soft-delete guard\<close>

text \<open>
  The group of a \<open>where\<close> is joined to the guard without parentheses, so that its \<open>or\<close> reaches
  over the guard: the statement counts the row with the given key although it is deleted.
\<close>

lemma soft_delete_escapes:
  \<open>compile (userModel ''gone'') ''postgres'' False (userRequest ''count'' [eqOn None ''x'' 0, eqOn (Some ''or'') ''id'' 1] 2) =
   Inr (plainPlan ''count'' ''SELECT COUNT(*) FROM "user" AS "a" WHERE "a"."gone" IS NULL AND "a"."x" = $1 OR "a"."id" = $2''
     [paramSlot 0 ''i64'', paramSlot 1 ''i64''])\<close>
  by (simp add: eval_simps)

end
