(* ===== verification/PlanCache.thy ===== *)
theory PlanCache
  imports Text SqlText "HOL-Library.Word"
begin

section \<open>The plan cache (\<open>database.ts\<close>)\<close>

text \<open>
  A connection keeps the plans of its requests under the canonical text of the request: JSON with
  sorted members and without the undefined ones. The cache holds a bounded number of plans and
  drops the oldest. The lemmas show that the canonical text identifies a request, so that a plan
  from the cache is the plan that compiling the request gives.
\<close>

unbundle bit_operations_syntax

subsection \<open>The canonical text\<close>

text \<open>A request as the JavaScript value it is; a member can be undefined, a number is an integer.\<close>

datatype json =
    JNull
  | JBool bool
  | JNum int
  | JStr string
  | JArr "json list"
  | JObj "(string \<times> json option) list"

text \<open>\<open>JSON.stringify\<close> of a text\<close>

definition escapeChar :: "char \<Rightarrow> string" where
  "escapeChar c =
     (if c = CHR 34 then [CHR 92, CHR 34]
      else if c = CHR 92 then [CHR 92, CHR 92]
      else if c = CHR 0x08 then [CHR 92, CHR ''b'']
      else if c = CHR 0x0C then [CHR 92, CHR ''f'']
      else if c = CHR 0x0A then [CHR 92, CHR ''n'']
      else if c = CHR 0x0D then [CHR 92, CHR ''r'']
      else if c = CHR 0x09 then [CHR 92, CHR ''t'']
      else if codeIn 0 31 c then CHR 92 # ''u00'' @ hexByte hexDigits c
      else [c])"

definition quoteJson :: "string \<Rightarrow> string" where
  "quoteJson s = CHR 34 # concat (map escapeChar s) @ [CHR 34]"

fun canonical :: "json \<Rightarrow> string" where
  "canonical JNull = ''null''"
| "canonical (JBool b) = (if b then ''true'' else ''false'')"
| "canonical (JNum n) = show_int n"
| "canonical (JStr s) = quoteJson s"
| "canonical (JArr xs) = ''['' @ joinS '','' (map canonical xs) @ '']''"
| "canonical (JObj ms) =
     ''{'' @ joinS '','' (map snd (sort_key fst (concat (map (\<lambda>(k, v).
        case v of None \<Rightarrow> [] | Some j \<Rightarrow> [(k, quoteJson k @ '':'' @ canonical j)]) ms)))) @ ''}''"

text \<open>The identifier of a plan: the FNV-1a hash of the text in 64 bits, as 16 hexadecimal digits.\<close>

definition fnv :: "string \<Rightarrow> 64 word" where
  "fnv key = fold (\<lambda>c h. (h XOR of_nat (of_char c)) * 0x100000001b3) key 0xcbf29ce484222325"

definition planId :: "string \<Rightarrow> string" where
  "planId key = map (\<lambda>i. hexDigits ! unat (drop_bit (4 * (15 - i)) (fnv key) AND 15)) [0..<16]"

subsection \<open>The cache\<close>

text \<open>The entries in the order they were added, and the number that the cache may hold.\<close>

record 'p plancache =
  pc_entries :: "(string \<times> 'p \<times> string) list"
  pc_size :: nat

text \<open>
  \<open>Db.plan\<close>: \<open>hash\<close> is the manifest of the request, \<open>engines\<close> the registered sets, and a set
  compiles a request. A failed compilation adds nothing.
\<close>

definition planRequest ::
    "bool \<Rightarrow> (string \<rightharpoonup> json \<Rightarrow> 'p res) \<Rightarrow> (json \<Rightarrow> string) \<Rightarrow> json \<Rightarrow> 'p plancache \<Rightarrow> ('p \<times> string) res \<times> 'p plancache" where
  "planRequest closed engines hash request cache =
     (if closed then (fail CONFIG, cache)
      else case engines (hash request) of
        None \<Rightarrow> (fail SCHEMA_HASH_MISMATCH, cache)
      | Some engine \<Rightarrow>
          let key = canonical request in
          (case map_of (pc_entries cache) key of
             Some entry \<Rightarrow> (Inr entry, cache)
           | None \<Rightarrow>
               (case engine request of
                  Inl e \<Rightarrow> (Inl e, cache)
                | Inr p \<Rightarrow>
                    let entry = (p, planId key); entries = pc_entries cache @ [(key, entry)] in
                    (Inr entry, cache\<lparr>pc_entries := if pc_size cache < length entries then tl entries else entries\<rparr>))))"

subsection \<open>The text identifies the request\<close>

text \<open>The members that are defined, in the order of their names.\<close>

fun norm :: "json \<Rightarrow> json" where
  "norm (JArr xs) = JArr (map norm xs)"
| "norm (JObj ms) = JObj (sort_key fst (concat (map (\<lambda>(k, v). case v of None \<Rightarrow> [] | Some j \<Rightarrow> [(k, Some (norm j))]) ms)))"
| "norm j = j"

fun full :: "json \<Rightarrow> bool" where
  "full (JArr xs) = list_all full xs"
| "full (JObj ms) = list_all (\<lambda>(k, v). case v of None \<Rightarrow> False | Some j \<Rightarrow> full j) ms"
| "full JNull = True"
| "full (JBool b) = True"
| "full (JNum n) = True"
| "full (JStr s) = True"

fun plainText :: "json \<Rightarrow> string" where
  "plainText JNull = ''null''"
| "plainText (JBool b) = (if b then ''true'' else ''false'')"
| "plainText (JNum n) = show_int n"
| "plainText (JStr s) = quoteJson s"
| "plainText (JArr xs) = ''['' @ joinS '','' (map plainText xs) @ '']''"
| "plainText (JObj ms) =
     ''{'' @ joinS '','' (map (\<lambda>(k, v). quoteJson k @ '':'' @ (case v of None \<Rightarrow> [] | Some j \<Rightarrow> plainText j)) ms) @ ''}''"

lemma insort_key_map: "insort_key fst (k, f k x) (map (\<lambda>(k, x). (k, f k x)) xs) = map (\<lambda>(k, x). (k, f k x)) (insort_key fst (k, x) xs)"
  by (induction xs) auto

lemma sort_key_map: "sort_key fst (map (\<lambda>(k, x). (k, f k x)) xs) = map (\<lambda>(k, x). (k, f k x)) (sort_key fst xs)"
  by (induction xs) (auto simp: insort_key_map)

lemma full_norm: "full (norm j)"
  by (induction j rule: norm.induct) (auto simp: list_all_iff split: option.splits)

lemma canonical_norm: "canonical j = plainText (norm j)"
proof (induction j rule: canonical.induct)
  case (5 xs)
  then show ?case by (simp cong: map_cong)
next
  case (6 ms)
  let ?pre = "concat (map (\<lambda>(k, v). case v of None \<Rightarrow> [] | Some j \<Rightarrow> [(k, Some (norm j))]) ms)"
  let ?f = "\<lambda>k v. quoteJson k @ '':'' @ (case v of None \<Rightarrow> [] | Some j \<Rightarrow> plainText j)"
  have "concat (map (\<lambda>(k, v). case v of None \<Rightarrow> [] | Some j \<Rightarrow> [(k, quoteJson k @ '':'' @ canonical j)]) ms) =
      map (\<lambda>(k, v). (k, ?f k v)) ?pre"
    unfolding map_concat map_map using 6 by (intro arg_cong[where f = concat] map_cong refl) (auto split: option.splits)
  moreover have "snd \<circ> (\<lambda>(k, v). (k, ?f k v)) = (\<lambda>(k, v). ?f k v)" by auto
  ultimately show ?case by (simp only: canonical.simps norm.simps plainText.simps sort_key_map map_map)
qed simp_all

text \<open>The escaped characters are a prefix code, and none starts with the quote that ends the text.\<close>

lemma escapeChar_prefix: "escapeChar c @ r = escapeChar d @ s \<Longrightarrow> c = d \<and> r = s"
  using hexByte_inject[OF hexDigits_alphabet, of c d]
  by (auto simp: escapeChar_def hexByte_def split: if_splits)

lemma escapeChar_hd: "escapeChar c \<noteq> [] \<and> hd (escapeChar c) \<noteq> CHR 34"
  by (simp add: escapeChar_def)

lemma quoteJson_prefix: "quoteJson a @ r = quoteJson b @ s \<Longrightarrow> a = b \<and> r = s"
proof -
  have "concat (map escapeChar a) @ CHR 34 # r = concat (map escapeChar b) @ CHR 34 # s \<Longrightarrow> a = b \<and> r = s"
  proof (induction a arbitrary: b)
    case Nil
    then show ?case using escapeChar_hd by (cases b) (auto simp: append_eq_Cons_conv Cons_eq_append_conv, metis hd_append list.sel(1))
  next
    case (Cons c a)
    show ?case
    proof (cases b)
      case Nil
      with Cons.prems show ?thesis using escapeChar_hd[of c] by (cases "escapeChar c") auto
    next
      case (Cons d b')
      with Cons.prems escapeChar_prefix[of c "concat (map escapeChar a) @ CHR 34 # r" d] Cons.IH[of b'] show ?thesis by auto
    qed
  qed
  moreover assume "quoteJson a @ r = quoteJson b @ s"
  ultimately show ?thesis by (simp add: quoteJson_def)
qed

text \<open>What follows a value: nothing, or a character that no number holds.\<close>

definition stop :: "string \<Rightarrow> bool" where
  "stop r \<longleftrightarrow> r = [] \<or> hd r \<in> {CHR '','', CHR '']'', CHR ''}''}"

lemma stop_simps [simp]: "stop (CHR '','' # r)" "stop (CHR '']'' # r)" "stop (CHR ''}'' # r)"
  by (simp_all add: stop_def)

lemma show_nat_prefix: "stop r \<Longrightarrow> stop s \<Longrightarrow> show_nat m @ r = show_nat n @ s \<Longrightarrow> m = n \<and> r = s"
proof -
  assume a: "stop r" "stop s" "show_nat m @ r = show_nat n @ s"
  have t: "takeWhile (\<lambda>c. c \<in> digits) (show_nat k @ q) = show_nat k" if "stop q" for k q
    using show_nat_digits[of k] that by (cases q) (auto simp: stop_def takeWhile_append subset_iff)
  from t[OF a(1), of m] t[OF a(2), of n] a(3) have "show_nat m = show_nat n" by simp
  with a(3) show ?thesis by simp
qed

lemma show_nat_hd: "\<exists>c t. show_nat n = c # t \<and> isDigit c"
  using show_nat_digits[of n] show_nat_nonempty[of n] by (cases "show_nat n") (auto simp: isDigit_def)

lemma show_int_prefix: "stop r \<Longrightarrow> stop s \<Longrightarrow> show_int m @ r = show_int n @ s \<Longrightarrow> m = n \<and> r = s"
  using show_nat_prefix[of r s "nat m" "nat n"] show_nat_prefix[of r s "nat (- m)" "nat (- n)"] show_nat_hd[of "nat m"] show_nat_hd[of "nat n"]
  by (auto simp: show_int_def isDigit_def nat_eq_iff split: if_splits)

text \<open>The first character of a value tells its kind, and no value starts with the end of a list.\<close>

fun kindOf :: "json \<Rightarrow> nat" where
  "kindOf JNull = 0" | "kindOf (JBool b) = 1" | "kindOf (JNum n) = 2" | "kindOf (JStr s) = 3" | "kindOf (JArr xs) = 4"
| "kindOf (JObj ms) = 5"

definition charKind :: "char \<Rightarrow> nat" where
  "charKind c =
     (if c = CHR ''n'' then 0 else if c = CHR ''t'' \<or> c = CHR ''f'' then 1 else if c = CHR 34 then 3
      else if c = CHR ''['' then 4 else if c = CHR ''{'' then 5 else if c = CHR '']'' \<or> c = CHR ''}'' then 6 else 2)"

lemma plainText_kind: "plainText j \<noteq> [] \<and> charKind (hd (plainText j)) = kindOf j"
proof (cases j)
  case (JNum n)
  have digit: "charKind c = 2" if "isDigit c" for c using that by (auto simp: isDigit_def charKind_def)
  have minus: "charKind (CHR ''-'') = 2" by (simp add: charKind_def)
  from show_nat_hd[of "nat n"] obtain c t where "show_nat (nat n) = c # t" "isDigit c" by blast
  with JNum digit[of c] minus show ?thesis by (simp add: show_int_def)
qed (auto simp: charKind_def quoteJson_def)

lemma joinS_Cons: "joinS sep (x # xs) = x @ (if xs = [] then [] else sep @ joinS sep xs)"
  by (cases xs) auto

text \<open>A list of texts that are each a prefix code before a comma or the end of the list\<close>

lemma joinS_prefix:
  assumes "\<And>x y r s. x \<in> set xs \<Longrightarrow> y \<in> set ys \<Longrightarrow> stop r \<Longrightarrow> stop s \<Longrightarrow> f x @ r = f y @ s \<Longrightarrow> x = y \<and> r = s"
    and "\<And>x. x \<in> set xs \<union> set ys \<Longrightarrow> f x \<noteq> [] \<and> hd (f x) \<noteq> e" and e: "e = CHR '']'' \<or> e = CHR ''}''"
  shows "joinS '','' (map f xs) @ e # r = joinS '','' (map f ys) @ e # s \<Longrightarrow> xs = ys \<and> r = s"
  using assms(1,2)
proof (induction xs arbitrary: ys)
  case Nil
  show ?case
  proof (cases ys)
    case (Cons y ys')
    with Nil.prems(3)[of y] have "f y \<noteq> []" "hd (f y) \<noteq> e" by auto
    with Nil.prems(1) Cons show ?thesis by (cases "f y") (auto simp: joinS_Cons)
  qed (use Nil in simp)
next
  case (Cons x xs)
  show ?case
  proof (cases ys)
    case Nil
    with Cons.prems(3)[of x] have "f x \<noteq> []" "hd (f x) \<noteq> e" by auto
    with Cons.prems(1) Nil show ?thesis by (cases "f x") (auto simp: joinS_Cons)
  next
    case (Cons y ys')
    let ?t = "\<lambda>zs r. (if zs = [] then [] else '','' @ joinS '','' (map f zs)) @ e # r"
    have st: "stop (?t xs r)" "stop (?t ys' s)" using e by auto
    have "f x @ ?t xs r = f y @ ?t ys' s" using Cons.prems(1) \<open>ys = y # ys'\<close> by (simp add: joinS_Cons)
    with Cons.prems(2)[OF _ _ st, of x y] \<open>ys = y # ys'\<close> have xy: "x = y" "?t xs r = ?t ys' s" by auto
    have "xs = ys' \<and> r = s"
    proof (cases "xs = [] \<or> ys' = []")
      case True
      with xy(2) e show ?thesis by (auto split: if_splits)
    next
      case False
      with xy(2) have "joinS '','' (map f xs) @ e # r = joinS '','' (map f ys') @ e # s" by simp
      from Cons.IH[OF this] Cons.prems(2,3) \<open>ys = y # ys'\<close> show ?thesis by auto
    qed
    with xy(1) \<open>ys = y # ys'\<close> show ?thesis by simp
  qed
qed

lemma same_kind: "plainText x @ r = plainText y @ s \<Longrightarrow> kindOf x = kindOf y"
  using plainText_kind[of x] plainText_kind[of y] by (metis hd_append2)

lemma member_prefix:
  assumes "plainText v @ r = plainText v' @ s \<Longrightarrow> v = v' \<and> r = s"
    and "quoteJson k @ CHR '':'' # plainText v @ r = quoteJson k' @ CHR '':'' # plainText v' @ s"
  shows "k = k' \<and> v = v' \<and> r = s"
  using quoteJson_prefix[OF assms(2)] assms(1) by auto

lemma plainText_prefix:
  "full x \<Longrightarrow> full y \<Longrightarrow> stop r \<Longrightarrow> stop s \<Longrightarrow> plainText x @ r = plainText y @ s \<Longrightarrow> x = y \<and> r = s"
proof (induction x arbitrary: y r s rule: full.induct)
  case (1 xs)
  have kind: "kindOf y = 4" using same_kind[OF 1(6)] by simp
  then obtain ys where y: "y = JArr ys" by (cases y) auto
  have "xs = ys \<and> r = s"
  proof (rule joinS_prefix[where f = plainText and e = "CHR '']''"])
    show "joinS '','' (map plainText xs) @ CHR '']'' # r = joinS '','' (map plainText ys) @ CHR '']'' # s"
      using 1(6) y by simp
    show "x = z \<and> r = s" if "x \<in> set xs" "z \<in> set ys" "stop r" "stop s" "plainText x @ r = plainText z @ s" for x z r s
      using 1(1)[OF that(1)] that 1(2,3) y by (auto simp: list_all_iff)
    show "plainText x \<noteq> [] \<and> hd (plainText x) \<noteq> CHR '']''" for x
      using plainText_kind[of x] by (cases x) (auto simp: charKind_def)
  qed simp
  with y show ?case by simp
next
  case (2 ms)
  have kind: "kindOf y = 5" using same_kind[OF 2(6)] by simp
  then obtain ns where y: "y = JObj ns" by (cases y) auto
  let ?f = "\<lambda>(k, v). quoteJson k @ '':'' @ (case v of None \<Rightarrow> [] | Some j \<Rightarrow> plainText j)"
  have "ms = ns \<and> r = s"
  proof (rule joinS_prefix[where f = ?f and e = "CHR ''}''"])
    show "joinS '','' (map ?f ms) @ CHR ''}'' # r = joinS '','' (map ?f ns) @ CHR ''}'' # s"
      using 2(6) y by simp
    show "a = b \<and> r = s" if at: "a \<in> set ms" "b \<in> set ns" "stop r" "stop s" "?f a @ r = ?f b @ s" for a b r s
    proof -
      obtain k v k' v' where ab: "a = (k, Some v)" "b = (k', Some v')" "full v" "full v'"
        using 2(2,3) y at(1,2) by (fastforce simp: list_all_iff split: option.splits)
      have "plainText v @ r = plainText v' @ s \<Longrightarrow> v = v' \<and> r = s"
        using 2(1)[OF at(1)[unfolded ab(1)] refl refl ab(3,4) at(3,4)] by blast
      from member_prefix[OF this, of k k'] at(5) ab show ?thesis by simp
    qed
    show "?f x \<noteq> [] \<and> hd (?f x) \<noteq> CHR ''}''" for x by (cases x) (auto simp: quoteJson_def)
  qed simp
  with y show ?case by simp
next
  case 3
  have "y = JNull" using same_kind[OF 3(5)] by (cases y) simp_all
  with 3(5) show ?case by simp
next
  case (4 b)
  obtain c where "y = JBool c" using same_kind[OF 4(5)] by (cases y) simp_all
  with 4(5) show ?case by (cases b; cases c) simp_all
next
  case (5 n)
  obtain m where "y = JNum m" using same_kind[OF 5(5)] by (cases y) simp_all
  with show_int_prefix[OF 5(3,4), of n m] 5(5) show ?case by simp
next
  case (6 t)
  obtain u where "y = JStr u" using same_kind[OF 6(5)] by (cases y) simp_all
  with quoteJson_prefix[of t r u s] 6(5) show ?case by simp
qed

lemma canonical_inject: "canonical x = canonical y \<longleftrightarrow> norm x = norm y"
  using plainText_prefix[OF full_norm[of x] full_norm[of y], of "[]" "[]"] by (auto simp: canonical_norm stop_def)

subsection \<open>The cache is transparent\<close>

text \<open>
  An engine reads the members of a request by name: their order can decide which error of a bad
  request is found first, but not the plan of a good one.
\<close>

definition readsMembers :: "(string \<rightharpoonup> json \<Rightarrow> 'p res) \<Rightarrow> (json \<Rightarrow> string) \<Rightarrow> bool" where
  "readsMembers engines hash \<longleftrightarrow>
     (\<forall>j j'. norm j = norm j' \<longrightarrow> hash j = hash j' \<and> (\<forall>h e p. engines h = Some e \<longrightarrow> e j = Inr p \<longrightarrow> e j' = Inr p))"

text \<open>Every entry is what its engine compiles for the requests with its key.\<close>

definition sound :: "(string \<rightharpoonup> json \<Rightarrow> 'p res) \<Rightarrow> (json \<Rightarrow> string) \<Rightarrow> 'p plancache \<Rightarrow> bool" where
  "sound engines hash cache \<longleftrightarrow>
     length (pc_entries cache) \<le> pc_size cache \<and> distinct (map fst (pc_entries cache)) \<and>
     (\<forall>(key, p, i) \<in> set (pc_entries cache). i = planId key \<and>
        (\<forall>j e. canonical j = key \<longrightarrow> engines (hash j) = Some e \<longrightarrow> e j = Inr p))"

text \<open>What a connection without a cache returns.\<close>

definition freshPlan :: "bool \<Rightarrow> (string \<rightharpoonup> json \<Rightarrow> 'p res) \<Rightarrow> (json \<Rightarrow> string) \<Rightarrow> json \<Rightarrow> ('p \<times> string) res" where
  "freshPlan closed engines hash j =
     (if closed then fail CONFIG
      else case engines (hash j) of
        None \<Rightarrow> fail SCHEMA_HASH_MISMATCH
      | Some e \<Rightarrow> bind_res (e j) (\<lambda>p. Inr (p, planId (canonical j))))"

lemma ball_subset: "A \<subseteq> B \<Longrightarrow> \<forall>x \<in> B. P x \<Longrightarrow> \<forall>x \<in> A. P x"
  by blast

lemma planRequest_fresh:
  assumes "readsMembers engines hash" and sound: "sound engines hash cache"
    and run: "planRequest closed engines hash j cache = (r, cache')"
  shows "r = freshPlan closed engines hash j \<and> sound engines hash cache' \<and> pc_size cache' = pc_size cache"
proof (cases "closed \<or> engines (hash j) = None")
  case True
  with run sound show ?thesis by (auto simp: planRequest_def freshPlan_def)
next
  case False
  then obtain e where e: "\<not> closed" "engines (hash j) = Some e" by auto
  show ?thesis
  proof (cases "map_of (pc_entries cache) (canonical j)")
    case (Some entry)
    obtain p i where entry: "entry = (p, i)" by fastforce
    have "i = planId (canonical j)" "e j = Inr p"
      using map_of_SomeD[OF Some] sound e(2) unfolding sound_def entry by blast+
    with run e Some entry sound show ?thesis by (simp add: planRequest_def freshPlan_def)
  next
    case None
    show ?thesis
    proof (cases "e j")
      case (Inl err)
      with run e None sound show ?thesis by (simp add: planRequest_def freshPlan_def)
    next
      case (Inr p)
      let ?entries = "pc_entries cache @ [(canonical j, p, planId (canonical j))]"
      have c: "r = Inr (p, planId (canonical j))"
        "cache' = cache\<lparr>pc_entries := if pc_size cache < length ?entries then tl ?entries else ?entries\<rparr>"
        using run e None Inr by (auto simp: planRequest_def Let_def)
      have new: "e' j' = Inr p" if "canonical j' = canonical j" "engines (hash j') = Some e'" for j' e'
        using that assms(1) e(2) Inr canonical_inject[of j' j] unfolding readsMembers_def by (metis option.inject)
      have "canonical j \<notin> fst ` set (pc_entries cache)" using None by (simp add: map_of_eq_None_iff)
      then have all: "distinct (map fst ?entries)" "\<forall>(key, p, i) \<in> set ?entries. i = planId key \<and>
          (\<forall>j e. canonical j = key \<longrightarrow> engines (hash j) = Some e \<longrightarrow> e j = Inr p)"
        using sound new unfolding sound_def by auto
      define kept where "kept = (if pc_size cache < length ?entries then tl ?entries else ?entries)"
      have "set kept \<subseteq> set ?entries" unfolding kept_def by (cases ?entries) auto
      then have "\<forall>(key, p, i) \<in> set kept. i = planId key \<and>
          (\<forall>j e. canonical j = key \<longrightarrow> engines (hash j) = Some e \<longrightarrow> e j = Inr p)" using all(2) by (rule ball_subset)
      moreover have "distinct (map fst kept)"
        unfolding kept_def using all(1) distinct_tl[OF all(1)] by (simp only: map_tl split: if_split) simp
      moreover have "length kept \<le> pc_size cache" using sound unfolding kept_def sound_def by simp
      ultimately have "sound engines hash cache'"
        unfolding c(2) kept_def[symmetric] sound_def by simp
      with c e Inr show ?thesis by (simp add: freshPlan_def)
    qed
  qed
qed

text \<open>The plans of a sequence of requests, one after the other\<close>

fun planAll :: "(string \<rightharpoonup> json \<Rightarrow> 'p res) \<Rightarrow> (json \<Rightarrow> string) \<Rightarrow> json list \<Rightarrow> 'p plancache \<Rightarrow> ('p \<times> string) res list \<times> 'p plancache" where
  "planAll engines hash [] cache = ([], cache)"
| "planAll engines hash (j # js) cache =
     (case planRequest False engines hash j cache of
        (r, cache') \<Rightarrow> (case planAll engines hash js cache' of (rs, cache'') \<Rightarrow> (r # rs, cache'')))"

lemma planAll_fresh:
  "readsMembers engines hash \<Longrightarrow> sound engines hash cache \<Longrightarrow>
     fst (planAll engines hash js cache) = map (freshPlan False engines hash) js \<and>
     sound engines hash (snd (planAll engines hash js cache)) \<and> pc_size (snd (planAll engines hash js cache)) = pc_size cache"
proof (induction js arbitrary: cache)
  case (Cons j js)
  obtain r cache' where r: "planRequest False engines hash j cache = (r, cache')" by fastforce
  from planRequest_fresh[OF Cons.prems r] Cons.IH[of cache'] Cons.prems r show ?case
    by (auto simp: split_beta)
qed simp

end
