(* ===== verification/TxExample.thy ===== *)
theory TxExample
  imports Atomic Args Scenario PlanCache
begin

section \<open>A small database\<close>

text \<open>
  A database with one session that runs every statement and remembers how many it ran, and variants
  of it that fail. The examples of the root theory run transactions on it.
\<close>

definition sendAll :: "nat \<Rightarrow> string \<Rightarrow> jsvalue list \<Rightarrow> nat \<Rightarrow> (raised + jsvalue list list) \<times> nat" where
  "sendAll sess sql params s = (Inr [[VInt 5000]], Suc s)"

definition goodWorld :: "string \<Rightarrow> nat world" where
  "goodWorld name =
     \<lparr>w_name = name, w_reserve = (\<lambda>s. (Inr 7, s)), w_send = sendAll, w_execute = (\<lambda>sql s. (Inr [], s)),
      w_inTransaction = (\<lambda>_ _. None), w_release = (\<lambda>_ _ s. s), w_aborted = (\<lambda>_. False)\<rparr>"

definition startEnv :: "nat env" where
  "startEnv =
     \<lparr>en_world = 0, en_subscribers = \<lparr>su_list = [], su_entries = 0, su_transactions = 0\<rparr>, en_closed = False,
      en_rollbackFault = False, en_statementFault = None, en_rowLockTable = False, en_lastAffected = None,
      en_frames = (\<lambda>_. newFrame 0 \<lparr>op_isolation = None, op_readOnly = None, op_timeoutMs = 0\<rparr>), en_flow = [], en_log = []\<rparr>"

definition plainOptions :: txoptions where
  "plainOptions = \<lparr>tx_isolation = None, tx_readOnly = None, tx_timeoutMs = None, tx_retry = None, tx_audit = None\<rparr>"

definition plainBegin :: beginoptions where
  "plainBegin = \<lparr>op_isolation = None, op_readOnly = None, op_timeoutMs = 0\<rparr>"

definition insertUser :: "nat world \<Rightarrow> (nat, jsvalue list list) io" where
  "insertUser w = frameStatement w 1 KInsert [''user''] ''INSERT'' []"

lemmas tx_defs = sendAll_def goodWorld_def startEnv_def plainOptions_def plainBegin_def insertUser_def newFrame_def

lemma startEnv_facts:
  "fr_savepoints (en_frames startEnv n) = 0" "\<not> fr_finished (en_frames startEnv n)" "fr_session (en_frames startEnv n) = 0"
  "fr_audit (en_frames startEnv n) = None" "fr_inserted (en_frames startEnv n) = []" "en_log startEnv = []" "activeFor startEnv = None"
  by (simp_all add: startEnv_def newFrame_def activeFor_def)

lemma insertUser_allowed: "statementsOnly (insertUser w)" "disciplined (insertUser w)"
  unfolding insertUser_def by (simp_all add: statement_allowed)

lemma goodWorld_quiet: "quietFailures (goodWorld name) startEnv" "unreported (goodWorld name)"
  by (simp_all add: quietFailures_def unreported_def tx_defs)

lemma goodWorld_transaction:
  "en_log (snd (transaction (goodWorld ''postgres'') (\<lambda>_. Inl (orm CONFIG)) (insertUser (goodWorld ''postgres'')) plainOptions startEnv)) =
     [Reserved 7, Sent 7 KBegin ''BEGIN'' True, Sent 7 KInsert ''INSERT'' True, Sent 7 KCommit ''COMMIT'' True, Released 7 False]"
  by code_simp

subsection \<open>Failures\<close>

text \<open>A database that refuses the given statements, and reports whether a transaction is open as told.\<close>

definition nativeFailure :: nativeerror where
  "nativeFailure = \<lparr>ne_code = Some ''40001'', ne_errcode = None, ne_errno = None, ne_fatal = False, ne_message = ''failed''\<rparr>"

definition refusing :: "string \<Rightarrow> string list \<Rightarrow> bool option \<Rightarrow> nat world" where
  "refusing name refused open =
     (goodWorld name)\<lparr>w_send := (\<lambda>sess sql params s. (if sql \<in> set refused then Inl (Native nativeFailure) else Inr [], Suc s)),
       w_inTransaction := (\<lambda>_ _. open)\<rparr>"

text \<open>A subscriber that throws on the event of a COMMIT\<close>

definition throwingEnv :: "nat env" where
  "throwingEnv = startEnv\<lparr>en_subscribers := \<lparr>su_list = [(0, \<lambda>ev s. (ev_kind ev = KCommit, s))], su_entries = 1, su_transactions = 0\<rparr>\<rparr>"

text \<open>
  The COMMIT fails and the subscriber throws: the failure is taken for one of the subscriber only,
  and the session goes back to the pool with its transaction open.
\<close>

lemma failed_commit_returned:
  "en_log (snd (run (refusing ''mysql'' [''COMMIT''] None) (ioRet ()) plainBegin None throwingEnv)) =
     [Reserved 7, Sent 7 KBegin ''START TRANSACTION'' True, Sent 7 KCommit ''COMMIT'' False, Released 7 False]"
  by code_simp

text \<open>Both the COMMIT and the ROLLBACK after it fail: the session goes back to the pool.\<close>

lemma failed_rollback_returned:
  "en_log (snd (run (refusing ''sqlite'' [''COMMIT'', ''ROLLBACK''] (Some True)) (ioRet ()) plainBegin None startEnv)) =
     [Reserved 7, Sent 7 KBegin ''BEGIN IMMEDIATE'' True, Sent 7 KCommit ''COMMIT'' False, Sent 7 KRollback ''ROLLBACK'' False,
      Released 7 False]"
  by code_simp

text \<open>The delay before the 27th retry is negative.\<close>

lemma delay_overflow: "delay 25 = 1677721600" "delay 26 < 0"
  by (simp_all add: delay_def int32_def)

subsection \<open>An audited write\<close>

definition auditedStep :: planstep where
  "auditedStep = postStep\<lparr>ps_role := ''main'', ps_sql := ''UPDATE'', ps_parent := None,
     ps_bind_slots := [(paramSlot (- 1) ''i64'')\<lparr>bs_from := ''audit''\<rparr>]\<rparr>"

definition auditInsertion :: auditinsert where
  "auditInsertion = \<lparr>ai_table = ''log'', ai_key = ''id'', ai_values = [(''who'', VStr ''me'')]\<rparr>"

definition pendingEnv :: "nat env" where
  "pendingEnv = setFrame 1 (\<lambda>f. f\<lparr>fr_pendingAudit := Some auditInsertion\<rparr>) startEnv"

definition affectedRows :: "int \<Rightarrow> driverresult" where
  "affectedRows n = \<lparr>dr_rows = [], dr_affected = n, dr_insertId = VNull\<rparr>"

lemma pendingEnv_audit: "fr_audit (en_frames pendingEnv 1) = None" "fr_pendingAudit (en_frames pendingEnv 1) = Some auditInsertion"
  by (simp_all add: pendingEnv_def setFrame_def startEnv_facts)

lemma auditedStep_binds: "bindsAudit auditedStep"
  by (simp add: auditedStep_def bindsAudit_def)

subsection \<open>A cached plan\<close>

text \<open>The request that counts users, read from any JSON value, and the set that knows it.\<close>

definition countOf :: "json \<Rightarrow> request" where
  "countOf j = userRequest (case norm j of JObj _ \<Rightarrow> ''count'' | _ \<Rightarrow> ''one'') [eqOn None ''x'' 0] 1"

definition userSets :: "string \<rightharpoonup> runtimemodel \<times> string \<times> bool" where
  "userSets = [''h'' \<mapsto> (userModel '''', ''postgres'', False)]"

definition countSql :: string where
  \<open>countSql = ''SELECT COUNT(*) FROM "user" AS "a" WHERE "a"."x" = $1''\<close>

lemma countOf_members: "\<forall>j j'. norm j = norm j' \<longrightarrow> countOf j = countOf j'"
  by (simp add: countOf_def)

lemma userRequest_hash: "rq_manifest_hash (userRequest kind items n) = ''h''"
  by (simp add: userRequest_def)

subsection \<open>Values and keys\<close>

text \<open>A library that hides nothing but obeys its laws\<close>

definition openCrypto :: crypto where
  "openCrypto = \<lparr>cr_sha256 = (\<lambda>s. s), cr_hmac = (\<lambda>k s. s), cr_seal = (\<lambda>k n a p. (p, replicate 16 (CHR ''t''))),
     cr_open = (\<lambda>k n a c t. Some c)\<rparr>"

lemma openCrypto_lawful: "lawfulCrypto openCrypto (\<lambda>_. replicate 12 (CHR ''n''))"
  by (simp add: lawfulCrypto_def openCrypto_def)

definition plainBinding :: binding where
  "plainBinding = \<lparr>bn_dialect = ''postgres'', bn_zone = ''+00:00'', bn_aes = \<lparr>ac_version = 1, ac_key = '''', ac_keyring = None\<rparr>,
     bn_blindIndexKey = '''', bn_crypto = openCrypto, bn_random = (\<lambda>_ _. replicate 12 (CHR ''n''))\<rparr>"

definition countStep :: planstep where
  "countStep = \<lparr>ps_id = 0, ps_role = ''main'', ps_sql = countSql, ps_tables = [''user''], ps_lock = None,
     ps_bind_slots = [paramSlot 0 ''i64''], ps_assemble = None, ps_parent = None\<rparr>"

lemma countStep_args: "args plainBinding 0 countStep [VInt 5] [] None = Inr ([VInt 5], [VInt 5])"
  by (simp add: args_def countStep_def slotValues_def paramSlot_def boundParam_def paramAt_def checkAssign_def checkParam_def
    bindSlotType_def integerRanges_def boundTime_def boundDecimal_def boundStyles_def refuse_def)

lemma countStep_facts:
  "countStep \<in> set (pl_steps (plainPlan ''count'' countSql [paramSlot 0 ''i64'']))"
  "\<forall>s \<in> set (ps_bind_slots countStep). bs_from s \<noteq> ''parent''"
  by (simp_all add: countStep_def plainPlan_def paramSlot_def)

text \<open>A codec that writes the key before the text, and a row written with the first of two keys\<close>

definition prefixCodec :: rowcodec where
  "prefixCodec =
     \<lparr>rc_decode = (\<lambda>v styles key. case v of VStr s \<Rightarrow> if startsWith s key then Inr (VStr (drop (length key) s)) else fail CODEC_DECODE
        | _ \<Rightarrow> fail CODEC_DECODE),
      rc_encode = (\<lambda>v styles key. case v of VStr s \<Rightarrow> Inr (VStr (key @ s)) | _ \<Rightarrow> fail CODEC_ENCODE)\<rparr>"

lemma prefixCodec_lawful: "lawfulCodec prefixCodec"
  by (auto simp: lawfulCodec_def prefixCodec_def startsWith_def split: jsvalue.splits if_splits)

definition twoKeys :: keyring where
  "twoKeys = \<lparr>kg_keys = [(1, ''old''), (2, ''new'')], kg_currentVersion = 2\<rparr>"

definition secretRow :: "(string \<times> jsvalue) list" where
  "secretRow = [(''id'', VInt 7), (''version'', VInt 1), (''secret'', VStr ''oldtext'')]"

lemma secretRow_rotates: "\<not> isl (rotateRow twoKeys secretRow ''version'' [(''secret'', [''aes''])] 2 prefixCodec)"
  by (simp add: rotateRow_def rotateColumn_def secretRow_def storedVersion_def keyOf_def twoKeys_def orFail_def present_def
    prefixCodec_def startsWith_def)

lemma secretRow_facts:
  "map_of secretRow ''id'' = Some (VInt 7)" "map_of secretRow ''version'' = Some (VInt 1)" "storedVersion (VInt 1) = Inr 1"
  "keyOf twoKeys 1 = Inr ''old''" "keyOf twoKeys 2 = Inr ''new''"
  "rc_decode prefixCodec (VStr ''oldtext'') [''aes''] ''old'' = Inr (VStr ''text'')"
  by (simp_all add: secretRow_def storedVersion_def keyOf_def twoKeys_def orFail_def prefixCodec_def startsWith_def)

end
