(* ===== verification/Spec2Isabelle.thy ===== *)
theory Spec2Isabelle
  imports Canonical AlignedPlan TxExample
begin

text \<open>
  \<^bold>\<open>The TypeScript client of polyspec/orm\<close>

  The client turns a value-free request (\<open>ir.ts\<close>) into a plan of SQL statements for MySQL,
  PostgreSQL or SQLite and runs the plan in transactions of a connection. A request is validated
  against the runtime model of the schema and planned by the dialect of the connection; the
  connection keeps the plan, resolves the bind slots of each step to values, sends the statement,
  and puts the rows of relations together by their keys. All paths below are under
  \<open>src/packages/ts/src/\<close>.

  \<^bold>\<open>Theories.\<close>
  \<^item> \<open>Prelude\<close>, \<open>Text\<close>: the error codes, results (an error or a value), computations over a mutable
    state, ordered maps, and what the sources use of JavaScript on texts, numbers and UTF-8. A text is
    the list of its UTF-8 bytes, an integer of JavaScript is an \<open>int\<close>, a 32-bit shift is written out.
  \<^item> \<open>IR\<close> (\<open>ir.ts\<close>), \<open>Model\<close> (\<open>engine/model.ts\<close>): requests, plans and the entities of a schema.
  \<^item> \<open>Validate\<close> (\<open>engine/validate.ts\<close>, \<open>meet.ts\<close>), \<open>Canonical\<close> and \<open>Bucket\<close>
    (\<open>engine/canonical.ts\<close>): the rules of a request, its renumbering, and the loop that pads a list.
  \<^item> \<open>Dialect\<close> (\<open>engine/dialect.ts\<close>), \<open>Builder\<close>, \<open>PlanExpr\<close>, \<open>PlanCond\<close>, \<open>PlanWrite\<close>,
    \<open>PlanSelect\<close> (\<open>engine/planner.ts\<close>, \<open>engine/index.ts\<close>): the three dialects as records of
    functions, and the planner as computations over the builder of a statement; \<open>compile\<close> is the
    engine.
  \<^item> \<open>SqlText\<close>, \<open>Aligned\<close>, \<open>AlignedPlan\<close>: a lexer of SQL text, a logic for computations over the
    builder, and the proof that the planner keeps placeholders and bind slots in step. What the proof
    needs of a dialect is the locale \<open>sql_dialect\<close>, which each of the three dialects interprets.
  \<^item> \<open>Keys\<close>, \<open>Execute\<close>, \<open>Expand\<close>, \<open>Relations\<close>, \<open>SplitIn\<close> (\<open>database.ts\<close>): keys of rows, relation
    steps with their chunks and expanded statements, and IN lists over the bind limit.
  \<^item> \<open>Decimal\<close> (\<open>decimal.ts\<close>), \<open>Calendar\<close>, \<open>Time\<close> (\<open>database.ts\<close>, \<open>driver.ts\<close>), \<open>BindCheck\<close>
    (\<open>bind_check.ts\<close>), \<open>Names\<close> (\<open>names.ts\<close>): exact decimals, dates and times with the part of
    \<open>Date\<close> that they use, the checks of parameters, and the grammar of method names.
  \<^item> \<open>Host\<close> (\<open>codec.ts\<close>, \<open>aes.ts\<close>), \<open>Args\<close> (\<open>database.ts\<close>): the codec stages of the client, packed
    addresses, key rotation, the keys of a connection, and the values of a statement.
  \<^item> \<open>Driver\<close> (\<open>driver.ts\<close>, \<open>events.ts\<close>, \<open>runtime_error.ts\<close>), \<open>Transaction\<close>, \<open>AuditedWrite\<close>,
    \<open>PlanCache\<close> (\<open>database.ts\<close>): the outcome of a statement, transactions with their retries,
    savepoints and clean-up, audited writes, the row lock of SQLite, and the cache of plans.
    \<open>Sessions\<close> and \<open>Atomic\<close> prove what a transaction leaves behind.
  \<^item> \<open>Example\<close>, \<open>Scenario\<close>, \<open>TxExample\<close>: a small schema, a relation, and a small database, on which
    the properties below are evaluated. Three of their lemmas show defects:
    \<open>soft_delete_escapes\<close>, \<open>failed_commit_returned\<close> and \<open>delay_overflow\<close>.

  \<^bold>\<open>State and effects.\<close> A class or interface is a record with the members of the source, a union
  of literals a text or a datatype. A thrown error is the left value of a sum. The builder of a
  statement is a state that the planner's computations thread. A transaction runs over the state of
  the connection: its frames, its subscribers, and the state of the database, which is a parameter
  (\<open>world\<close>) with one function for each call of the driver. Every call is kept in a log, and the
  properties of transactions speak about this log.

  \<^bold>\<open>What is shown.\<close> Compiled statements and their values agree with the placeholders of the text
  (C1, C4, C31). Relation steps end and give every parent exactly its rows, within the bind limit of
  the driver (C2, C3, C5, C6), and split lists lose and repeat no row (C18, C19). Values survive
  storage: decimals, times, texts under codec stages, addresses and rows whose keys are rotated
  (C7 to C11, C32 to C35). Parameters are checked against the types of their columns, and LIKE and
  full-text values match what they should (C12 to C15). Method names read back as written (C16, C17).
  The padding loop ends exactly up to its bound (C20). A transaction is atomic, gives its session
  back once and clean, retries a bounded number of times, and its savepoints, audit record and row
  lock restore what they changed (C21 to C28). The plan cache is transparent and bounded (C29, C30).

  \<^bold>\<open>Bounds and termination.\<close> Walks over requests are recursive functions whose measure is the size
  of the request, or of its scopes. The only loop with fuel is the padding loop: its counter is a
  32-bit integer, so 33 rounds decide it, and C20 shows when it ends. The retries of a transaction
  recurse over the number of retries left.

  \<^bold>\<open>Hypotheses.\<close> The answer of the database to a relation statement (C2, C3), the laws of the
  cryptographic library (C32) and of the codec that a caller passes to a rotation (C34), that a
  request is read by the names of its members (C30), and that a callback sends statements through
  the client (C21 to C26) are hypotheses with these names in the statements. C23 also asks that the
  driver does not report open transactions and that no subscriber throws on a failed statement;
  \<open>failed_commit_returned\<close> shows that the last one is needed.

  \<^bold>\<open>Not modelled.\<close> The database libraries, connection strings and pools, notifications and the
  schema utilities (\<open>driver.ts\<close>, \<open>listen.ts\<close>, \<open>utils.ts\<close>), which are input and output; the model
  objects and their proxies (\<open>core.ts\<close>, \<open>model.ts\<close>), which build requests at run time by reflection;
  the YAML, PHP, JSON and compression stages of \<open>codec.ts\<close>; the dbspec language, its migrations and
  catalogs (\<open>dbspec/\<close>, \<open>catalog.ts\<close>), the code generator, the editor tools, and the ports to other
  languages. The texts of error messages are not kept, and interleavings of concurrent callbacks are
  not: the steps of one callback run one after the other.
\<close>

section \<open>Plans bind what they print\<close>

text \<open>
  C1: in every step of every compiled plan, the placeholders of the statement are those of its
  bind slots, one for each slot and in the order of the slots, and the text ends outside quotes.
  No assumption is made on the names of tables, columns, joins and outputs: a name that holds a
  quote or a placeholder marker is read back as a name.
\<close>

theorem compile_binds_placeholders:
  assumes "dialectOf name = Some d" and "compile m name assigns r = Inr p" and "st \<in> set (pl_steps p)"
  shows "balanced d (ps_sql st) \<and>
    placeholders d (ps_sql st) =
      map (\<lambda>n. if name = ''postgres'' then show_nat n else []) [1..<Suc (length (ps_bind_slots st))]"
  using compiled_aligned[OF assms] assms(1)
  by (auto simp: aligned_def tokens_def dialectOf_def split: if_splits)

theorem compile_binds_placeholders_witness:
  \<open>balanced postgres ''SELECT COUNT(*) FROM "user" AS "a" WHERE "a"."x" = $1'' \<and>
   placeholders postgres ''SELECT COUNT(*) FROM "user" AS "a" WHERE "a"."x" = $1'' = [''1'']\<close>
  using compile_binds_placeholders[OF _ plan_count, of postgres]
  by (simp add: eval_simps)

section \<open>Reads\<close>

text \<open>
  C2: a relation step gives every parent row its children. For each parent that takes part, the
  group of its key in the result holds exactly the rows of the child table whose key values equal
  the parent's, in the order of the table, although the rows were read in chunks of parents, and
  each group holds indexes into the rows that were read. The statement is assumed to answer a
  chunk with the rows whose key is one of the tuples it binds.
\<close>

theorem relation_rows_complete:
  assumes step: "ps_role step = ''relation''" "ps_parent step = Some pref" "pr_keys pref \<noteq> []"
    and keys: "childKeys p (ps_id step) = Inr keys"
    and sel: "answers (select step) keys (length (pr_keys pref)) table"
    and parents: "parents = (if pr_step pref = 0 then main else case map_of out (pr_step pref) of None \<Rightarrow> [] | Some sd \<Rightarrow> sd_data sd)"
    and typed: "\<forall>r \<in> set table. \<forall>v \<in> set (keyValues keys r). typedKey v \<or> v = VNull"
      "\<forall>q \<in> set parents. \<forall>v \<in> set (keyValues (pr_keys pref) q). typedKey v \<or> v = VNull"
    and run: "relationStep select p params driver main out step = Inr out'"
    and q: "q \<in> set parents" "eligible pref params q"
  shows "\<exists>sd k. map_of out' (ps_id step) = Some sd \<and> rowKey q (pr_keys pref) = Inr (Some k) \<and>
    map (\<lambda>i. sd_data sd ! i) (orEmpty (map_of (sd_byKey sd) k)) =
      filter (\<lambda>r. keyValues keys r = keyValues (pr_keys pref) q) table"
  by (rule relationStep_complete[OF assms])

theorem relation_rows_complete_witness:
  "\<exists>out sd k. relationStep postSelect postPlan [] ''postgres'' [[VInt 1], [VInt 2], [VInt 3]] [] postStep = Inr out \<and>
     map_of out 1 = Some sd \<and> rowKey [VInt 1] idKey = Inr (Some k) \<and>
     map (\<lambda>i. sd_data sd ! i) (orEmpty (map_of (sd_byKey sd) k)) = [[VInt 1, VStr ''p''], [VInt 1, VStr ''r'']]"
proof -
  obtain out where out: "relationStep postSelect postPlan [] ''postgres'' [[VInt 1], [VInt 2], [VInt 3]] [] postStep = Inr out"
    using post_returns[of "''postgres''"] by (auto simp: driverLimit_def)
  have "eligible \<lparr>pr_step = 0, pr_keys = idKey, pr_if_parent = None\<rparr> [] [VInt 1]"
    by (simp add: eligible_def skipsParent_def keyValues_def idKey_def cell_def)
  with relation_rows_complete[OF post_parent(1,2) _ postPlan_keys _ _ _ _ out, of postTable
      "[[VInt 1], [VInt 2], [VInt 3]]" "[VInt 1]"] post_facts
  have "\<exists>sd k. map_of out (ps_id postStep) = Some sd \<and> rowKey [VInt 1] idKey = Inr (Some k) \<and>
     map (\<lambda>i. sd_data sd ! i) (orEmpty (map_of (sd_byKey sd) k)) =
       filter (\<lambda>r. keyValues ownerKey r = keyValues idKey [VInt 1]) postTable" by simp
  with out show ?thesis by (simp add: scenario_defs keyValues_def cell_def)
qed

text \<open>
  C3: a relation step ends with a result, when the statement answers and its fixed values leave
  room for one parent within the bind limit of the driver: the loops over the parents, the chunks
  and the rows all end, and no value of a key column is refused.
\<close>

theorem relation_step_returns:
  assumes step: "ps_parent step = Some pref" "pr_keys pref \<noteq> []"
    and keys: "childKeys p (ps_id step) = Inr keys"
    and sel: "answers (select step) keys (length (pr_keys pref)) table"
    and parents: "parents = (if pr_step pref = 0 then main else case map_of out (pr_step pref) of None \<Rightarrow> [] | Some sd \<Rightarrow> sd_data sd)"
    and typed: "\<forall>r \<in> set table. \<forall>v \<in> set (keyValues keys r). typedKey v \<or> v = VNull"
      "\<forall>q \<in> set parents. \<forall>v \<in> set (keyValues (pr_keys pref) q). typedKey v \<or> v = VNull"
    and limit: "int (length (filter (\<lambda>s. bs_from s \<noteq> ''parent'') (ps_bind_slots step)) + length (pr_keys pref)) \<le> driverLimit driver"
  shows "\<exists>out'. relationStep select p params driver main out step = Inr out'"
  by (rule relationStep_returns[where select = select, OF assms])

theorem relation_step_returns_witness:
  "\<exists>out. relationStep postSelect postPlan [] ''sqlite'' [[VInt 1], [VInt 2], [VInt 3]] [] postStep = Inr out"
  using relation_step_returns[OF post_parent(2) _ postPlan_keys, where select = postSelect and table = postTable
      and parents = "[[VInt 1], [VInt 2], [VInt 3]]" and main = "[[VInt 1], [VInt 2], [VInt 3]]"] post_facts
  by (simp add: driverLimit_def)



text \<open>
  C5: no statement of a relation binds more values than the driver permits: the chunks of the
  parents' values are, in order, all the values, and the statement of each chunk, padded to a
  power of two, stays within the limit with the fixed slots of the step.
\<close>

theorem relation_chunks_bounded:
  assumes parent: "ps_parent step = Some pref" and eq: "relationChunks step values driver = Inr cs"
    and dvd: "length (pr_keys pref) dvd length values"
  shows "concat cs = values \<and>
    list_all (\<lambda>c. case expandParent step c of
        Inl _ \<Rightarrow> False
      | Inr (sql, vs) \<Rightarrow> set vs = set c \<and> take (length c) vs = c \<and>
          int (length (filter (\<lambda>s. bs_from s \<noteq> ''parent'') (ps_bind_slots step)) + length vs) \<le> driverLimit driver) cs"
  using relationChunks_limit[OF parent refl eq dvd] relationChunks_concat[OF eq]
  by (fastforce simp: list_all_iff)

theorem relation_chunks_bounded_witness:
  "\<exists>cs. relationChunks postStep (replicate 1500 (VInt 7)) ''sqlite'' = Inr cs \<and> concat cs = replicate 1500 (VInt 7) \<and>
     list_all (\<lambda>c. case expandParent postStep c of Inl _ \<Rightarrow> False | Inr (sql, vs) \<Rightarrow> length vs \<le> 999) cs"
proof -
  obtain cs where cs: "relationChunks postStep (replicate 1500 (VInt 7)) ''sqlite'' = Inr cs"
    using post_facts by (simp add: relationChunks_def driverLimit_def present_def)
  from relation_chunks_bounded[OF post_parent(2) cs] post_facts show ?thesis using cs
    by (auto simp: list_all_iff driverLimit_def split: sum.splits)
qed

text \<open>
  C6: the text of a key tells its values apart: for lists of values of key columns, the texts are
  equal exactly when the lists are, also for lists of different lengths and for values whose texts
  read alike, such as the integer 1, the text 1 and the boolean true.
\<close>

theorem key_text_identity:
  assumes "\<forall>v \<in> set vs. typedKey v" and "\<forall>w \<in> set ws. typedKey w"
  shows "keyOfValues vs = keyOfValues ws \<longleftrightarrow> vs = ws"
  by (rule keyOfValues_eq[OF assms])

theorem key_text_identity_witness:
  "keyOfValues [VStr ''1'', VInt 1] \<noteq> keyOfValues [VInt 1, VStr ''1'']"
  using key_text_identity[of "[VStr ''1'', VInt 1]" "[VInt 1, VStr ''1'']"] by simp

section \<open>Values\<close>

text \<open>
  C7: a decimal text is accepted exactly when its value fits. For a valid precision and scale and
  a decimal text with no more fraction digits than the scale, the result is the text of the value
  with exactly that many fraction digits when the scaled value is below ten to the precision, and
  CODEC_ENCODE otherwise; signs, leading zeros and minus zero are normalised away.
\<close>

theorem decimal_accepts_values:
  assumes "validScale p s" and "isDecimal x" and "int (length (fractionPart x)) \<le> s"
  shows "normalizeDecimal x p s =
    (if \<bar>scaledValue (nat s) x\<bar> < 10 ^ nat p then Inr (scaledText (scaledValue (nat s) x) (nat s)) else fail CODEC_ENCODE)"
  by (rule normalizeDecimal_value[OF assms])

theorem decimal_accepts_values_witness:
  "normalizeDecimal ''-00.5'' 5 2 = Inr ''-0.50'' \<and> normalizeDecimal ''1234'' 5 2 = fail CODEC_ENCODE"
  using decimal_accepts_values[of 5 2 "''-00.5''"] decimal_accepts_values[of 5 2 "''1234''"]
  by (simp add: decimal_eval)

text \<open>
  C8: a decimal survives its storage as a scaled integer. The integer that SQLite stores for an
  accepted text reads back as the normal form of the text, and storing that form again gives the
  same integer.
\<close>

theorem decimal_storage_roundtrip:
  assumes "decimalScaled x p s = Inr n"
  shows "\<exists>y. normalizeDecimal x p s = Inr y \<and> decimalFromScaled (Some n) p s = Inr y \<and> decimalScaled y p s = Inr n"
proof -
  from assms obtain y where y: "normalizeDecimal x p s = Inr y" and n: "n = scaledValue (nat s) x"
    by (auto simp: decimalScaled_value bind_res_Inr_iff)
  note facts = normalizeDecimal_Inr[OF y]
  have "scaledValue (nat s) y = n" using facts(4) scaledText_reads[of n "nat s"] n by simp
  with facts n y show ?thesis
    by (auto simp: decimalFromScaled_value decimalScaled_value normalizeDecimal_scaledText)
qed

theorem decimal_storage_roundtrip_witness:
  "decimalFromScaled (Some (- 50)) 5 2 = Inr ''-0.50''"
proof -
  have "normalizeDecimal ''-0.5'' 5 2 = Inr ''-0.50''" "decimalScaled ''-0.5'' 5 2 = Inr (- 50)"
    by (simp_all add: decimal_eval)
  with decimal_storage_roundtrip[of "''-0.5''" 5 2] show ?thesis by simp
qed

text \<open>
  C9: a date, time or datetime that a write accepts reads back unchanged. The stored text of an
  accepted value is its own value form, in every zone of the reading connection, since a stored
  text carries no offset.
\<close>

theorem time_storage_roundtrip:
  assumes "timeValue v colType zone p = Inr t" and "colType \<noteq> ''time'' \<longrightarrow> inRange t" and "p \<le> 9"
  shows "readTime (Some t) colType zone' p = Inr t"
proof -
  have "timeForm v colType zone p = Inr (Some t)"
    using assms(1) by (auto simp: timeValue_def bind_res_Inr_iff orFail_def split: option.splits)
  from timeForm_fixed[OF this] assms(2,3) show ?thesis by (simp add: readTime_def orFail_def)
qed

theorem time_storage_roundtrip_witness:
  "readTime (Some ''12:30:45.500'') ''time'' ''+00:00'' 3 = Inr ''12:30:45.500''"
proof -
  have "timeValue (Some ''12:30:45.5'') ''time'' ''+00:00'' 3 = Inr ''12:30:45.500''"
    by (simp add: time_eval numeral_2_eq_2)
  from time_storage_roundtrip[OF this, of "''+00:00''"] show ?thesis by simp
qed

text \<open>
  C10: a datetime with an offset keeps its instant. The text written for it in the zone of the
  connection has no offset, is its own value form, and names the same instant as the given text.
\<close>

theorem datetime_offset_instant:
  assumes r: "readDateTime s = Some ((y, m, d), (h, mi, sec), ds, Some offset)"
    and valid: "validDate (num y) (num m) (num d) (num h) (num mi) (num sec)"
    and f: "fraction ds p = Some f" "p \<le> 9" "list_all digit ds" and z: "zoneOffset zone = Inr z"
    and year: "1 \<le> yearFromDay (dayOf (wallInstant (y, m, d) (h, mi, sec) - offset * 60000 + z * 60000))"
      "yearFromDay (dayOf (wallInstant (y, m, d) (h, mi, sec) - offset * 60000 + z * 60000)) < 10000"
  shows "\<exists>t date clock ds'. timeFormDateTime s zone p = Inr (Some t) \<and> timeFormDateTime t zone p = Inr (Some t) \<and>
    readDateTime t = Some (date, clock, ds', None) \<and>
    wallInstant date clock - z * 60000 = wallInstant (y, m, d) (h, mi, sec) - offset * 60000"
  by (rule timeFormDateTime_offset[OF assms])

theorem datetime_offset_instant_witness:
  "\<exists>t date clock ds'. timeFormDateTime ''2024-02-29T23:30:00-02:00'' ''+05:30'' 0 = Inr (Some t) \<and>
     readDateTime t = Some (date, clock, ds', None) \<and>
     wallInstant date clock - 330 * 60000 =
       wallInstant (''2024'', ''02'', ''29'') (''23'', ''30'', ''00'') + 120 * 60000"
proof -
  have [simp]: "skipSpace ''-02:00'' = ''-02:00''" by (subst skipSpace.simps) (simp add: time_eval)
  have r: "readDateTime ''2024-02-29T23:30:00-02:00'' =
      Some ((''2024'', ''02'', ''29''), (''23'', ''30'', ''00''), '''', Some (- 120))" by (simp add: time_eval Let_def)
  have v: "validDate (num ''2024'') (num ''02'') (num ''29'') (num ''23'') (num ''30'') (num ''00'')"
    by (subst validDate_iff) (simp_all add: read_nat_def digitVal_def isDate_def daysInMonth_def isLeap_def)
  have w: "wallInstant (''2024'', ''02'', ''29'') (''23'', ''30'', ''00'') = 1709249400000"
    by (simp add: wallInstant_def read_nat_def digitVal_def makeDay_def dayFromYear_def monthStart_def isLeap_def)
  have y: "yearFromDay (dayOf 1709276400000) = 2024" by (simp add: yearFromDay_def dayFromYear_def)
  have f: "fraction [] 0 = Some []" "zoneOffset ''+05:30'' = Inr 330" by (simp_all add: time_eval)
  from datetime_offset_instant[OF r v f(1) _ _ f(2)] y show ?thesis by (simp add: w) blast
qed

text \<open>
  C11: the dates accepted are those of the Gregorian calendar with a clock time below 24:00:00,
  for every year from 0 to 9999 that four digits can write, except the 29th of February of the
  year 0, which \<open>Date.UTC\<close> reads in the year 1900.
\<close>

theorem valid_dates:
  assumes "0 \<le> y" "0 \<le> h" "0 \<le> mi" "0 \<le> sec"
  shows "validDate y m d h mi sec \<longleftrightarrow>
    isDate y m d \<and> \<not> (y = 0 \<and> m = 2 \<and> d = 29) \<and> h < 24 \<and> mi < 60 \<and> sec < 60"
  by (rule validDate_iff[OF assms])

theorem valid_dates_witness:
  "validDate 2024 2 29 23 59 59 \<and> \<not> validDate 1900 2 29 0 0 0 \<and> \<not> validDate 0 2 29 0 0 0"
  using valid_dates[of 2024 23 59 59 2 29] valid_dates[of 1900 0 0 0 2 29] valid_dates[of 0 0 0 0 2 29]
  by (simp add: isDate_def daysInMonth_def isLeap_def)

section \<open>Bind checks\<close>

lemma sint_range:
  "(\<exists>w :: 'a::len word. n = sint w) \<longleftrightarrow> - (2 ^ (LENGTH('a) - 1)) \<le> n \<and> n < 2 ^ (LENGTH('a) - 1)"
proof
  assume "\<exists>w :: 'a word. n = sint w"
  then obtain w :: "'a word" where "n = sint w" by blast
  then show "- (2 ^ (LENGTH('a) - 1)) \<le> n \<and> n < 2 ^ (LENGTH('a) - 1)"
    using sint_greater_eq[of w] sint_less[of w] by simp
next
  assume "- (2 ^ (LENGTH('a) - 1)) \<le> n \<and> n < 2 ^ (LENGTH('a) - 1)"
  then have "sint (word_of_int n :: 'a word) = n" by (simp add: sint_sbintrunc' signed_take_bit_int_eq_self)
  then show "\<exists>w :: 'a word. n = sint w" by metis
qed

lemma sint_values:
  "(\<exists>w :: 16 word. v = VInt (sint w)) \<longleftrightarrow> (\<exists>n. v = VInt n \<and> - 32768 \<le> n \<and> n < 32768)"
  "(\<exists>w :: 32 word. v = VInt (sint w)) \<longleftrightarrow> (\<exists>n. v = VInt n \<and> - 2147483648 \<le> n \<and> n < 2147483648)"
  "(\<exists>w :: 64 word. v = VInt (sint w)) \<longleftrightarrow>
     (\<exists>n. v = VInt n \<and> - 9223372036854775808 \<le> n \<and> n < 9223372036854775808)"
proof -
  have *: "(\<exists>w :: 'a::len word. v = VInt (sint w)) \<longleftrightarrow> (\<exists>n. v = VInt n \<and> (\<exists>w :: 'a word. n = sint w))" by auto
  show "(\<exists>w :: 16 word. v = VInt (sint w)) \<longleftrightarrow> (\<exists>n. v = VInt n \<and> - 32768 \<le> n \<and> n < 32768)"
    "(\<exists>w :: 32 word. v = VInt (sint w)) \<longleftrightarrow> (\<exists>n. v = VInt n \<and> - 2147483648 \<le> n \<and> n < 2147483648)"
    "(\<exists>w :: 64 word. v = VInt (sint w)) \<longleftrightarrow>
      (\<exists>n. v = VInt n \<and> - 9223372036854775808 \<le> n \<and> n < 9223372036854775808)"
    unfolding * sint_range by simp_all
qed

text \<open>
  C12: an integer parameter is accepted exactly when it is an integer of the signed width of its
  slot: the values of a 16, 32 or 64 bit word read in two's complement, and nothing else.
\<close>

theorem integer_parameters:
  assumes "v \<noteq> VNull"
  shows "(checkParam v (sl\<lparr>sl_type := ''i16''\<rparr>) zone = Inr () \<longleftrightarrow> (\<exists>w :: 16 word. v = VInt (sint w))) \<and>
    (checkParam v (sl\<lparr>sl_type := ''i32''\<rparr>) zone = Inr () \<longleftrightarrow> (\<exists>w :: 32 word. v = VInt (sint w))) \<and>
    (checkParam v (sl\<lparr>sl_type := ''i64''\<rparr>) zone = Inr () \<longleftrightarrow> (\<exists>w :: 64 word. v = VInt (sint w)))"
  using checkParam_integer[OF _ assms, of "sl\<lparr>sl_type := ''i16''\<rparr>" zone]
    checkParam_integer[OF _ assms, of "sl\<lparr>sl_type := ''i32''\<rparr>" zone]
    checkParam_integer[OF _ assms, of "sl\<lparr>sl_type := ''i64''\<rparr>" zone]
  by (simp add: widthOf_def sint_values)

theorem integer_parameters_witness:
  "checkParam (VInt 32767) ((slotOf ''text'')\<lparr>sl_type := ''i16''\<rparr>) ''+00:00'' = Inr () \<and>
   checkParam (VInt 32768) ((slotOf ''text'')\<lparr>sl_type := ''i16''\<rparr>) ''+00:00'' \<noteq> Inr ()"
  using integer_parameters[of "VInt 32767" "slotOf ''text''" "''+00:00''"]
    integer_parameters[of "VInt 32768" "slotOf ''text''" "''+00:00''"]
  unfolding sint_values by simp

text \<open>
  C13: whatever a parameter and its slot are, a refused parameter is CODEC_ENCODE and nothing
  else, also when the decimal or the time of the parameter was refused for a reason of its own.
\<close>

theorem parameter_errors:
  assumes "checkParam v sl zone = Inl e"
  shows "e = OrmError CODEC_ENCODE"
  by (rule checkParam_error[OF assms])

theorem parameter_errors_witness:
  "checkParam (VStr ''1.005'') ((slotOf ''decimal'')\<lparr>sl_precision := 5, sl_scale := 2\<rparr>) ''+00:00'' = fail CODEC_ENCODE"
proof -
  let ?c = "checkParam (VStr ''1.005'') ((slotOf ''decimal'')\<lparr>sl_precision := 5, sl_scale := 2\<rparr>) ''+00:00''"
  have "?c \<noteq> Inr ()" by (simp add: checkParam_def slotOf_type strOf_def decimal_eval)
  then obtain e where "?c = Inl e" by (cases ?c) auto
  with parameter_errors[OF this] show ?thesis by simp
qed

text \<open>
  C14: the pattern of a search text matches the text literally. Under the LIKE rule, with the
  backslash as its escape, the patterns of contains, starts and ends match exactly the texts that
  contain, start with or end with the value, whatever wildcards and backslashes it holds.
\<close>

theorem like_patterns:
  "(\<exists>pat. transformParam ''like_contains'' (VStr v) = Inr (VStr pat) \<and> (\<forall>t. likeMatch pat t \<longleftrightarrow> (\<exists>a b. t = a @ v @ b))) \<and>
   (\<exists>pat. transformParam ''like_starts'' (VStr v) = Inr (VStr pat) \<and> (\<forall>t. likeMatch pat t \<longleftrightarrow> (\<exists>b. t = v @ b))) \<and>
   (\<exists>pat. transformParam ''like_ends'' (VStr v) = Inr (VStr pat) \<and> (\<forall>t. likeMatch pat t \<longleftrightarrow> (\<exists>a. t = a @ v)))"
proof -
  have forms: "transformParam ''like_contains'' (VStr v) = Inr (VStr (''%'' @ escapeLike v @ ''%''))"
    "transformParam ''like_starts'' (VStr v) = Inr (VStr (escapeLike v @ ''%''))"
    "transformParam ''like_ends'' (VStr v) = Inr (VStr (''%'' @ escapeLike v))"
    by (simp_all add: transformParam_def strOf_def)
  show ?thesis
    by (intro conjI exI allI, rule forms(1), rule like_forms(1), rule forms(2), rule like_forms(2), rule forms(3), rule like_forms(3))
qed


section \<open>Method names\<close>

text \<open>
  C16: an order method name means what it spells. The name built from columns and directions, each
  column in Pascal case with Asc or Desc and the keys joined by And, parses back to those columns
  and directions in order, for columns whose spelling is theirs alone and has no separator word.
\<close>

theorem order_name_roundtrip:
  assumes "ks \<noteq> []" and "\<forall>k \<in> set ks. spelled e (ok_column k)"
  shows "parseOrder e (joinS ''And'' (map orderWord ks)) = Inr ks"
  by (rule parseOrder_spelled[OF assms])

theorem order_name_roundtrip_witness:
  "parseOrder (userEntity '''') ''IdDescAndGoneAsc'' =
     Inr [\<lparr>ok_column = ''id'', ok_desc = True\<rparr>, \<lparr>ok_column = ''gone'', ok_desc = False\<rparr>]"
proof -
  have "spelled (userEntity '''') ''id''" "spelled (userEntity '''') ''gone''"
    by code_simp+
  with order_name_roundtrip[of "[\<lparr>ok_column = ''id'', ok_desc = True\<rparr>, \<lparr>ok_column = ''gone'', ok_desc = False\<rparr>]" "userEntity ''''"]
  show ?thesis by (simp add: orderWord_def pascal_user)
qed



section \<open>Split IN lists\<close>



text \<open>
  C19: the rows of the parts of a split read are merged without loss and without repetition: no
  two merged rows have the same key, each was read by a part, and for each row that a part read
  there is a merged row with its key.
\<close>

theorem split_rows_merge:
  assumes ok: "mainRows planOf selectRows cached parts = Inr main" and parts: "parts \<noteq> []"
    and planned: "\<forall>part \<in> set parts. \<exists>p st a. planOf part = Inr p \<and> mainStepOf p = Inr st \<and> ps_assemble st = Some a \<and>
      as_key a = keys \<and> selectRows p st = Inr (found part)"
  shows "distinct (map (\<lambda>row. splitRowKey row keys) main) \<and> set main \<subseteq> (\<Union>part \<in> set parts. set (found part)) \<and>
    (\<forall>part \<in> set parts. \<forall>row \<in> set (found part). \<exists>row' \<in> set main. splitRowKey row' keys = splitRowKey row keys)"
  by (rule mainRows_once[OF assms])

theorem split_rows_merge_witness:
  "\<exists>main. mainRows (\<lambda>r. Inr postPlan) (\<lambda>p st. Inr [[VInt 2], [VInt 1]]) postPlan [userRequest ''select'' [] 0, userRequest ''select'' [] 1]
       = Inr main \<and> distinct (map (\<lambda>row. splitRowKey row idKey) main) \<and> set main \<subseteq> {[VInt 2], [VInt 1]}"
proof -
  have "\<exists>main. mainRows (\<lambda>r. Inr postPlan) (\<lambda>p st. Inr [[VInt 2], [VInt 1]]) postPlan
      [userRequest ''select'' [] 0, userRequest ''select'' [] 1] = Inr main"
    by (simp add: split_eval scenario_defs present_def orFail_def)
  then obtain main where main: "mainRows (\<lambda>r. Inr postPlan) (\<lambda>p st. Inr [[VInt 2], [VInt 1]]) postPlan
      [userRequest ''select'' [] 0, userRequest ''select'' [] 1] = Inr main" by blast
  with split_rows_merge[OF main, of idKey "\<lambda>_. [[VInt 2], [VInt 1]]"] show ?thesis
    by (auto simp: postPlan_def mainStepOf_def present_def)
qed

section \<open>Loops on 32-bit integers\<close>

text \<open>
  C20: the loop that rounds the length of a list up to a power of two ends exactly for lengths up
  to two to the thirty. Its result is then the least power of two that is large enough; above
  that length the 32-bit shift reaches zero and the loop never ends.
\<close>

theorem bucket_terminates:
  "(bucket n \<noteq> None \<longleftrightarrow> n \<le> 2 ^ 30) \<and>
   (case bucket n of None \<Rightarrow> True | Some b \<Rightarrow> (\<exists>j\<le>30. b = 2 ^ j) \<and> n \<le> b \<and> (b = 1 \<or> b < 2 * n))"
proof (cases "n \<le> 2 ^ 30")
  case True
  from bucket_Some[OF this] obtain j where "j \<le> 30" "bucket n = Some (2 ^ j)" "n \<le> 2 ^ j" "2 ^ j = (1::nat) \<or> 2 ^ j < 2 * n"
    by blast
  with True show ?thesis by (simp only: option.case) blast
next
  case False
  with bucket_None[of n] show ?thesis by simp
qed

section \<open>Transactions\<close>

text \<open>
  C21: a transaction is atomic. It refines the contract \<open>atomicStep\<close> on what the database keeps:
  when it returns a value, exactly one unit of statements became durable, and when it fails, none
  did, whatever statements failed and however often the callback was run again after a deadlock.
  The one exception is the error of a subscriber, which can follow a COMMIT that ran. The callback
  sends statements other than COMMIT and may nest transactions.
\<close>

theorem transaction_atomic:
  assumes "transaction w auditRecordOf callback opts en = (r, en')" and "activeFor en = None"
    and "disciplined callback" and "statementsOnly callback"
  shows "atomicStep r (durable (en_log en)) (durable (en_log en'))"
  by (rule transaction_atomicStep[OF assms])

theorem transaction_atomic_witness:
  "\<exists>r en'. transaction (goodWorld ''postgres'') (\<lambda>_. Inl (orm CONFIG)) (insertUser (goodWorld ''postgres'')) plainOptions startEnv = (r, en') \<and>
     atomicStep r [] (durable (en_log en')) \<and> durable (en_log en') = [[''INSERT'']]"
proof -
  let ?tx = "transaction (goodWorld ''postgres'') (\<lambda>_. Inl (orm CONFIG)) (insertUser (goodWorld ''postgres'')) plainOptions startEnv"
  obtain r en' where tx: "?tx = (r, en')" by fastforce
  have "durable [] = []" by (simp add: durable_def)
  with transaction_atomic[OF tx startEnv_facts(7) insertUser_allowed(2,1)] have "atomicStep r [] (durable (en_log en'))"
    by (simp add: startEnv_facts)
  moreover have "durable (en_log (snd ?tx)) = [[''INSERT'']]" by (simp only: goodWorld_transaction) (simp add: durable_def)
  ultimately show ?thesis using tx by auto
qed

text \<open>
  C22: a run of a transaction that reserves a session gives it back exactly once, after its last
  statement. A value is returned only when the last statement is the one COMMIT of the session and
  the database ran it, and an error that no subscriber threw only when no COMMIT ran.
\<close>

theorem session_given_back:
  assumes "run w callback opts record en = (r, en')" and "disciplined callback"
  shows "(isl r \<and> en_log en' = en_log en) \<or>
    (\<exists>sess L d. en_log en' = en_log en @ Reserved sess # L @ [Released sess d] \<and> \<not> list_ex (releases sess) L \<and>
      (case r of Inr _ \<Rightarrow> (\<exists>K. L = K @ [Sent sess KCommit ''COMMIT'' True] \<and> \<not> list_ex (committed sess) K) \<and> \<not> d
       | Inl e \<Rightarrow> subscriberError e \<or> \<not> list_ex (committed sess) L))"
  using run_log[OF assms] by blast

theorem session_given_back_witness:
  "\<exists>L d. en_log (snd (run (refusing ''postgres'' [''COMMIT''] None) (ioRet ()) plainBegin None startEnv)) =
     Reserved 7 # L @ [Released 7 d] \<and> \<not> list_ex (releases 7) L \<and> \<not> list_ex (committed 7) L"
proof -
  let ?run = "run (refusing ''postgres'' [''COMMIT''] None) (ioRet ()) plainBegin None startEnv"
  have log: "en_log (snd ?run) = [Reserved 7, Sent 7 KBegin ''BEGIN'' True, Sent 7 KCommit ''COMMIT'' False, Released 7 True]"
    by code_simp
  have fst: "isl (fst ?run)" "\<not> subscriberError (projl (fst ?run))" by code_simp+
  from session_given_back[OF prod.collapse[symmetric] disciplined_ret(1), of "refusing ''postgres'' [''COMMIT''] None" "()" plainBegin None startEnv]
    log fst startEnv_facts(6) obtain sess L d where "en_log (snd ?run) = Reserved sess # L @ [Released sess d]" "\<not> list_ex (releases sess) L"
      "\<not> list_ex (committed sess) L" by (auto split: sum.splits)
  moreover from this(1) log have "sess = 7" by simp
  ultimately show ?thesis by auto
qed





text \<open>
  C25: a nested transaction leaves the depth of its frame as it was and the frame open, and when
  it fails it also restores the audit record and the inserted keys of the frame.
\<close>

theorem savepoint_restores_frame:
  assumes "disciplined callback" and "\<not> fr_finished (en_frames en n)" and "savepoint w n callback en = (r, en')"
  shows "fr_savepoints (en_frames en' n) = fr_savepoints (en_frames en n) \<and> \<not> fr_finished (en_frames en' n) \<and>
    (isl r \<longrightarrow> fr_audit (en_frames en' n) = fr_audit (en_frames en n) \<and> fr_inserted (en_frames en' n) = fr_inserted (en_frames en n))"
  by (rule savepoint_frame[OF assms])

theorem savepoint_restores_frame_witness:
  "fr_savepoints (en_frames (snd (savepoint (goodWorld ''mysql'') 1 (savepoint (goodWorld ''mysql'') 1 (ioThrow (orm CONFIG) :: (nat, unit) io)) startEnv)) 1) = 0"
  using savepoint_restores_frame[where callback = "savepoint (goodWorld ''mysql'') 1 (ioThrow (orm CONFIG) :: (nat, unit) io)" and n = 1 and w = "goodWorld ''mysql''",
      OF disciplined_savepoint[OF disciplined_ret(2)] startEnv_facts(2) prod.collapse[symmetric]]
  by (simp add: startEnv_facts)



section \<open>Audited writes\<close>

text \<open>
  C27: the audit record of a transaction is kept exactly when its first audited write changed a
  row: after an update or delete that returned, the frame holds the record if and only if the
  number of affected rows is positive. The statement and the insert of the record leave the audit
  of the frame to the write.
\<close>

theorem audit_follows_rows:
  assumes "fr_audit (en_frames en n) = None" and "fr_pendingAudit (en_frames en n) = Some record"
    and "bindsAudit step" and "rq_kind r \<noteq> ''insert''"
    and "keepsAudit n runStep" and "keepsAudit n (insertAudit record)"
    and "writeRequest w insertAudit runStep m (Some n) r step en = (Inr (key, affected), en')"
  shows "fr_audit (en_frames en' n) \<noteq> None \<longleftrightarrow> 0 < affected"
  by (rule write_audit[OF assms])

theorem audit_follows_rows_witness:
  "fr_audit (en_frames (snd (writeRequest (goodWorld ''mysql'') (\<lambda>_. ioRet (''log'', VInt 3)) (ioRet (affectedRows 0)) None (Some 1)
      (userRequest ''update'' [] 0) auditedStep pendingEnv)) 1) = None \<and>
   fr_audit (en_frames (snd (writeRequest (goodWorld ''mysql'') (\<lambda>_. ioRet (''log'', VInt 3)) (ioRet (affectedRows 2)) None (Some 1)
      (userRequest ''update'' [] 0) auditedStep pendingEnv)) 1) \<noteq> None"
proof -
  let ?audited = "\<lambda>k. writeRequest (goodWorld ''mysql'') (\<lambda>_. ioRet (''log'', VInt 3)) (ioRet (affectedRows k)) None (Some 1)
    (userRequest ''update'' [] 0) auditedStep pendingEnv"
  have "fst (?audited 0) = Inr (VNull, 0)" "fst (?audited 2) = Inr (VNull, 2)" by code_simp+
  then obtain en0 en2 where w: "?audited 0 = (Inr (VNull, 0), en0)" "?audited 2 = (Inr (VNull, 2), en2)" by (metis prod.collapse)
  have k: "keepsAudit 1 (ioRet a)" for a :: 'b by (simp add: keepsAudit_def ioRet_def)
  from audit_follows_rows[OF pendingEnv_audit auditedStep_binds _ k k w(1)] audit_follows_rows[OF pendingEnv_audit auditedStep_binds _ k k w(2)]
  show ?thesis unfolding w by (simp add: userRequest_def del: not_None_eq)
qed

section \<open>The row lock\<close>

text \<open>
  C28: a row lock that must not wait ends by setting the busy timeout that it read before,
  whether the lock was taken or not, and it succeeds only when that statement ran.
\<close>

theorem row_lock_restores_wait:
  assumes "w_name w = ''sqlite''" and "endsWith mode ''_nowait''" and "\<not> fr_finished (en_frames en n)"
    and "frameRun w n KUtility [] ''PRAGMA busy_timeout'' en = (Inr rows, en1)" and "rowLock w n mode en = (r, en')"
  shows "\<exists>L ok. en_log en' = en_log en1 @ L @ [Sent (fr_session (en_frames en n)) KUtility (''PRAGMA busy_timeout='' @ timeoutText rows) ok] \<and>
    (r = Inr () \<longrightarrow> ok)"
  by (rule rowLock_restores[OF assms])

theorem row_lock_restores_wait_witness:
  "\<exists>L ok. en_log (snd (rowLock (goodWorld ''sqlite'') 1 ''update_nowait'' startEnv)) =
     Sent 0 KUtility ''PRAGMA busy_timeout'' True # L @ [Sent 0 KUtility ''PRAGMA busy_timeout=5000'' ok]"
proof -
  let ?first = "frameRun (goodWorld ''sqlite'') 1 KUtility [] ''PRAGMA busy_timeout'' startEnv"
  have "fst ?first = Inr [[VInt 5000]]" "en_log (snd ?first) = [Sent 0 KUtility ''PRAGMA busy_timeout'' True]" by code_simp+
  then obtain en1 where first: "?first = (Inr [[VInt 5000]], en1)" "en_log en1 = [Sent 0 KUtility ''PRAGMA busy_timeout'' True]"
    by (metis prod.collapse)
  have "w_name (goodWorld ''sqlite'') = ''sqlite''" "endsWith ''update_nowait'' ''_nowait''" "timeoutText [[VInt 5000]] = ''5000''"
    by code_simp+
  with row_lock_restores_wait[OF _ _ startEnv_facts(2) first(1) prod.collapse[symmetric], of "''update_nowait''"] first(2)
  show ?thesis by (auto simp: startEnv_facts)
qed

section \<open>The plan cache\<close>

text \<open>
  C29: the canonical text identifies a request: two requests have the same text exactly when they
  have the same members with the same values, in any order and without the undefined ones.
\<close>

theorem canonical_identifies:
  "canonical x = canonical y \<longleftrightarrow> norm x = norm y"
  by (rule canonical_inject)

text \<open>
  C30: the plan cache is transparent. A connection whose cache starts empty gives each request of
  a sequence the plan that compiling it gives, and the error when it does not compile, and never
  holds more plans than its size. The engine reads the members of a request by name.
\<close>

theorem plan_cache_transparent:
  assumes "\<forall>j j'. norm j = norm j' \<longrightarrow> read j = read j'"
    and "engines = (\<lambda>h. map_option (\<lambda>(m, name, assigns) j. compile m name assigns (read j)) (sets h))"
    and "hash = (\<lambda>j. rq_manifest_hash (read j))"
  shows "fst (planAll engines hash js \<lparr>pc_entries = [], pc_size = n\<rparr>) = map (freshPlan False engines hash) js \<and>
    length (pc_entries (snd (planAll engines hash js \<lparr>pc_entries = [], pc_size = n\<rparr>))) \<le> n"
proof -
  note same = assms(1)[rule_format]
  have "readsMembers engines hash" unfolding readsMembers_def
  proof (intro allI impI conjI)
    fix j j' h e p
    assume n: "norm j = norm j'"
    show "hash j = hash j'" using same[OF n] by (simp add: assms(3))
    assume "engines h = Some e" and "e j = Inr p"
    then show "e j' = Inr p" using same[OF n] by (auto simp: assms(2))
  qed
  from planAll_fresh[OF this, of "\<lparr>pc_entries = [], pc_size = n\<rparr>" js] show ?thesis by (simp add: sound_def)
qed

theorem plan_cache_transparent_witness:
  "map (map_sum id (map ps_sql \<circ> pl_steps \<circ> fst))
     (fst (planAll (\<lambda>h. map_option (\<lambda>(m, name, assigns) j. compile m name assigns (countOf j)) (userSets h)) (\<lambda>j. rq_manifest_hash (countOf j))
        [JObj [(''entity'', Some (JStr ''user'')), (''lock'', None)], JObj [(''entity'', Some (JStr ''user''))]] \<lparr>pc_entries = [], pc_size = 1\<rparr>)) =
   [Inr [countSql], Inr [countSql]]"
  by (subst plan_cache_transparent[OF countOf_members refl refl, THEN conjunct1])
    (simp add: freshPlan_def userSets_def countOf_def plan_count plainPlan_def userRequest_hash countSql_def)

section \<open>Values of statements and cells\<close>

text \<open>
  C31: a compiled statement is sent with one value for each of its placeholders. For every step of
  every compiled plan whose slots need no parents, when the values of its slots are accepted, there
  are exactly as many of them as placeholders in the text, and the event of the statement shows as
  many.
\<close>

theorem statement_values_meet_placeholders:
  assumes "dialectOf name = Some d" and "compile m name assigns r = Inr p" and "st \<in> set (pl_steps p)"
    and "\<forall>s \<in> set (ps_bind_slots st). bs_from s \<noteq> ''parent''"
    and "args bn micros st params parents audit = Inr (vals, masked)"
  shows "length vals = length (placeholders d (ps_sql st)) \<and> length masked = length vals"
proof -
  from compiled_aligned[OF assms(1-3)] have "length (placeholders d (ps_sql st)) = length (ps_bind_slots st)"
    by (simp add: aligned_def tokens_def del: upt_Suc)
  with args_length[OF assms(5)] slotCount_plain[OF assms(4)] show ?thesis by simp
qed

theorem statement_values_meet_placeholders_witness:
  "\<exists>vals masked. args plainBinding 0 countStep [VInt 5] [] None = Inr (vals, masked) \<and> vals = [VInt 5] \<and>
     length vals = length (placeholders postgres (ps_sql countStep))"
proof -
  have vals: "args plainBinding 0 countStep [VInt 5] [] None = Inr ([VInt 5], [VInt 5])" by (rule countStep_args)
  from statement_values_meet_placeholders[OF _ plan_count[folded countSql_def] countStep_facts vals, of postgres] show ?thesis
    using vals by (simp add: dialectOf_def)
qed



text \<open>
  C33: every stored address, of four or of sixteen bytes, is read as a text that is written back as
  the same bytes: the longest run of zero groups that the text leaves out is restored, and a mapped
  address keeps its dotted part.
\<close>

theorem stored_address_roundtrip:
  assumes "length bs = 4 \<or> length bs = 16"
  shows "\<exists>t. unpackIp bs = Inr t \<and> packIp t = Inr bs"
  by (rule pack_unpack[OF assms])

theorem stored_address_roundtrip_witness:
  "\<exists>t. unpackIp ([CHR 0x20, CHR 0x01] @ replicate 13 (CHR 0x00) @ [CHR 0x01]) = Inr t \<and>
     packIp t = Inr ([CHR 0x20, CHR 0x01] @ replicate 13 (CHR 0x00) @ [CHR 0x01])"
  using stored_address_roundtrip[of "[CHR 0x20, CHR 0x01] @ replicate 13 (CHR 0x00) @ [CHR 0x01]"] by simp

text \<open>
  C34: the rotation of the keys of a row keeps its values. When a row has an encrypted value that
  is not NULL, the version column becomes the target version, and each such value decodes under
  the key of the target to what it decoded under the key of the stored version; every other column
  is as it was. A row without such a value is returned as it is, and no key is read for it.
\<close>

theorem rotated_row_decodes:
  assumes "lawfulCodec codec" and "distinct (map fst columns)" and "vcol \<notin> fst ` set columns"
    and "rotateRow ring row vcol columns target codec = Inr out"
  shows "(\<forall>name. name \<noteq> vcol \<longrightarrow> name \<notin> fst ` set columns \<longrightarrow> map_of out name = map_of row name) \<and>
    (if \<exists>(name, styles) \<in> set columns. map_of row name \<noteq> Some VNull
     then map_of out vcol = Some (VInt target) \<and> (\<exists>stored version old new. map_of row vcol = Some stored \<and>
       storedVersion stored = Inr version \<and> keyOf ring version = Inr old \<and> keyOf ring target = Inr new \<and>
       (\<forall>(name, styles) \<in> set columns. \<forall>v. map_of row name = Some v \<and> v \<noteq> VNull \<longrightarrow>
          (\<exists>c plain. map_of out name = Some c \<and> rc_decode codec v styles old = Inr plain \<and> rc_decode codec c styles new = Inr plain)))
     else out = row)"
  by (rule rotateRow_rotated[OF assms])

theorem rotated_row_decodes_witness:
  "\<exists>out c. rotateRow twoKeys secretRow ''version'' [(''secret'', [''aes''])] 2 prefixCodec = Inr out \<and>
     map_of out ''version'' = Some (VInt 2) \<and> map_of out ''id'' = Some (VInt 7) \<and> map_of out ''secret'' = Some c \<and>
     rc_decode prefixCodec c [''aes''] ''new'' = Inr (VStr ''text'')"
proof -
  obtain out where out: "rotateRow twoKeys secretRow ''version'' [(''secret'', [''aes''])] 2 prefixCodec = Inr out"
    using secretRow_rotates by (metis sum.collapse(2))
  from rotated_row_decodes[OF prefixCodec_lawful _ _ out] have "map_of out ''id'' = map_of secretRow ''id''"
    "map_of out ''version'' = Some (VInt 2)"
    "\<exists>stored version old new. map_of secretRow ''version'' = Some stored \<and>
       storedVersion stored = Inr version \<and> keyOf twoKeys version = Inr old \<and> keyOf twoKeys 2 = Inr new \<and>
       (\<exists>c plain. map_of out ''secret'' = Some c \<and> rc_decode prefixCodec (VStr ''oldtext'') [''aes''] old = Inr plain \<and>
          rc_decode prefixCodec c [''aes''] new = Inr plain)"
    by (auto simp: secretRow_def)
  with out secretRow_facts show ?thesis by auto
qed

text \<open>
  C35: a connection that has a keyring encrypts with the key that the keyring holds for the version
  it stores beside the value, and that key is not empty: what it writes, it can read.
\<close>

theorem connection_key_in_ring:
  assumes "aesConfig aesVersion aesKey aesKeys = Inr c" and "ac_keyring c = Some ring"
  shows "keyOf ring (ac_version c) = Inr (ac_key c) \<and> ac_key c \<noteq> '''' \<and> kg_currentVersion ring = ac_version c"
  by (rule aesConfig_key[OF assms])

theorem connection_key_in_ring_witness:
  "\<exists>c ring. aesConfig (Some 2) None (Some [(1, ''old''), (2, ''new'')]) = Inr c \<and> ac_keyring c = Some ring \<and>
     keyOf ring 2 = Inr ''new'' \<and> ac_key c = ''new''"
proof -
  have c: "aesConfig (Some 2) None (Some [(1, ''old''), (2, ''new'')]) =
      Inr \<lparr>ac_version = 2, ac_key = ''new'', ac_keyring = Some \<lparr>kg_keys = [(1, ''old''), (2, ''new'')], kg_currentVersion = 2\<rparr>\<rparr>"
    by (simp add: aesConfig_def aesConfigAt_def newKeyring_def isSafeInteger_def)
  from connection_key_in_ring[OF c] c show ?thesis by simp
qed

end
